theory Spec2Isabelle
  imports Complex_Main "HOL-Library.Word" "HOL-Library.Sublist" "HOL-Library.Multiset"
begin

unbundle bit_operations_syntax

section \<open>PCM codec (src/utils/audio.ts and its variant src/unnamed/part_000)\<close>

text \<open>
  JavaScript numbers are modelled as real numbers. For the codec this is exact on every
  finite 32-bit float: the products \<open>s * 0x8000\<close> and \<open>s * 0x7FFF\<close> of a 24-bit
  significand with a 15-bit integer fit the 53-bit significand of a double, and a 16-bit
  integer divided by \<open>32768\<close> fits a 32-bit float. \<open>NaN\<close> is not represented. For
  the loudness and for the playback clock the real numbers idealise the doubles of the
  source; rounding is monotone, so it keeps the bounds and the order stated of them.
  An \<open>ArrayBuffer\<close> is the list of its bytes; an \<open>Int16Array\<close> over it reads
  little-endian pairs, as on every platform the repository targets.
\<close>

type_synonym byte = "8 word"
type_synonym int16 = "16 word"

datatype js_error = RangeError | NotSupportedError | TypeError | InvalidCharacterError

definition js_trunc :: "real \<Rightarrow> int" where
  \<comment> \<open>the integer part kept by the conversion of a number to an integer type\<close>
  "js_trunc v = (if v < 0 then \<lceil>v\<rceil> else \<lfloor>v\<rfloor>)"

definition ToInt16 :: "real \<Rightarrow> int16" where
  \<comment> \<open>truncate, then wrap modulo \<open>2 ^ 16\<close>\<close>
  "ToInt16 v = word_of_int (js_trunc v)"

definition setInt16 :: "int16 \<Rightarrow> byte list" where
  \<comment> \<open>\<open>view.setInt16(offset, val, true)\<close>: low byte first\<close>
  "setInt16 w = [ucast w, ucast (drop_bit 8 w)]"

definition getInt16 :: "byte \<Rightarrow> byte \<Rightarrow> int16" where
  "getInt16 lo hi = push_bit 8 (ucast hi) OR ucast lo"

definition scaled_sample :: "real \<Rightarrow> real" where
  \<comment> \<open>\<open>s = Math.max(-1, Math.min(1, x)); val = s < 0 ? s * 0x8000 : s * 0x7FFF\<close>\<close>
  "scaled_sample x =
     (let s = max (- 1) (min 1 x) in if s < 0 then s * 32768 else s * 32767)"

fun float32ToInt16PCM :: "real list \<Rightarrow> byte list" where
  "float32ToInt16PCM [] = []"
| "float32ToInt16PCM (x # xs) = setInt16 (ToInt16 (scaled_sample x)) @ float32ToInt16PCM xs"

text \<open>The variant of part_000 fills an \<open>Int16Array\<close> and returns its buffer.\<close>

fun float32ToInt16Array :: "real list \<Rightarrow> int16 list" where
  "float32ToInt16Array [] = []"
| "float32ToInt16Array (x # xs) = ToInt16 (scaled_sample x) # float32ToInt16Array xs"

fun buffer_of :: "int16 list \<Rightarrow> byte list" where
  "buffer_of [] = []"
| "buffer_of (w # ws) = setInt16 w @ buffer_of ws"

definition float32ToInt16PCM_v :: "real list \<Rightarrow> byte list" where
  "float32ToInt16PCM_v float32Data = buffer_of (float32ToInt16Array float32Data)"

fun Int16Array :: "byte list \<Rightarrow> js_error + int16 list" where
  \<comment> \<open>\<open>new Int16Array(buffer)\<close> raises RangeError on an odd byte length\<close>
  "Int16Array [] = Inr []"
| "Int16Array [b] = Inl RangeError"
| "Int16Array (lo # hi # bs) =
     (case Int16Array bs of Inl e \<Rightarrow> Inl e | Inr ws \<Rightarrow> Inr (getInt16 lo hi # ws))"

record AudioBuffer =
  channelData :: "real list"
  sampleRate :: real

definition duration :: "AudioBuffer \<Rightarrow> real" where
  "duration b = real (length (channelData b)) / sampleRate b"

definition decode_sample :: "int16 \<Rightarrow> real" where
  "decode_sample w = real_of_int (sint w) / 32768"

definition pcmToAudioBuffer :: "byte list \<Rightarrow> real \<Rightarrow> js_error + AudioBuffer" where
  \<comment> \<open>called with one channel at both call sites; \<open>createBuffer\<close> refuses a length of 0\<close>
  "pcmToAudioBuffer pcmData rate =
     (case Int16Array pcmData of
        Inl e \<Rightarrow> Inl e
      | Inr dataInt16 \<Rightarrow>
          if length dataInt16 = 0 then Inl NotSupportedError
          else Inr \<lparr>channelData = map decode_sample dataInt16, sampleRate = rate\<rparr>)"

definition INPUT_SAMPLE_RATE :: real where "INPUT_SAMPLE_RATE = 16000"
definition OUTPUT_SAMPLE_RATE :: real where "OUTPUT_SAMPLE_RATE = 24000"
definition BUFFER_SIZE :: nat where "BUFFER_SIZE = 4096"


section \<open>Session data shared by both variants of the service\<close>

text \<open>
  The repository holds two variants of the class \<open>LiveService\<close>: the one of
  src/services/liveService.ts, which captures audio with a script processor and keeps the
  promise of the session, and the one in the second part of src/App.tsx, which captures
  with an audio worklet, accumulates frames in a buffer of \<open>BUFFER_SIZE\<close> samples and
  keeps the session itself. Definitions of the first keep the source's names; those of the
  second carry the suffix \<open>_wl\<close>.

  A service is a record of its fields. A handle (\<open>AudioContext\<close>, \<open>MediaStream\<close>, node,
  session, promise of a session) is modelled by whether the field holds one. The state of
  a context is not modelled: the test \<open>state !== 'closed'\<close> of liveService.ts is taken to
  hold of a context that is held, and an awaited \<open>close\<close> is taken to succeed. The record also
  holds what the presentation layer keeps from the callbacks (connection state, log, last
  volume; the timestamp of a log entry is left out) and the calls made on the external
  collaborators: the arguments of every \<open>sendRealtimeInput\<close> and \<open>sendToolResponse\<close>, every
  source started on the output context, every handle released, every console line (its
  level and its leading text).
  \<open>outcomes\<close> is the transport's answer to the sends still to come, in order: it accepts a
  send or throws an error with an optional message; past the end of the list it accepts.
\<close>

datatype ConnectionState = DISCONNECTED | CONNECTING | CONNECTED | ERROR

datatype log_type = User | Agent | Tool | System

type_synonym LogEntry = "log_type \<times> string"

datatype js_value = Undefined | Str string | Other string
  \<comment> \<open>\<open>Other r\<close>: a value that is neither undefined nor a string, \<open>r\<close> its rendering in a template\<close>

datatype call_args = NoArgs | Args js_value
  \<comment> \<open>\<open>fc.args\<close> is undefined, or an object whose \<open>query\<close> property is the value\<close>

record FunctionCall =
  fc_id :: string
  fc_name :: string
  fc_args :: call_args

datatype tool_result = EmptyObject | MOCK_FINANCIAL_PROFILE | SearchText string

record FunctionResponse =
  resp_id :: string
  resp_name :: string
  resp_result :: tool_result

datatype audio_data = NoAudio | Malformed | Undecodable | Inline "byte list"
  \<comment> \<open>\<open>message.serverContent?.modelTurn?.parts[0]?.inlineData?.data\<close>: undefined or the
      empty text; the expression itself throws (a turn without \<open>parts\<close>); a text that
      \<open>atob\<close> rejects; a text that decodes to the bytes\<close>

record LiveServerMessage =
  toolCall :: "FunctionCall list option"
  audioData :: audio_data

datatype send_outcome = Accepted | Throws "string option"

datatype resource = ProcessorNode | WorkletNode | SourceNode | MediaTracks | InputContext | OutputContext

datatype console_level = ConsoleLog | ConsoleWarn | ConsoleError

record live_service =
  isConnected :: bool
  inputAudioContext :: bool
  outputAudioContext :: bool
  mediaStream :: bool
  source :: bool
  nextStartTime :: real
  connectionState :: ConnectionState
  logs :: "LogEntry list"
  volume :: real
  realtimeInputs :: "(string \<times> byte list) list"
  toolResponses :: "FunctionResponse list"
  started :: "(real \<times> AudioBuffer) list"
  released :: "resource list"
  console :: "(console_level \<times> string) list"
  outcomes :: "send_outcome list"

definition dq :: string where
  "dq = [CHR 0x22]"

definition str_includes :: "string \<Rightarrow> string \<Rightarrow> bool" where
  "str_includes s part = sublist part s"

definition toLowerCase_char :: "char \<Rightarrow> char" where
  "toLowerCase_char c =
     (let n = (of_char c :: nat) in if 65 \<le> n \<and> n \<le> 90 then char_of (n + 32) else c)"

definition toLowerCase :: "string \<Rightarrow> string" where
  \<comment> \<open>on ASCII text; characters beyond ASCII are left as they are\<close>
  "toLowerCase s = map toLowerCase_char s"

definition display :: "js_value \<Rightarrow> string" where
  \<comment> \<open>the text a template literal puts for the value\<close>
  "display v = (case v of Undefined \<Rightarrow> ''undefined'' | Str t \<Rightarrow> t | Other r \<Rightarrow> r)"

definition onLog :: "log_type \<Rightarrow> string \<Rightarrow> 'a live_service_scheme \<Rightarrow> 'a live_service_scheme" where
  \<comment> \<open>\<open>addLog\<close> of the App: \<open>setLogs(prev => [...prev, log])\<close>\<close>
  "onLog t m s = s\<lparr>logs := logs s @ [(t, m)]\<rparr>"

definition onStatusChange :: "bool \<Rightarrow> 'a live_service_scheme \<Rightarrow> 'a live_service_scheme" where
  "onStatusChange c s = s\<lparr>connectionState := (if c then CONNECTED else DISCONNECTED)\<rparr>"

definition onVolume :: "real \<Rightarrow> 'a live_service_scheme \<Rightarrow> 'a live_service_scheme" where
  "onVolume v s = s\<lparr>volume := v\<rparr>"

definition console_line :: "console_level \<Rightarrow> string \<Rightarrow> 'a live_service_scheme \<Rightarrow> 'a live_service_scheme" where
  "console_line l m s = s\<lparr>console := console s @ [(l, m)]\<rparr>"

definition release :: "resource \<Rightarrow> 'a live_service_scheme \<Rightarrow> 'a live_service_scheme" where
  "release r s = s\<lparr>released := released s @ [r]\<rparr>"

definition next_outcome :: "'a live_service_scheme \<Rightarrow> send_outcome" where
  "next_outcome s = (case outcomes s of [] \<Rightarrow> Accepted | out # _ \<Rightarrow> out)"

definition sendRealtimeInput :: "byte list \<Rightarrow> 'a live_service_scheme \<Rightarrow> 'a live_service_scheme" where
  \<comment> \<open>the call itself; whether it throws is \<open>next_outcome\<close> of the state before\<close>
  "sendRealtimeInput pcm16 s =
     s\<lparr>realtimeInputs := realtimeInputs s @ [(''audio/pcm;rate=16000'', pcm16)],
       outcomes := tl (outcomes s)\<rparr>"

definition sendToolResponse :: "FunctionCall \<Rightarrow> tool_result \<Rightarrow> 'a live_service_scheme \<Rightarrow> 'a live_service_scheme" where
  "sendToolResponse fc result s =
     s\<lparr>toolResponses := toolResponses s @
          [\<lparr>resp_id = fc_id fc, resp_name = fc_name fc, resp_result = result\<rparr>],
       outcomes := tl (outcomes s)\<rparr>"

subsection \<open>Playback scheduling: the second half of \<open>handleMessage\<close>, the same in both variants\<close>

definition handleAudioResponse ::
    "audio_data \<Rightarrow> real \<Rightarrow> 'a live_service_scheme \<Rightarrow> js_error + 'a live_service_scheme" where
  \<comment> \<open>\<open>currentTime\<close> is the reading of the output context's clock when the code runs\<close>
  "handleAudioResponse audio currentTime s =
     (case audio of
        NoAudio \<Rightarrow> Inr s
      | Malformed \<Rightarrow> Inl TypeError
      | Undecodable \<Rightarrow> if \<not> outputAudioContext s then Inr s else Inl InvalidCharacterError
      | Inline pcmBytes \<Rightarrow>
          if \<not> outputAudioContext s then Inr s
          else (case pcmToAudioBuffer pcmBytes OUTPUT_SAMPLE_RATE of
                  Inl e \<Rightarrow> Inl e
                | Inr audioBuffer \<Rightarrow>
                    let t = max currentTime (nextStartTime s)
                    in Inr (s\<lparr>nextStartTime := t + duration audioBuffer,
                              started := started s @ [(t, audioBuffer)]\<rparr>)))"

definition catch_processing :: "'a live_service_scheme \<Rightarrow> js_error + 'a live_service_scheme \<Rightarrow> 'a live_service_scheme" where
  \<comment> \<open>\<open>catch (e) { console.error("Error processing message:", e) }\<close>: \<open>s\<close> is the state at the throw\<close>
  "catch_processing s r =
     (case r of Inl e \<Rightarrow> console_line ConsoleError ''Error processing message:'' s | Inr s' \<Rightarrow> s')"


section \<open>The service of src/services/liveService.ts\<close>

text \<open>
  An \<open>async\<close> method runs until its first \<open>await\<close>; what remains of it is a task the
  event loop resumes later, and a callback given to \<open>sessionPromise.then\<close> is a task that
  runs once the promise is fulfilled. The tasks not yet run are the field \<open>pending\<close>.
  Which task runs next, and when, is the choice of the event loop and of the environment
  (\<open>EvRun\<close> below). The stretches of \<open>connect\<close> after its first await are events of
  their own, for their resumption depends on the outcome of the awaited call.
\<close>

datatype task =
    ThenAudio "byte list"
  | ThenTool FunctionCall tool_result
  | AwaitSearch FunctionCall js_value "FunctionCall list" audio_data
  | AwaitInputClose
  | AwaitOutputClose
  | AwaitSession

record LiveService = live_service +
  processor :: bool
  sessionPromise :: bool
  pending :: "task list"

definition new_LiveService :: "send_outcome list \<Rightarrow> LiveService" where
  "new_LiveService outs =
     \<lparr>isConnected = False, inputAudioContext = False, outputAudioContext = False,
      mediaStream = False, source = False, nextStartTime = 0,
      connectionState = DISCONNECTED, logs = [], volume = 0,
      realtimeInputs = [], toolResponses = [], started = [], released = [], console = [],
      outcomes = outs,
      processor = False, sessionPromise = False, pending = []\<rparr>"

definition suspend :: "task \<Rightarrow> LiveService \<Rightarrow> LiveService" where
  "suspend t s = s\<lparr>pending := pending s @ [t]\<rparr>"

definition mockGoogleSearch :: "js_value \<Rightarrow> js_error + string" where
  \<comment> \<open>the part after the delay; \<open>query.toLowerCase()\<close> throws unless \<open>query\<close> is a string\<close>
  "mockGoogleSearch query =
     (case query of
        Str q \<Rightarrow>
          (let queryLower = toLowerCase q in
           if str_includes queryLower ''mortgage'' \<or> str_includes queryLower ''rate'' then
             Inr ''Current 30-year fixed mortgage rates are around 7.2%. Fed interest rates are held steady at 5.25-5.50%.''
           else if str_includes queryLower ''stock'' \<or> str_includes queryLower ''market'' then
             Inr ''The S&P 500 is up 0.5% today. Tech stocks are leading the rally.''
           else
             Inr (''Search results for '' @ dq @ q @ dq @
                  '': Recent financial news indicates stability in this sector. Consult specific trusted financial news outlets for real-time trading data.''))
      | _ \<Rightarrow> Inl TypeError)"

subsection \<open>\<open>disconnect\<close>, by the stretches between its awaits\<close>

definition disconnect_end :: "LiveService \<Rightarrow> LiveService" where
  "disconnect_end s =
     (let s1 = s\<lparr>isConnected := False\<rparr>;
          s2 = onStatusChange False s1;
          s3 = onLog System ''Disconnected.'' s2
      in s3\<lparr>sessionPromise := False\<rparr>)"

definition disconnect_session :: "LiveService \<Rightarrow> LiveService" where
  "disconnect_session s = (if sessionPromise s then suspend AwaitSession s else disconnect_end s)"

definition disconnect_output :: "LiveService \<Rightarrow> LiveService" where
  "disconnect_output s =
     (if outputAudioContext s then suspend AwaitOutputClose (release OutputContext s)
      else disconnect_session s)"

definition disconnect :: "LiveService \<Rightarrow> LiveService" where
  "disconnect s =
     (if \<not> isConnected s \<and> \<not> sessionPromise s then s
      else
        let s1 = (if processor s then release ProcessorNode (s\<lparr>processor := False\<rparr>) else s);
            s2 = (if source s1 then release SourceNode (s1\<lparr>source := False\<rparr>) else s1);
            s3 = (if mediaStream s2 then release MediaTracks (s2\<lparr>mediaStream := False\<rparr>) else s2)
        in if inputAudioContext s3 then suspend AwaitInputClose (release InputContext s3)
           else disconnect_output s3)"

subsection \<open>\<open>connect\<close>, by the stretches between its awaits, and the session callbacks\<close>

definition connect :: "LiveService \<Rightarrow> LiveService" where
  \<comment> \<open>up to \<open>await navigator.mediaDevices.getUserMedia\<close>\<close>
  "connect s =
     (if isConnected s then s
      else (onLog System ''Initializing audio context...'' s)\<lparr>inputAudioContext := True\<rparr>)"

definition connect_gotUserMedia :: "LiveService \<Rightarrow> LiveService" where
  \<comment> \<open>from the stream being granted up to \<open>await this.sessionPromise\<close>\<close>
  "connect_gotUserMedia s =
     (let s1 = s\<lparr>mediaStream := True, outputAudioContext := True\<rparr>;
          s2 = onLog System ''Connecting to Gemini Live API...'' s1
      in s2\<lparr>sessionPromise := True\<rparr>)"

definition connect_failed :: "string option \<Rightarrow> LiveService \<Rightarrow> LiveService" where
  \<comment> \<open>the \<open>catch\<close> of \<open>connect\<close>, given \<open>error.message\<close>\<close>
  "connect_failed message s =
     (let s1 = console_line ConsoleError ''Connection failed:'' s;
          msg = (case message of None \<Rightarrow> ''Unknown connection error''
                 | Some m \<Rightarrow> if m = [] then ''Unknown connection error'' else m);
          msg' = (if str_includes msg ''Network''
                  then ''Network Error: Check API Key and Internet Connection.'' else msg);
          s2 = onLog System (''Connection failed: '' @ msg') s1
      in disconnect s2)"

definition startAudioStreaming :: "LiveService \<Rightarrow> LiveService" where
  "startAudioStreaming s =
     (if \<not> inputAudioContext s \<or> \<not> mediaStream s \<or> \<not> sessionPromise s then s
      else s\<lparr>source := True, processor := True\<rparr>)"

definition handleOpen :: "LiveService \<Rightarrow> LiveService" where
  "handleOpen s =
     (let s1 = s\<lparr>isConnected := True\<rparr>;
          s2 = onStatusChange True s1;
          s3 = onLog System ''Coach is ready. Listening...'' s2
      in startAudioStreaming s3)"

definition handleClose :: "LiveService \<Rightarrow> LiveService" where
  "handleClose s = disconnect (onLog System ''Session ended.'' s)"

definition handleError :: "string option \<Rightarrow> string \<Rightarrow> LiveService \<Rightarrow> LiveService" where
  \<comment> \<open>given \<open>e.message\<close> of an \<open>ErrorEvent\<close> (none for another value) and \<open>e.toString()\<close>\<close>
  "handleError message rendering s =
     (let errorMessage = (case message of None \<Rightarrow> rendering
                          | Some m \<Rightarrow> if m = [] then rendering else m);
          s1 = onLog System (''API Error: '' @ errorMessage) s;
          s2 = console_line ConsoleError rendering s1
      in disconnect s2)"

subsection \<open>Capture: the \<open>onaudioprocess\<close> handler\<close>

fun sumSquares :: "real list \<Rightarrow> real \<Rightarrow> real" where
  \<comment> \<open>\<open>for (i = 0; i < inputData.length; i++) sum += inputData[i] * inputData[i]\<close>\<close>
  "sumSquares [] acc = acc"
| "sumSquares (x # xs) acc = sumSquares xs (acc + x * x)"

definition onaudioprocess :: "real list \<Rightarrow> LiveService \<Rightarrow> LiveService" where
  \<comment> \<open>the frames of the script processor hold 4096 samples; on an empty frame the source
      divides zero by zero\<close>
  "onaudioprocess inputData s =
     (if \<not> isConnected s then s
      else
        let sumsq = sumSquares inputData 0;
            rms = sqrt (sumsq / real (length inputData));
            s1 = onVolume (rms * 100) s;
            pcm16 = float32ToInt16PCM inputData
        in if sessionPromise s1 then suspend (ThenAudio pcm16) s1 else s1)"

subsection \<open>Inbound messages\<close>

definition resolve :: "FunctionCall \<Rightarrow> js_error + tool_result" where
  \<comment> \<open>what the loop body binds to \<open>result\<close> for a call, or the error its handler throws\<close>
  "resolve fc =
     (if fc_name fc = ''get_financial_profile'' then Inr MOCK_FINANCIAL_PROFILE
      else if fc_name fc = ''google_search'' then
        (case fc_args fc of
           NoArgs \<Rightarrow> Inl TypeError
         | Args query \<Rightarrow>
             (case mockGoogleSearch query of Inl e \<Rightarrow> Inl e | Inr text \<Rightarrow> Inr (SearchText text)))
      else Inr EmptyObject)"

definition sendResponseBack :: "FunctionCall \<Rightarrow> tool_result \<Rightarrow> LiveService \<Rightarrow> LiveService" where
  \<comment> \<open>\<open>this.sessionPromise?.then(...)\<close>: the callback is registered, not yet run\<close>
  "sendResponseBack fc result s = (if sessionPromise s then suspend (ThenTool fc result) s else s)"

fun toolCallLoop :: "FunctionCall list \<Rightarrow> audio_data \<Rightarrow> real \<Rightarrow> LiveService \<Rightarrow> LiveService" where
  "toolCallLoop [] audio currentTime s = catch_processing s (handleAudioResponse audio currentTime s)"
| "toolCallLoop (fc # fcs) audio currentTime s =
     (if fc_name fc = ''get_financial_profile'' then
        let s1 = onLog Tool ''Accessing secure financial profile...'' s;
            s2 = onLog Tool (''Retrieved data for: '' @ ''Alex Chen'') s1
        in toolCallLoop fcs audio currentTime (sendResponseBack fc MOCK_FINANCIAL_PROFILE s2)
      else if fc_name fc = ''google_search'' then
        (case fc_args fc of
           NoArgs \<Rightarrow> console_line ConsoleError ''Error processing message:'' s
         | Args query \<Rightarrow>
             suspend (AwaitSearch fc query fcs audio)
               (onLog Tool (''Searching market info: '' @ dq @ display query @ dq) s))
      else toolCallLoop fcs audio currentTime (sendResponseBack fc EmptyObject s))"

definition handleMessage :: "LiveServerMessage \<Rightarrow> real \<Rightarrow> LiveService \<Rightarrow> LiveService" where
  "handleMessage message currentTime s =
     (if \<not> isConnected s then s
      else (case toolCall message of
              None \<Rightarrow> toolCallLoop [] (audioData message) currentTime s
            | Some functionCalls \<Rightarrow>
                toolCallLoop functionCalls (audioData message) currentTime
                  (onLog System ''Coach requesting data...'' s)))"

definition run_task :: "task \<Rightarrow> real \<Rightarrow> LiveService \<Rightarrow> LiveService" where
  \<comment> \<open>an error thrown by the send in \<open>ThenAudio\<close> is swallowed by \<open>.catch\<close>; one thrown in
      \<open>ThenTool\<close> rejects a promise nobody reads\<close>
  "run_task t currentTime s =
     (case t of
        ThenAudio pcm16 \<Rightarrow> if isConnected s then sendRealtimeInput pcm16 s else s
      | ThenTool fc result \<Rightarrow> if isConnected s then sendToolResponse fc result s else s
      | AwaitSearch fc query fcs audio \<Rightarrow>
          (case mockGoogleSearch query of
             Inl e \<Rightarrow> console_line ConsoleError ''Error processing message:'' s
           | Inr text \<Rightarrow>
               let s1 = onLog Tool ''Found search results.'' s
               in toolCallLoop fcs audio currentTime (sendResponseBack fc (SearchText text) s1))
      | AwaitInputClose \<Rightarrow> disconnect_output (s\<lparr>inputAudioContext := False\<rparr>)
      | AwaitOutputClose \<Rightarrow> disconnect_session (s\<lparr>outputAudioContext := False\<rparr>)
      | AwaitSession \<Rightarrow> disconnect_end s)"

subsection \<open>The presentation layer's toggle (first part of src/App.tsx) and the events\<close>

definition handleConnectToggle :: "bool \<Rightarrow> LiveService \<Rightarrow> LiveService" where
  "handleConnectToggle hasApiKey s =
     (if \<not> hasApiKey then onLog System ''Cannot connect: API Key is missing.'' s
      else if connectionState s = DISCONNECTED then connect (s\<lparr>connectionState := CONNECTING\<rparr>)
      else disconnect s)"

definition disabled :: "bool \<Rightarrow> 'a live_service_scheme \<Rightarrow> bool" where
  \<comment> \<open>the button's \<open>disabled={connectionState === ConnectionState.CONNECTING || !hasApiKey}\<close>\<close>
  "disabled hasApiKey s = (connectionState s = CONNECTING \<or> \<not> hasApiKey)"

definition onClick :: "bool \<Rightarrow> LiveService \<Rightarrow> LiveService" where
  \<comment> \<open>a press of the button, whose \<open>onClick\<close> is the toggle: a disabled button calls nothing\<close>
  "onClick hasApiKey s = (if disabled hasApiKey s then s else handleConnectToggle hasApiKey s)"

datatype event =
    EvConnect
  | EvGotUserMedia
  | EvConnectFailed "string option"
  | EvDisconnect
  | EvOpen
  | EvMessage LiveServerMessage real
  | EvClose
  | EvError "string option" string
  | EvAudioProcess "real list"
  | EvRun nat real

definition step :: "event \<Rightarrow> LiveService \<Rightarrow> LiveService" where
  \<comment> \<open>\<open>EvRun n t\<close>: the event loop runs the \<open>n\<close>-th pending task, the output clock reading \<open>t\<close>\<close>
  "step e s =
     (case e of
        EvConnect \<Rightarrow> connect s
      | EvGotUserMedia \<Rightarrow> connect_gotUserMedia s
      | EvConnectFailed message \<Rightarrow> connect_failed message s
      | EvDisconnect \<Rightarrow> disconnect s
      | EvOpen \<Rightarrow> handleOpen s
      | EvMessage message currentTime \<Rightarrow> handleMessage message currentTime s
      | EvClose \<Rightarrow> handleClose s
      | EvError message rendering \<Rightarrow> handleError message rendering s
      | EvAudioProcess inputData \<Rightarrow> onaudioprocess inputData s
      | EvRun n currentTime \<Rightarrow>
          if n < length (pending s)
          then run_task (pending s ! n) currentTime
                 (s\<lparr>pending := take n (pending s) @ drop (Suc n) (pending s)\<rparr>)
          else s)"

fun run :: "event list \<Rightarrow> LiveService \<Rightarrow> LiveService" where
  "run [] s = s"
| "run (e # es) s = run es (step e s)"


section \<open>The worklet variant of the service (second part of src/App.tsx)\<close>

datatype task_wl =
    AwaitSearch_wl FunctionCall js_value "FunctionCall list" audio_data
  | AwaitInputClose_wl
  | AwaitOutputClose_wl

record LiveService_wl = live_service +
  workletNode :: bool
  audioBuffer :: "real list"
  audioBufferIdx :: nat
  currentSession :: bool
  pending_wl :: "task_wl list"

definition new_LiveService_wl :: "send_outcome list \<Rightarrow> LiveService_wl" where
  "new_LiveService_wl outs =
     \<lparr>isConnected = False, inputAudioContext = False, outputAudioContext = False,
      mediaStream = False, source = False, nextStartTime = 0,
      connectionState = DISCONNECTED, logs = [], volume = 0,
      realtimeInputs = [], toolResponses = [], started = [], released = [], console = [],
      outcomes = outs,
      workletNode = False, audioBuffer = replicate BUFFER_SIZE 0, audioBufferIdx = 0,
      currentSession = False, pending_wl = []\<rparr>"

definition suspend_wl :: "task_wl \<Rightarrow> LiveService_wl \<Rightarrow> LiveService_wl" where
  "suspend_wl t s = s\<lparr>pending_wl := pending_wl s @ [t]\<rparr>"

definition mockGoogleSearch_wl :: "js_value \<Rightarrow> string" where
  "mockGoogleSearch_wl query =
     ''Search results for '' @ dq @ display query @ dq @ '': Recent financial data indicates stability.''"

subsection \<open>\<open>disconnect\<close>, by the stretches between its awaits\<close>

definition disconnect_end_wl :: "LiveService_wl \<Rightarrow> LiveService_wl" where
  "disconnect_end_wl s =
     onLog System ''Disconnected.'' (s\<lparr>inputAudioContext := False, outputAudioContext := False\<rparr>)"

definition disconnect_output_wl :: "LiveService_wl \<Rightarrow> LiveService_wl" where
  "disconnect_output_wl s =
     (if outputAudioContext s then suspend_wl AwaitOutputClose_wl (release OutputContext s)
      else disconnect_end_wl s)"

definition disconnect_wl :: "LiveService_wl \<Rightarrow> LiveService_wl" where
  "disconnect_wl s =
     (let s0 = s\<lparr>isConnected := False, currentSession := False\<rparr>;
          s1 = onStatusChange False s0;
          s2 = (if workletNode s1 then release WorkletNode (s1\<lparr>workletNode := False\<rparr>) else s1);
          s3 = (if source s2 then release SourceNode (s2\<lparr>source := False\<rparr>) else s2);
          s4 = (if mediaStream s3 then release MediaTracks (s3\<lparr>mediaStream := False\<rparr>) else s3)
      in if inputAudioContext s4 then suspend_wl AwaitInputClose_wl (release InputContext s4)
         else disconnect_output_wl s4)"

subsection \<open>\<open>connect\<close>, by the stretches between its awaits, and the session callbacks\<close>

definition connect_wl :: "LiveService_wl \<Rightarrow> LiveService_wl" where
  \<comment> \<open>up to the awaits that end with \<open>getUserMedia\<close>\<close>
  "connect_wl s =
     (if isConnected s then s
      else
        let s1 = onStatusChange True (s\<lparr>isConnected := True\<rparr>);
            s2 = onLog System ''Initializing audio context...'' s1
        in s2\<lparr>inputAudioContext := True, outputAudioContext := True\<rparr>)"

definition connect_gotUserMedia_wl :: "LiveService_wl \<Rightarrow> LiveService_wl" where
  \<comment> \<open>from the stream being granted up to \<open>await this.client.live.connect\<close>\<close>
  "connect_gotUserMedia_wl s =
     onLog System ''Connecting to Gemini Live API...'' (s\<lparr>mediaStream := True\<rparr>)"

definition startAudioStreaming_wl :: "LiveService_wl \<Rightarrow> LiveService_wl" where
  "startAudioStreaming_wl s =
     (if \<not> inputAudioContext s \<or> \<not> mediaStream s then s
      else s\<lparr>source := True, workletNode := True\<rparr>)"

definition connect_adopt_wl :: "LiveService_wl \<Rightarrow> LiveService_wl" where
  \<comment> \<open>after the session has been obtained\<close>
  "connect_adopt_wl s =
     (if \<not> isConnected s
      then console_line ConsoleLog ''Disconnected while connecting. Closing session immediately.'' s
      else startAudioStreaming_wl (s\<lparr>currentSession := True\<rparr>))"

definition handleConnectionError :: "string option \<Rightarrow> LiveService_wl \<Rightarrow> LiveService_wl" where
  "handleConnectionError message s =
     (let s1 = console_line ConsoleError ''Connection failed:'' s;
          msg0 = (case message of None \<Rightarrow> ''Unknown error''
                  | Some m \<Rightarrow> if m = [] then ''Unknown error'' else m);
          msg1 = (if str_includes msg0 ''403'' \<or> str_includes msg0 ''API key''
                  then ''Invalid API Key or unauthorized.'' else msg0);
          msg2 = (if str_includes msg1 ''404'' then ''Model not found. Check model name.'' else msg1);
          msg3 = (if str_includes msg2 ''Network Error'' \<or> str_includes msg2 ''Failed to fetch''
                  then ''Network Error: Check internet connection or firewall.'' else msg2);
          s2 = onLog System (''Connection failed: '' @ msg3) s1
      in disconnect_wl s2)"

definition handleOpen_wl :: "LiveService_wl \<Rightarrow> LiveService_wl" where
  "handleOpen_wl s = onLog System ''Coach is ready. Listening...'' s"

definition handleClose_wl :: "string \<Rightarrow> LiveService_wl \<Rightarrow> LiveService_wl" where
  \<comment> \<open>given the text of \<open>e.code\<close>\<close>
  "handleClose_wl code s = disconnect_wl (onLog System (''Session ended. Code: '' @ code) s)"

definition handleError_wl :: "LiveService_wl \<Rightarrow> LiveService_wl" where
  "handleError_wl s =
     disconnect_wl (console_line ConsoleError [] (onLog System ''API Error encountered.'' s))"

subsection \<open>Capture: the accumulation buffer\<close>

function sumStride :: "nat \<Rightarrow> real list \<Rightarrow> real \<Rightarrow> real" where
  \<comment> \<open>\<open>for (i = 0; i < float32Data.length; i += 4) sum += float32Data[i] * float32Data[i]\<close>\<close>
  "sumStride i float32Data acc =
     (if i < length float32Data
      then sumStride (i + 4) float32Data (acc + float32Data ! i * float32Data ! i)
      else acc)"
  by pat_completeness auto
termination
  by (relation "measure (\<lambda>(i, float32Data, acc). length float32Data - i)") auto

definition closing :: "string option \<Rightarrow> bool" where
  \<comment> \<open>\<open>e.message && (e.message.includes("closed") || e.message.includes("CLOSING"))\<close>\<close>
  "closing message =
     (case message of None \<Rightarrow> False
      | Some m \<Rightarrow> m \<noteq> [] \<and> (str_includes m ''closed'' \<or> str_includes m ''CLOSING''))"

definition sendAudioChunk :: "real list \<Rightarrow> LiveService_wl \<Rightarrow> LiveService_wl" where
  "sendAudioChunk float32Data s =
     (if \<not> isConnected s \<or> \<not> currentSession s then s
      else
        let sumsq = sumStride 0 float32Data 0;
            rms = sqrt (sumsq / (real (length float32Data) / 4));
            s1 = onVolume (rms * 100) s;
            pcm16 = float32ToInt16PCM float32Data;
            answer = next_outcome s1;
            s2 = sendRealtimeInput pcm16 s1
        in case answer of
             Accepted \<Rightarrow> s2
           | Throws message \<Rightarrow>
               if closing message then disconnect_wl s2
               else console_line ConsoleWarn ''Send error:'' s2)"

definition Float32Array_set :: "real list \<Rightarrow> real list \<Rightarrow> nat \<Rightarrow> real list" where
  \<comment> \<open>\<open>target.set(part, offset)\<close>, for a part that fits\<close>
  "Float32Array_set target part offset =
     take offset target @ part @ drop (offset + length part) target"

text \<open>
  The loop of \<open>processInputAudio\<close>. The buffer is a typed array created with
  \<open>BUFFER_SIZE\<close> elements and never replaced, so its length is that constant. The index
  stays below it between calls; were it above, the source's \<open>set\<close> would raise where the
  subtraction here stops at 0.
\<close>

function copyLoop :: "nat \<Rightarrow> real list \<Rightarrow> LiveService_wl \<Rightarrow> LiveService_wl" where
  "copyLoop chunkIdx chunk s =
     (if chunkIdx < length chunk then
        let space = BUFFER_SIZE - audioBufferIdx s;
            copyLen = min space (length chunk - chunkIdx);
            s1 = s\<lparr>audioBuffer :=
                     Float32Array_set (audioBuffer s) (take copyLen (drop chunkIdx chunk)) (audioBufferIdx s),
                   audioBufferIdx := audioBufferIdx s + copyLen\<rparr>;
            s2 = (if audioBufferIdx s1 \<ge> BUFFER_SIZE
                  then (sendAudioChunk (audioBuffer s1) s1)\<lparr>audioBufferIdx := 0\<rparr>
                  else s1)
        in copyLoop (chunkIdx + copyLen) chunk s2
      else s)"
  by pat_completeness auto
termination
  by (relation "measures [\<lambda>(chunkIdx, chunk, s). length chunk - chunkIdx,
                          \<lambda>(chunkIdx, chunk, s). if audioBufferIdx s \<ge> BUFFER_SIZE then 1 else 0]")
     (auto simp: BUFFER_SIZE_def min_def)

definition processInputAudio :: "real list \<Rightarrow> LiveService_wl \<Rightarrow> LiveService_wl" where
  "processInputAudio chunk s = (if \<not> isConnected s then s else copyLoop 0 chunk s)"

definition onmessage_wl :: "real list \<Rightarrow> LiveService_wl \<Rightarrow> LiveService_wl" where
  \<comment> \<open>the handler of the worklet's port\<close>
  "onmessage_wl chunk s = (if \<not> isConnected s then s else processInputAudio chunk s)"

subsection \<open>Inbound messages\<close>

definition resolve_wl :: "FunctionCall \<Rightarrow> js_error + tool_result" where
  \<comment> \<open>what the loop body binds to \<open>result\<close> for a call, or the error its handler throws\<close>
  "resolve_wl fc =
     (if fc_name fc = ''get_financial_profile'' then Inr MOCK_FINANCIAL_PROFILE
      else if fc_name fc = ''google_search'' then
        (case fc_args fc of
           NoArgs \<Rightarrow> Inl TypeError
         | Args query \<Rightarrow> Inr (SearchText (mockGoogleSearch_wl query)))
      else Inr EmptyObject)"

definition respond_wl :: "FunctionCall \<Rightarrow> tool_result \<Rightarrow> LiveService_wl \<Rightarrow> LiveService_wl" where
  "respond_wl fc result s =
     (if isConnected s \<and> currentSession s then
        (let answer = next_outcome s;
             s1 = sendToolResponse fc result s
         in case answer of
              Accepted \<Rightarrow> s1
            | Throws message \<Rightarrow> console_line ConsoleLog ''Failed to send tool response'' s1)
      else s)"

fun toolCallLoop_wl :: "FunctionCall list \<Rightarrow> audio_data \<Rightarrow> real \<Rightarrow> LiveService_wl \<Rightarrow> LiveService_wl" where
  "toolCallLoop_wl [] audio currentTime s = catch_processing s (handleAudioResponse audio currentTime s)"
| "toolCallLoop_wl (fc # fcs) audio currentTime s =
     (if fc_name fc = ''get_financial_profile'' then
        let s1 = onLog Tool (''Read data: '' @ ''Alex Chen'') s
        in toolCallLoop_wl fcs audio currentTime (respond_wl fc MOCK_FINANCIAL_PROFILE s1)
      else if fc_name fc = ''google_search'' then
        (case fc_args fc of
           NoArgs \<Rightarrow> console_line ConsoleError ''Error processing message:'' s
         | Args query \<Rightarrow>
             suspend_wl (AwaitSearch_wl fc query fcs audio)
               (onLog Tool (''Search: '' @ dq @ display query @ dq) s))
      else toolCallLoop_wl fcs audio currentTime (respond_wl fc EmptyObject s))"

definition handleMessage_wl :: "LiveServerMessage \<Rightarrow> real \<Rightarrow> LiveService_wl \<Rightarrow> LiveService_wl" where
  "handleMessage_wl message currentTime s =
     (if \<not> isConnected s then s
      else (case toolCall message of
              None \<Rightarrow> toolCallLoop_wl [] (audioData message) currentTime s
            | Some functionCalls \<Rightarrow> toolCallLoop_wl functionCalls (audioData message) currentTime s))"

definition run_task_wl :: "task_wl \<Rightarrow> real \<Rightarrow> LiveService_wl \<Rightarrow> LiveService_wl" where
  "run_task_wl t currentTime s =
     (case t of
        AwaitSearch_wl fc query fcs audio \<Rightarrow>
          toolCallLoop_wl fcs audio currentTime
            (respond_wl fc (SearchText (mockGoogleSearch_wl query)) s)
      | AwaitInputClose_wl \<Rightarrow> disconnect_output_wl s
      | AwaitOutputClose_wl \<Rightarrow> disconnect_end_wl s)"

subsection \<open>The presentation layer's toggle and the events\<close>

definition handleConnectToggle_wl :: "bool \<Rightarrow> LiveService_wl \<Rightarrow> LiveService_wl" where
  "handleConnectToggle_wl hasApiKey s =
     (if \<not> hasApiKey then onLog System ''Cannot connect: API Key is missing.'' s
      else if connectionState s = DISCONNECTED then connect_wl (s\<lparr>connectionState := CONNECTING\<rparr>)
      else disconnect_wl s)"

datatype event_wl =
    EvConnect_wl
  | EvGotUserMedia_wl
  | EvAdopt_wl
  | EvConnectionError_wl "string option"
  | EvDisconnect_wl
  | EvOpen_wl
  | EvMessage_wl LiveServerMessage real
  | EvClose_wl string
  | EvError_wl
  | EvFrame_wl "real list"
  | EvRun_wl nat real

definition step_wl :: "event_wl \<Rightarrow> LiveService_wl \<Rightarrow> LiveService_wl" where
  \<comment> \<open>the port delivers a frame only while the node with its handler is held\<close>
  "step_wl e s =
     (case e of
        EvConnect_wl \<Rightarrow> connect_wl s
      | EvGotUserMedia_wl \<Rightarrow> connect_gotUserMedia_wl s
      | EvAdopt_wl \<Rightarrow> connect_adopt_wl s
      | EvConnectionError_wl message \<Rightarrow> handleConnectionError message s
      | EvDisconnect_wl \<Rightarrow> disconnect_wl s
      | EvOpen_wl \<Rightarrow> handleOpen_wl s
      | EvMessage_wl message currentTime \<Rightarrow> handleMessage_wl message currentTime s
      | EvClose_wl code \<Rightarrow> handleClose_wl code s
      | EvError_wl \<Rightarrow> handleError_wl s
      | EvFrame_wl chunk \<Rightarrow> if workletNode s then onmessage_wl chunk s else s
      | EvRun_wl n currentTime \<Rightarrow>
          if n < length (pending_wl s)
          then run_task_wl (pending_wl s ! n) currentTime
                 (s\<lparr>pending_wl := take n (pending_wl s) @ drop (Suc n) (pending_wl s)\<rparr>)
          else s)"

fun run_wl :: "event_wl list \<Rightarrow> LiveService_wl \<Rightarrow> LiveService_wl" where
  "run_wl [] s = s"
| "run_wl (e # es) s = run_wl es (step_wl e s)"

section \<open>Notions used to state the properties of tool calls\<close>

text \<open>
  The definitions of this section are not part of the program: they name what the
  statements about tool calls speak of. \<open>answers\<close> is what a batch is to be answered
  with: the responses of its calls, in order, up to the first call whose handler throws
  (\<open>resolve\<close> and \<open>resolve_wl\<close> are the handlers of the two variants). A pending task owes
  the responses it will send when it is run in a connected session, and the events of a
  run deliver the batches whose answers the session then owes. That these notions fit
  the program is what the theorems about tool calls prove.
\<close>

abbreviation response :: "FunctionCall \<Rightarrow> tool_result \<Rightarrow> FunctionResponse" where
  "response fc r \<equiv> \<lparr>resp_id = fc_id fc, resp_name = fc_name fc, resp_result = r\<rparr>"

fun answers :: "(FunctionCall \<Rightarrow> js_error + tool_result) \<Rightarrow> FunctionCall list \<Rightarrow> FunctionResponse list" where
  "answers res [] = []"
| "answers res (fc # fcs) =
     (case res fc of Inl e \<Rightarrow> [] | Inr r \<Rightarrow> response fc r # answers res fcs)"

definition carries_query :: "FunctionCall \<Rightarrow> bool" where
  \<comment> \<open>the call has an arguments object whose \<open>query\<close> is a string\<close>
  "carries_query fc = (case fc_args fc of Args (Str q) \<Rightarrow> True | _ \<Rightarrow> False)"

definition serving :: "LiveService \<Rightarrow> bool" where
  \<comment> \<open>connected: the guard flag is set and the promise of the session is held\<close>
  "serving s = (isConnected s \<and> sessionPromise s)"

definition serving_wl :: "LiveService_wl \<Rightarrow> bool" where
  \<comment> \<open>connected: the guard flag is set and the session is held\<close>
  "serving_wl s = (isConnected s \<and> currentSession s)"

fun stays :: "event list \<Rightarrow> LiveService \<Rightarrow> bool" where
  \<comment> \<open>the session is connected before the run and after each of its events\<close>
  "stays [] s = serving s"
| "stays (e # es) s = (serving s \<and> stays es (step e s))"

fun stays_wl :: "event_wl list \<Rightarrow> LiveService_wl \<Rightarrow> bool" where
  "stays_wl [] s = serving_wl s"
| "stays_wl (e # es) s = (serving_wl s \<and> stays_wl es (step_wl e s))"

fun teardown :: "task \<Rightarrow> bool" where
  \<comment> \<open>the task is a stretch of \<open>disconnect\<close>\<close>
  "teardown AwaitInputClose = True"
| "teardown AwaitOutputClose = True"
| "teardown AwaitSession = True"
| "teardown _ = False"

fun owed_task :: "task \<Rightarrow> FunctionResponse multiset" where
  \<comment> \<open>a registered callback owes its response; a search that is awaited owes its own
      response and the answers of the calls that follow it in its batch\<close>
  "owed_task (ThenTool fc r) = {#response fc r#}"
| "owed_task (AwaitSearch fc query fcs audio) =
     (case mockGoogleSearch query of
        Inl e \<Rightarrow> {#}
      | Inr found \<Rightarrow> {#response fc (SearchText found)#} + mset (answers resolve fcs))"
| "owed_task _ = {#}"

definition owed :: "task list \<Rightarrow> FunctionResponse multiset" where
  "owed p = sum_list (map owed_task p)"

fun owed_task_wl :: "task_wl \<Rightarrow> FunctionResponse multiset" where
  "owed_task_wl (AwaitSearch_wl fc query fcs audio) =
     {#response fc (SearchText (mockGoogleSearch_wl query))#} + mset (answers resolve_wl fcs)"
| "owed_task_wl _ = {#}"

definition owed_wl :: "task_wl list \<Rightarrow> FunctionResponse multiset" where
  "owed_wl p = sum_list (map owed_task_wl p)"

fun received :: "event list \<Rightarrow> FunctionResponse multiset" where
  \<comment> \<open>the answers of the batches that the events deliver\<close>
  "received [] = {#}"
| "received (EvMessage message currentTime # es) =
     (case toolCall message of None \<Rightarrow> {#} | Some calls \<Rightarrow> mset (answers resolve calls)) +
     received es"
| "received (e # es) = received es"

fun received_wl :: "event_wl list \<Rightarrow> FunctionResponse multiset" where
  "received_wl [] = {#}"
| "received_wl (EvMessage_wl message currentTime # es) =
     (case toolCall message of None \<Rightarrow> {#} | Some calls \<Rightarrow> mset (answers resolve_wl calls)) +
     received_wl es"
| "received_wl (e # es) = received_wl es"

fun work_task :: "task \<Rightarrow> nat" where
  \<comment> \<open>a bound on the number of tasks run until the task and what it starts are done\<close>
  "work_task (AwaitSearch fc query fcs audio) = 2 + 2 * length fcs"
| "work_task _ = 1"

definition work :: "task list \<Rightarrow> nat" where
  "work p = sum_list (map work_task p)"

fun work_task_wl :: "task_wl \<Rightarrow> nat" where
  "work_task_wl (AwaitSearch_wl fc query fcs audio) = 1 + length fcs"
| "work_task_wl AwaitInputClose_wl = 2"
| "work_task_wl AwaitOutputClose_wl = 1"

definition work_wl :: "task_wl list \<Rightarrow> nat" where
  "work_wl p = sum_list (map work_task_wl p)"

section \<open>Shared facts about the two services\<close>

declare sumStride.simps [simp del]
declare copyLoop.simps [simp del]

lemma disconnect_wl_eq:
  "disconnect_wl s =
     s\<lparr>isConnected := False, currentSession := False, connectionState := DISCONNECTED,
       workletNode := False, source := False, mediaStream := False,
       released := released s @ (if workletNode s then [WorkletNode] else [])
          @ (if source s then [SourceNode] else []) @ (if mediaStream s then [MediaTracks] else [])
          @ (if inputAudioContext s then [InputContext]
             else if outputAudioContext s then [OutputContext] else []),
       pending_wl := pending_wl s @ (if inputAudioContext s then [AwaitInputClose_wl]
             else if outputAudioContext s then [AwaitOutputClose_wl] else []),
       logs := logs s @ (if inputAudioContext s \<or> outputAudioContext s then []
             else [(System, ''Disconnected.'')])\<rparr>"
  by (cases "workletNode s"; cases "source s"; cases "mediaStream s";
      cases "inputAudioContext s"; cases "outputAudioContext s")
     (simp_all add: disconnect_wl_def disconnect_output_wl_def disconnect_end_wl_def suspend_wl_def
      release_def onStatusChange_def onLog_def Let_def)

lemma connected_example:
  "run [EvConnect, EvGotUserMedia, EvOpen] (new_LiveService outs) =
     (new_LiveService outs)\<lparr>isConnected := True, inputAudioContext := True,
        outputAudioContext := True, mediaStream := True, source := True,
        connectionState := CONNECTED,
        logs := [(System, ''Initializing audio context...''),
                 (System, ''Connecting to Gemini Live API...''),
                 (System, ''Coach is ready. Listening...'')],
        processor := True, sessionPromise := True\<rparr>"
  by (simp add: step_def connect_def connect_gotUserMedia_def handleOpen_def
      startAudioStreaming_def onLog_def onStatusChange_def new_LiveService_def Let_def)

lemma connected_example_wl:
  "run_wl [EvConnect_wl, EvGotUserMedia_wl, EvAdopt_wl] (new_LiveService_wl outs) =
     (new_LiveService_wl outs)\<lparr>isConnected := True, inputAudioContext := True,
        outputAudioContext := True, mediaStream := True, source := True,
        connectionState := CONNECTED,
        logs := [(System, ''Initializing audio context...''),
                 (System, ''Connecting to Gemini Live API...'')],
        workletNode := True, currentSession := True\<rparr>"
  by (simp add: step_wl_def connect_wl_def connect_gotUserMedia_wl_def connect_adopt_wl_def
      startAudioStreaming_wl_def onLog_def onStatusChange_def new_LiveService_wl_def Let_def)


section \<open>Properties of the PCM codec\<close>

lemma getInt16_setInt16: "getInt16 (ucast w) (ucast (drop_bit 8 w)) = w"
  unfolding getInt16_def
  by (rule bit_word_eqI) (auto simp add: bit_simps)

lemma Int16Array_buffer_of: "Int16Array (buffer_of ws) = Inr ws"
  by (induction ws) (simp_all add: setInt16_def getInt16_setInt16)

lemma buffer_of_float32ToInt16Array: "buffer_of (float32ToInt16Array xs) = float32ToInt16PCM xs"
  by (induction xs) simp_all

lemma length_float32ToInt16PCM: "length (float32ToInt16PCM xs) = 2 * length xs"
  by (induction xs) (simp_all add: setInt16_def)

lemma float32ToInt16PCM_append:
  "float32ToInt16PCM (xs @ ys) = float32ToInt16PCM xs @ float32ToInt16PCM ys"
  by (induction xs) simp_all

lemma length_float32ToInt16Array: "length (float32ToInt16Array xs) = length xs"
  by (induction xs) simp_all

lemma float32ToInt16Array_map: "float32ToInt16Array xs = map (\<lambda>x. ToInt16 (scaled_sample x)) xs"
  by (induction xs) simp_all

lemma scaled_sample_bounds: "- 32768 \<le> scaled_sample x \<and> scaled_sample x \<le> 32767"
  by (auto simp: scaled_sample_def Let_def max_def min_def)

lemma js_trunc_bounds:
  assumes "- 32768 \<le> v" "v \<le> 32767"
  shows "- 32768 \<le> js_trunc v \<and> js_trunc v \<le> 32767"
  using assms unfolding js_trunc_def
  by (auto simp: le_floor_iff floor_le_iff ceiling_le_iff le_ceiling_iff)

lemma sint_ToInt16:
  assumes "- 32768 \<le> v" "v \<le> 32767"
  shows "sint (ToInt16 v) = js_trunc v"
proof -
  have "- 32768 \<le> js_trunc v \<and> js_trunc v \<le> 32767"
    using assms by (rule js_trunc_bounds)
  then show ?thesis
    unfolding ToInt16_def by (simp add: sint_sbintrunc' signed_take_bit_int_eq_self)
qed

lemma decode_ToInt16:
  assumes "- 32768 \<le> v" "v \<le> 32767"
  shows "decode_sample (ToInt16 v) = real_of_int (js_trunc v) / 32768"
  unfolding decode_sample_def using sint_ToInt16 [OF assms] by simp

lemma js_trunc_error:
  "(v < 0 \<longrightarrow> v \<le> real_of_int (js_trunc v) \<and> real_of_int (js_trunc v) < v + 1) \<and>
   (0 \<le> v \<longrightarrow> real_of_int (js_trunc v) \<le> v \<and> v - 1 < real_of_int (js_trunc v))"
  unfolding js_trunc_def by (auto; linarith)

lemma roundtrip_error:
  assumes "- 1 \<le> x" "x \<le> 1"
  shows "\<bar>decode_sample (ToInt16 (scaled_sample x)) - x\<bar> < 2 / 32768"
    and "x \<le> 0 \<Longrightarrow> \<bar>decode_sample (ToInt16 (scaled_sample x)) - x\<bar> < 1 / 32768"
proof -
  define v where "v = scaled_sample x"
  define k where "k = real_of_int (js_trunc v)"
  have b: "- 32768 \<le> v" "v \<le> 32767"
    using scaled_sample_bounds [of x] by (simp_all add: v_def)
  have d: "decode_sample (ToInt16 (scaled_sample x)) = k / 32768"
    using decode_ToInt16 [OF b] by (simp add: v_def k_def)
  have e: "(v < 0 \<longrightarrow> v \<le> k \<and> k < v + 1) \<and> (0 \<le> v \<longrightarrow> k \<le> v \<and> v - 1 < k)"
    unfolding k_def by (rule js_trunc_error)
  have neg: "x < 0 \<Longrightarrow> v = x * 32768"
    using assms by (simp add: v_def scaled_sample_def max_def min_def)
  have pos: "0 \<le> x \<Longrightarrow> v = x * 32767"
    using assms by (simp add: v_def scaled_sample_def max_def min_def)
  show "\<bar>decode_sample (ToInt16 (scaled_sample x)) - x\<bar> < 2 / 32768"
  proof (cases "x < 0")
    case True
    with neg e have "x * 32768 \<le> k \<and> k < x * 32768 + 1" by simp
    then show ?thesis unfolding d by (simp add: abs_if field_simps)
  next
    case False
    with pos e have "k \<le> x * 32767 \<and> x * 32767 - 1 < k" by simp
    then show ?thesis unfolding d using assms False by (simp add: abs_if field_simps)
  qed
  show "\<bar>decode_sample (ToInt16 (scaled_sample x)) - x\<bar> < 1 / 32768" if "x \<le> 0"
  proof (cases "x < 0")
    case True
    with neg e have "x * 32768 \<le> k \<and> k < x * 32768 + 1" by simp
    then show ?thesis unfolding d by (simp add: abs_if field_simps)
  next
    case False
    with that have "x = 0" by simp
    then show ?thesis
      by (simp add: decode_sample_def scaled_sample_def ToInt16_def js_trunc_def)
  qed
qed

lemma pcmToAudioBuffer_float32ToInt16PCM:
  assumes "xs \<noteq> []"
  shows "pcmToAudioBuffer (float32ToInt16PCM xs) rate =
           Inr \<lparr>channelData = map (\<lambda>x. decode_sample (ToInt16 (scaled_sample x))) xs,
                sampleRate = rate\<rparr>"
proof -
  have "Int16Array (float32ToInt16PCM xs) = Inr (float32ToInt16Array xs)"
    using Int16Array_buffer_of [of "float32ToInt16Array xs"]
    by (simp add: buffer_of_float32ToInt16Array)
  then show ?thesis
    using assms by (simp add: pcmToAudioBuffer_def float32ToInt16Array_map comp_def)
qed

text \<open>
  C10. \<open>float32ToInt16PCM\<close>, in both variants, is defined on every list of finite samples,
  also on samples outside \<open>[-1, 1]\<close>: a sample is clamped before it is scaled, so a sample
  of 1 or more gives 32767 and one of -1 or less gives -32768; the number handed to the
  16-bit store, truncated, lies in \<open>[-32768, 32767]\<close>, so the store does not wrap and the
  stored value read back is that number; the output holds exactly two bytes per sample.
\<close>

theorem float32ToInt16PCM_total_overflow_safe:
  "length (float32ToInt16PCM xs) = 2 * length xs \<and>
   float32ToInt16PCM_v xs = float32ToInt16PCM xs \<and>
   Int16Array (float32ToInt16PCM xs) = Inr (float32ToInt16Array xs) \<and>
   (\<forall>i < length xs.
      (1 \<le> xs ! i \<longrightarrow> scaled_sample (xs ! i) = 32767) \<and>
      (xs ! i \<le> - 1 \<longrightarrow> scaled_sample (xs ! i) = - 32768) \<and>
      - 32768 \<le> js_trunc (scaled_sample (xs ! i)) \<and>
      js_trunc (scaled_sample (xs ! i)) \<le> 32767 \<and>
      sint (float32ToInt16Array xs ! i) = js_trunc (scaled_sample (xs ! i)))"
proof -
  have arr: "Int16Array (float32ToInt16PCM xs) = Inr (float32ToInt16Array xs)"
    using Int16Array_buffer_of [of "float32ToInt16Array xs"]
    by (simp add: buffer_of_float32ToInt16Array)
  have each: "(1 \<le> x \<longrightarrow> scaled_sample x = 32767) \<and>
      (x \<le> - 1 \<longrightarrow> scaled_sample x = - 32768) \<and>
      - 32768 \<le> js_trunc (scaled_sample x) \<and>
      js_trunc (scaled_sample x) \<le> 32767 \<and>
      sint (ToInt16 (scaled_sample x)) = js_trunc (scaled_sample x)" for x
  proof -
    have b: "- 32768 \<le> scaled_sample x" "scaled_sample x \<le> 32767"
      using scaled_sample_bounds [of x] by simp_all
    have "(1 \<le> x \<longrightarrow> scaled_sample x = 32767) \<and> (x \<le> - 1 \<longrightarrow> scaled_sample x = - 32768)"
      by (auto simp: scaled_sample_def Let_def max_def min_def)
    then show ?thesis
      using js_trunc_bounds [OF b] sint_ToInt16 [OF b] by simp
  qed
  have nth: "float32ToInt16Array xs ! i = ToInt16 (scaled_sample (xs ! i))" if "i < length xs" for i
    using that by (simp add: float32ToInt16Array_map)
  have v: "float32ToInt16PCM_v xs = float32ToInt16PCM xs"
    by (simp add: float32ToInt16PCM_v_def buffer_of_float32ToInt16Array)
  show ?thesis
    using arr each nth v length_float32ToInt16PCM [of xs] by simp
qed

theorem float32ToInt16PCM_total_overflow_safe_witness:
  "length (float32ToInt16PCM [3 / 2, - 2, 1 / 4]) = 6 \<and>
   sint (float32ToInt16Array [3 / 2, - 2, 1 / 4] ! 0) = 32767 \<and>
   sint (float32ToInt16Array [3 / 2, - 2, 1 / 4] ! 1) = - 32768 \<and>
   sint (float32ToInt16Array [3 / 2, - 2, 1 / 4] ! 2) = 8191"
proof -
  let ?xs = "[3 / 2, - 2, 1 / 4] :: real list"
  note t = float32ToInt16PCM_total_overflow_safe [of ?xs]
  have i0: "(0::nat) < length ?xs" and i1: "(1::nat) < length ?xs" and i2: "(2::nat) < length ?xs"
    by simp_all
  from t have len: "length (float32ToInt16PCM ?xs) = 2 * length ?xs" by (rule conjunct1)
  from t i0 have a0: "sint (float32ToInt16Array ?xs ! 0) = js_trunc (scaled_sample (?xs ! 0))"
    by blast
  from t i1 have a1: "sint (float32ToInt16Array ?xs ! 1) = js_trunc (scaled_sample (?xs ! 1))"
    by blast
  from t i2 have a2: "sint (float32ToInt16Array ?xs ! 2) = js_trunc (scaled_sample (?xs ! 2))"
    by blast
  have v0: "js_trunc (scaled_sample (?xs ! 0)) = 32767"
    by (simp add: scaled_sample_def js_trunc_def)
  have v1: "js_trunc (scaled_sample (?xs ! 1)) = - 32768"
    by (simp add: scaled_sample_def js_trunc_def)
  have v2: "js_trunc (scaled_sample (?xs ! 2)) = 8191"
    by (simp add: scaled_sample_def js_trunc_def)
  from len have l: "length (float32ToInt16PCM ?xs) = 6" by (simp only: list.size) simp
  from l a0 a1 a2 v0 v1 v2 show ?thesis by (simp only: simp_thms)
qed

text \<open>
  C3, as stated, fails: the sample \<open>65535 / 65536\<close>, a 32-bit float inside \<open>[-1, 1]\<close>,
  is encoded as 32766 and decoded as \<open>32766 / 32768\<close>, one and a half quantization steps
  below it.
\<close>

theorem pcm_round_trip_counterexample:
  "(- 1 :: real) \<le> 65535 / 65536 \<and> (65535 / 65536 :: real) \<le> 1 \<and>
   pcmToAudioBuffer (float32ToInt16PCM [65535 / 65536]) OUTPUT_SAMPLE_RATE =
     Inr \<lparr>channelData = [32766 / 32768], sampleRate = 24000\<rparr> \<and>
   \<not> \<bar>32766 / 32768 - 65535 / 65536\<bar> \<le> (1 / 32768 :: real)"
  by (simp add: pcmToAudioBuffer_def OUTPUT_SAMPLE_RATE_def scaled_sample_def ToInt16_def
      js_trunc_def setInt16_def getInt16_def decode_sample_def)

text \<open>
  C3, amended. Encoding 1 gives 32767 and encoding -1 gives -32768, without wrap-around;
  and decoding the encoding of a non-empty block of samples in \<open>[-1, 1]\<close> gives, sample by
  sample, a value less than two quantization steps (\<open>2 / 32768\<close>) from the original, and
  less than one step from it when the sample is not positive.
\<close>

theorem pcm_round_trip_within_two_steps:
  assumes "xs \<noteq> []" and "\<forall>x \<in> set xs. - 1 \<le> x \<and> x \<le> 1"
  shows "sint (ToInt16 (scaled_sample 1)) = 32767 \<and>
         sint (ToInt16 (scaled_sample (- 1))) = - 32768 \<and>
         pcmToAudioBuffer (float32ToInt16PCM xs) rate =
           Inr \<lparr>channelData = map (\<lambda>x. decode_sample (ToInt16 (scaled_sample x))) xs,
                sampleRate = rate\<rparr> \<and>
         (\<forall>x \<in> set xs.
            \<bar>decode_sample (ToInt16 (scaled_sample x)) - x\<bar> < 2 / 32768 \<and>
            (x \<le> 0 \<longrightarrow> \<bar>decode_sample (ToInt16 (scaled_sample x)) - x\<bar> < 1 / 32768))"
proof -
  have ends: "sint (ToInt16 (scaled_sample 1)) = 32767 \<and>
              sint (ToInt16 (scaled_sample (- 1))) = - 32768"
    by (simp add: scaled_sample_def ToInt16_def js_trunc_def)
  have near: "\<bar>decode_sample (ToInt16 (scaled_sample x)) - x\<bar> < 2 / 32768 \<and>
      (x \<le> 0 \<longrightarrow> \<bar>decode_sample (ToInt16 (scaled_sample x)) - x\<bar> < 1 / 32768)"
    if "x \<in> set xs" for x
  proof -
    from that assms(2) have "- 1 \<le> x" "x \<le> 1" by auto
    then show ?thesis using roundtrip_error [of x] by blast
  qed
  from ends near pcmToAudioBuffer_float32ToInt16PCM [OF assms(1), of rate]
  show ?thesis by blast
qed

theorem pcm_round_trip_within_two_steps_witness:
  "pcmToAudioBuffer (float32ToInt16PCM [65535 / 65536, - 1 / 2]) 24000 =
     Inr \<lparr>channelData = map (\<lambda>x. decode_sample (ToInt16 (scaled_sample x))) [65535 / 65536, - 1 / 2],
          sampleRate = 24000\<rparr> \<and>
   \<bar>decode_sample (ToInt16 (scaled_sample (65535 / 65536))) - 65535 / 65536\<bar> < 2 / 32768 \<and>
   \<bar>decode_sample (ToInt16 (scaled_sample (- 1 / 2))) - (- 1 / 2)\<bar> < 1 / 32768"
proof -
  let ?xs = "[65535 / 65536, - 1 / 2] :: real list"
  have ne: "?xs \<noteq> []" by simp
  have rng: "\<forall>x \<in> set ?xs. - 1 \<le> x \<and> x \<le> 1" by simp
  from pcm_round_trip_within_two_steps [OF ne rng, of 24000]
  show ?thesis by simp
qed

section \<open>Loudness\<close>

lemma sumSquares_sum_list: "sumSquares xs acc = acc + sum_list (map (\<lambda>x. x * x) xs)"
  by (induction xs arbitrary: acc) simp_all

lemma square_le_one:
  fixes x :: real
  assumes "- 1 \<le> x" "x \<le> 1"
  shows "x * x \<le> 1"
proof -
  have "\<bar>x\<bar> \<le> 1" using assms by (simp add: abs_le_iff)
  then have "\<bar>x\<bar> * \<bar>x\<bar> \<le> 1 * 1" by (intro mult_mono) simp_all
  then show ?thesis by (simp add: abs_mult_self_eq)
qed

lemma sum_list_squares_bounds:
  fixes xs :: "real list"
  assumes "\<forall>x \<in> set xs. - 1 \<le> x \<and> x \<le> 1"
  shows "0 \<le> sum_list (map (\<lambda>x. x * x) xs) \<and> sum_list (map (\<lambda>x. x * x) xs) \<le> real (length xs)"
  using assms
proof (induction xs)
  case Nil
  then show ?case by simp
next
  case (Cons x xs)
  then have "x * x \<le> 1" by (simp add: square_le_one)
  moreover have "0 \<le> x * x" by simp
  ultimately show ?case using Cons by simp
qed

lemma stride_count:
  assumes "i < (n::nat)"
  shows "(n - i + 3) div 4 = Suc ((n - (i + 4) + 3) div 4)"
proof (cases "n - i < 4")
  case True
  then have "n - (i + 4) = 0" by simp
  moreover have "(n - i + 3) div 4 = 1"
    using True assms by (intro div_nat_eqI) simp_all
  ultimately show ?thesis by simp
next
  case False
  then have "n - i + 3 = (n - (i + 4) + 3) + 4" by simp
  then show ?thesis by (simp only: div_add_self2)
qed

lemma sumStride_bounds:
  assumes "\<forall>x \<in> set d. - 1 \<le> x \<and> x \<le> 1"
  shows "acc \<le> sumStride i d acc \<and> sumStride i d acc \<le> acc + real ((length d - i + 3) div 4)"
  using assms
proof (induction i d acc rule: sumStride.induct)
  case (1 i d acc)
  show ?case
  proof (cases "i < length d")
    case True
    then have m: "d ! i \<in> set d" by simp
    with "1.prems" have sq: "d ! i * d ! i \<le> 1" by (simp add: square_le_one)
    have nn: "0 \<le> d ! i * d ! i" by simp
    have cnt: "(length d - i + 3) div 4 = Suc ((length d - (i + 4) + 3) div 4)"
      using True by (rule stride_count)
    have cntr: "real ((length d - i + 3) div 4) = 1 + real ((length d - (i + 4) + 3) div 4)"
      by (subst cnt) simp
    have unf: "sumStride i d acc = sumStride (i + 4) d (acc + d ! i * d ! i)"
      using True by (subst sumStride.simps) simp
    from "1.IH" [OF True "1.prems"] sq nn show ?thesis
      unfolding unf cntr by linarith
  next
    case False
    then show ?thesis by (subst (1 2) sumStride.simps) simp
  qed
qed

lemma sumStride_replicate:
  "sumStride i (replicate n x) acc = acc + real ((n - i + 3) div 4) * (x * x)"
proof (induction i "replicate n x" acc rule: sumStride.induct)
  case (1 i acc)
  show ?case
  proof (cases "i < n")
    case True
    have cnt: "(n - i + 3) div 4 = Suc ((n - (i + 4) + 3) div 4)"
      using True by (rule stride_count)
    have cntr: "real ((n - i + 3) div 4) = 1 + real ((n - (i + 4) + 3) div 4)"
      by (subst cnt) simp
    have unf: "sumStride i (replicate n x) acc = sumStride (i + 4) (replicate n x) (acc + x * x)"
      using True by (subst sumStride.simps) simp
    have ih: "sumStride (i + 4) (replicate n x) (acc + x * x) =
                acc + x * x + real ((n - (i + 4) + 3) div 4) * (x * x)"
      using "1.hyps" True by simp
    show ?thesis
      unfolding unf cntr ih by (simp only: distrib_right mult_1 add.assoc)
  next
    case False
    then show ?thesis by (subst sumStride.simps) simp
  qed
qed

lemma rms_bounds:
  fixes t n :: real
  assumes "0 \<le> t" "t \<le> n" "0 < n"
  shows "0 \<le> sqrt (t / n) \<and> sqrt (t / n) \<le> 1"
proof -
  have "0 \<le> t / n" using assms by simp
  moreover have "t / n \<le> 1" using assms by simp
  ultimately show ?thesis by simp
qed

lemma volume_disconnect_wl: "volume (disconnect_wl s) = volume s"
  by (simp add: disconnect_wl_eq)

lemma volume_sendAudioChunk:
  assumes "isConnected s" "currentSession s"
  shows "volume (sendAudioChunk d s) = sqrt (sumStride 0 d 0 / (real (length d) / 4)) * 100"
proof (cases "next_outcome (onVolume (sqrt (sumStride 0 d 0 / (real (length d) / 4)) * 100) s)")
  case Accepted
  with assms show ?thesis
    by (simp add: sendAudioChunk_def Let_def onVolume_def sendRealtimeInput_def)
next
  case (Throws message)
  with assms show ?thesis
    by (simp add: sendAudioChunk_def Let_def volume_disconnect_wl console_line_def)
       (simp add: onVolume_def sendRealtimeInput_def)
qed

lemma volume_onaudioprocess:
  assumes "isConnected s"
  shows "volume (onaudioprocess d s) = sqrt (sumSquares d 0 / real (length d)) * 100"
  using assms
  by (simp add: onaudioprocess_def Let_def onVolume_def suspend_def)


text \<open>
  C8, as stated, fails: on a block of 4096 samples of value 1, all inside \<open>[-1, 1]\<close>, a
  connected service of either variant hands the presentation layer the loudness 100.
\<close>

theorem loudness_counterexample:
  "set (replicate 4096 (1 :: real)) \<subseteq> {- 1 .. 1} \<and>
   volume (onaudioprocess (replicate 4096 1)
             (run [EvConnect, EvGotUserMedia, EvOpen] (new_LiveService []))) = 100 \<and>
   volume (sendAudioChunk (replicate 4096 1)
             (run_wl [EvConnect_wl, EvGotUserMedia_wl, EvAdopt_wl] (new_LiveService_wl []))) = 100 \<and>
   \<not> (100 :: real) \<le> 1"
proof -
  have a: "volume (onaudioprocess (replicate 4096 1)
             (run [EvConnect, EvGotUserMedia, EvOpen] (new_LiveService []))) = 100"
    unfolding connected_example
    by (subst volume_onaudioprocess) (simp_all add: sumSquares_sum_list sum_list_replicate)
  have b: "volume (sendAudioChunk (replicate 4096 1)
             (run_wl [EvConnect_wl, EvGotUserMedia_wl, EvAdopt_wl] (new_LiveService_wl []))) = 100"
    unfolding connected_example_wl
    by (subst volume_sendAudioChunk) (simp_all add: sumStride_replicate)
  from a b show ?thesis by simp
qed

text \<open>
  C8, amended. For every captured block whose samples lie in \<open>[-1, 1]\<close> (a non-empty frame
  of the script processor, a full accumulation buffer of the worklet variant), the value
  delivered to the presentation layer is the root mean square of the block (of every fourth
  sample in the worklet variant), which lies in \<open>[0, 1]\<close>, multiplied by 100: a scalar in
  \<open>[0, 100]\<close>.
\<close>

theorem loudness_in_0_100:
  "(isConnected s \<and> inputData \<noteq> [] \<and> (\<forall>x \<in> set inputData. - 1 \<le> x \<and> x \<le> 1) \<longrightarrow>
      (\<exists>rms. 0 \<le> rms \<and> rms \<le> 1 \<and> volume (onaudioprocess inputData s) = rms * 100) \<and>
      0 \<le> volume (onaudioprocess inputData s) \<and> volume (onaudioprocess inputData s) \<le> 100) \<and>
   (isConnected w \<and> currentSession w \<and> length float32Data = BUFFER_SIZE \<and>
      (\<forall>x \<in> set float32Data. - 1 \<le> x \<and> x \<le> 1) \<longrightarrow>
      (\<exists>rms. 0 \<le> rms \<and> rms \<le> 1 \<and> volume (sendAudioChunk float32Data w) = rms * 100) \<and>
      0 \<le> volume (sendAudioChunk float32Data w) \<and> volume (sendAudioChunk float32Data w) \<le> 100)"
proof (intro conjI impI)
  assume h: "isConnected s \<and> inputData \<noteq> [] \<and> (\<forall>x \<in> set inputData. - 1 \<le> x \<and> x \<le> 1)"
  define rms where "rms = sqrt (sumSquares inputData 0 / real (length inputData))"
  have v: "volume (onaudioprocess inputData s) = rms * 100"
    using h by (simp add: volume_onaudioprocess rms_def)
  have "0 \<le> sumSquares inputData 0 \<and> sumSquares inputData 0 \<le> real (length inputData)"
    using h sum_list_squares_bounds [of inputData] by (simp add: sumSquares_sum_list)
  moreover have "0 < real (length inputData)" using h by simp
  ultimately have r: "0 \<le> rms \<and> rms \<le> 1"
    unfolding rms_def by (intro rms_bounds) simp_all
  from v r show "\<exists>rms. 0 \<le> rms \<and> rms \<le> 1 \<and> volume (onaudioprocess inputData s) = rms * 100"
    by blast
  from v r show "0 \<le> volume (onaudioprocess inputData s)" by simp
  from v r show "volume (onaudioprocess inputData s) \<le> 100" by simp
next
  assume h: "isConnected w \<and> currentSession w \<and> length float32Data = BUFFER_SIZE \<and>
      (\<forall>x \<in> set float32Data. - 1 \<le> x \<and> x \<le> 1)"
  define rms where "rms = sqrt (sumStride 0 float32Data 0 / (real (length float32Data) / 4))"
  have v: "volume (sendAudioChunk float32Data w) = rms * 100"
    using h by (simp add: volume_sendAudioChunk rms_def)
  have len: "real (length float32Data) / 4 = 1024" "(length float32Data - 0 + 3) div 4 = 1024"
    using h by (simp_all add: BUFFER_SIZE_def)
  have "0 \<le> sumStride 0 float32Data 0 \<and> sumStride 0 float32Data 0 \<le> 0 + real ((length float32Data - 0 + 3) div 4)"
    using h sumStride_bounds [of float32Data 0 0] by blast
  then have "0 \<le> sumStride 0 float32Data 0 \<and> sumStride 0 float32Data 0 \<le> 1024"
    unfolding len by simp
  then have r: "0 \<le> rms \<and> rms \<le> 1"
    unfolding rms_def len by (intro rms_bounds) simp_all
  from v r show "\<exists>rms. 0 \<le> rms \<and> rms \<le> 1 \<and> volume (sendAudioChunk float32Data w) = rms * 100"
    by blast
  from v r show "0 \<le> volume (sendAudioChunk float32Data w)" by simp
  from v r show "volume (sendAudioChunk float32Data w) \<le> 100" by simp
qed

theorem loudness_in_0_100_witness:
  "0 \<le> volume (onaudioprocess [1 / 2, - 1]
          (run [EvConnect, EvGotUserMedia, EvOpen] (new_LiveService []))) \<and>
   volume (onaudioprocess [1 / 2, - 1]
          (run [EvConnect, EvGotUserMedia, EvOpen] (new_LiveService []))) \<le> 100 \<and>
   0 \<le> volume (sendAudioChunk (replicate BUFFER_SIZE (1 / 2))
          (run_wl [EvConnect_wl, EvGotUserMedia_wl, EvAdopt_wl] (new_LiveService_wl []))) \<and>
   volume (sendAudioChunk (replicate BUFFER_SIZE (1 / 2))
          (run_wl [EvConnect_wl, EvGotUserMedia_wl, EvAdopt_wl] (new_LiveService_wl []))) \<le> 100"
proof -
  let ?s = "run [EvConnect, EvGotUserMedia, EvOpen] (new_LiveService [])"
  let ?w = "run_wl [EvConnect_wl, EvGotUserMedia_wl, EvAdopt_wl] (new_LiveService_wl [])"
  have hs: "isConnected ?s \<and> [1 / 2, - 1] \<noteq> ([] :: real list) \<and>
            (\<forall>x \<in> set [1 / 2, - 1 :: real]. - 1 \<le> x \<and> x \<le> 1)"
    unfolding connected_example by simp
  have hw: "isConnected ?w \<and> currentSession ?w \<and>
            length (replicate BUFFER_SIZE (1 / 2 :: real)) = BUFFER_SIZE \<and>
            (\<forall>x \<in> set (replicate BUFFER_SIZE (1 / 2 :: real)). - 1 \<le> x \<and> x \<le> 1)"
    unfolding connected_example_wl by simp
  from loudness_in_0_100 [of ?s "[1 / 2, - 1]" ?w "replicate BUFFER_SIZE (1 / 2)"] hs hw
  show ?thesis by blast
qed

section \<open>Capture: the accumulation buffer conserves samples\<close>

lemma next_outcome_in_set:
  "next_outcome s = Throws m \<Longrightarrow> Throws m \<in> set (outcomes s)"
  by (cases "outcomes s") (simp_all add: next_outcome_def)

lemma set_tl_subset: "x \<in> set (tl xs) \<Longrightarrow> x \<in> set xs"
  by (cases xs) simp_all

lemma sendAudioChunk_accepted:
  assumes "isConnected s" "currentSession s" "next_outcome s = Accepted"
  shows "sendAudioChunk d s =
           s\<lparr>volume := sqrt (sumStride 0 d 0 / (real (length d) / 4)) * 100,
             realtimeInputs := realtimeInputs s @ [(''audio/pcm;rate=16000'', float32ToInt16PCM d)],
             outcomes := tl (outcomes s)\<rparr>"
  using assms
  by (simp add: sendAudioChunk_def Let_def onVolume_def sendRealtimeInput_def next_outcome_def)

lemma sendAudioChunk_other_failure:
  assumes "isConnected s" "currentSession s" "next_outcome s = Throws m" "\<not> closing m"
  shows "sendAudioChunk d s =
           s\<lparr>volume := sqrt (sumStride 0 d 0 / (real (length d) / 4)) * 100,
             realtimeInputs := realtimeInputs s @ [(''audio/pcm;rate=16000'', float32ToInt16PCM d)],
             outcomes := tl (outcomes s),
             console := console s @ [(ConsoleWarn, ''Send error:'')]\<rparr>"
  using assms
  by (simp add: sendAudioChunk_def Let_def onVolume_def sendRealtimeInput_def next_outcome_def
      console_line_def)

lemma sendAudioChunk_closing:
  assumes "isConnected s" "currentSession s" "next_outcome s = Throws m" "closing m"
  shows "sendAudioChunk d s =
           disconnect_wl (s\<lparr>volume := sqrt (sumStride 0 d 0 / (real (length d) / 4)) * 100,
             realtimeInputs := realtimeInputs s @ [(''audio/pcm;rate=16000'', float32ToInt16PCM d)],
             outcomes := tl (outcomes s)\<rparr>)"
  using assms
  by (simp add: sendAudioChunk_def Let_def onVolume_def sendRealtimeInput_def next_outcome_def)

lemma sendAudioChunk_not_closing:
  assumes c: "isConnected s" "currentSession s"
    and n: "\<forall>out \<in> set (outcomes s). \<forall>m. out = Throws m \<longrightarrow> \<not> closing m"
  shows "realtimeInputs (sendAudioChunk d s) =
           realtimeInputs s @ [(''audio/pcm;rate=16000'', float32ToInt16PCM d)] \<and>
         isConnected (sendAudioChunk d s) \<and> currentSession (sendAudioChunk d s) \<and>
         outcomes (sendAudioChunk d s) = tl (outcomes s) \<and>
         audioBuffer (sendAudioChunk d s) = audioBuffer s \<and>
         workletNode (sendAudioChunk d s) = workletNode s"
proof (cases "next_outcome s")
  case Accepted
  with c show ?thesis by (simp add: sendAudioChunk_accepted)
next
  case (Throws m)
  then have "\<not> closing m" using n next_outcome_in_set by blast
  with c Throws show ?thesis by (simp add: sendAudioChunk_other_failure)
qed

lemma copyLoop_blocks:
  assumes "isConnected s" "currentSession s"
    and "\<forall>out \<in> set (outcomes s). \<forall>m. out = Throws m \<longrightarrow> \<not> closing m"
    and "audioBufferIdx s < BUFFER_SIZE" "length (audioBuffer s) = BUFFER_SIZE"
    and "i \<le> length chunk"
  shows "\<exists>blocks.
           realtimeInputs (copyLoop i chunk s) =
             realtimeInputs s @ map (\<lambda>b. (''audio/pcm;rate=16000'', float32ToInt16PCM b)) blocks \<and>
           (\<forall>b \<in> set blocks. length b = BUFFER_SIZE) \<and>
           concat blocks @ take (audioBufferIdx (copyLoop i chunk s)) (audioBuffer (copyLoop i chunk s)) =
             take (audioBufferIdx s) (audioBuffer s) @ drop i chunk \<and>
           isConnected (copyLoop i chunk s) \<and> currentSession (copyLoop i chunk s) \<and>
           (\<forall>out \<in> set (outcomes (copyLoop i chunk s)). \<forall>m. out = Throws m \<longrightarrow> \<not> closing m) \<and>
           audioBufferIdx (copyLoop i chunk s) < BUFFER_SIZE \<and>
           length (audioBuffer (copyLoop i chunk s)) = BUFFER_SIZE \<and>
           workletNode (copyLoop i chunk s) = workletNode s"
  using assms
proof (induction "length chunk - i" arbitrary: i s rule: less_induct)
  case less
  show ?case
  proof (cases "i < length chunk")
    case False
    then have "copyLoop i chunk s = s" by (subst copyLoop.simps) simp
    moreover from False less.prems have "drop i chunk = []" by simp
    ultimately show ?thesis
      using less.prems by (intro exI [of _ "[]"]) simp
  next
    case True
    define copyLen where "copyLen = min (BUFFER_SIZE - audioBufferIdx s) (length chunk - i)"
    define part where "part = take copyLen (drop i chunk)"
    define s1 where "s1 = s\<lparr>audioBuffer := Float32Array_set (audioBuffer s) part (audioBufferIdx s),
                              audioBufferIdx := audioBufferIdx s + copyLen\<rparr>"
    define s2 where "s2 = (if audioBufferIdx s1 \<ge> BUFFER_SIZE
                           then (sendAudioChunk (audioBuffer s1) s1)\<lparr>audioBufferIdx := 0\<rparr> else s1)"
    have unf: "copyLoop i chunk s = copyLoop (i + copyLen) chunk s2"
      using True by (subst copyLoop.simps) (simp add: Let_def copyLen_def part_def s1_def s2_def)
    have pos: "0 < copyLen" "copyLen \<le> BUFFER_SIZE - audioBufferIdx s" "i + copyLen \<le> length chunk"
      using True less.prems by (simp_all add: copyLen_def)
    have lp: "length part = copyLen"
      using pos by (simp add: part_def)
    have buf1: "audioBuffer s1 = take (audioBufferIdx s) (audioBuffer s) @ part @
                  drop (audioBufferIdx s + copyLen) (audioBuffer s)"
      by (simp add: s1_def Float32Array_set_def lp)
    have len1: "length (audioBuffer s1) = BUFFER_SIZE"
      using less.prems pos by (simp add: buf1 lp)
    have idx1eq: "audioBufferIdx s1 = audioBufferIdx s + copyLen"
      by (simp add: s1_def)
    have pend1: "take (audioBufferIdx s1) (audioBuffer s1) = take (audioBufferIdx s) (audioBuffer s) @ part"
      unfolding buf1 idx1eq using less.prems pos lp by simp
    have dr: "part @ drop (i + copyLen) chunk = drop i chunk"
      by (simp add: part_def add.commute [of i copyLen] flip: drop_drop)
    have c1: "isConnected s1" "currentSession s1"
      "\<forall>out \<in> set (outcomes s1). \<forall>m. out = Throws m \<longrightarrow> \<not> closing m"
      "realtimeInputs s1 = realtimeInputs s" "workletNode s1 = workletNode s"
      using less.prems by (simp_all add: s1_def)
    have dec: "length chunk - (i + copyLen) < length chunk - i"
      using True pos by simp
    show ?thesis
    proof (cases "audioBufferIdx s1 \<ge> BUFFER_SIZE")
      case False
      then have s2: "s2 = s1" by (simp add: s2_def)
      have idx1: "audioBufferIdx s1 < BUFFER_SIZE" using False by simp
      from less.hyps [OF dec c1(1,2,3) idx1 len1 pos(3)]
      obtain blocks where b:
        "realtimeInputs (copyLoop (i + copyLen) chunk s1) =
           realtimeInputs s1 @ map (\<lambda>b. (''audio/pcm;rate=16000'', float32ToInt16PCM b)) blocks"
        "\<forall>b \<in> set blocks. length b = BUFFER_SIZE"
        "concat blocks @ take (audioBufferIdx (copyLoop (i + copyLen) chunk s1))
            (audioBuffer (copyLoop (i + copyLen) chunk s1)) =
           take (audioBufferIdx s1) (audioBuffer s1) @ drop (i + copyLen) chunk"
        "isConnected (copyLoop (i + copyLen) chunk s1)"
        "currentSession (copyLoop (i + copyLen) chunk s1)"
        "\<forall>out \<in> set (outcomes (copyLoop (i + copyLen) chunk s1)). \<forall>m. out = Throws m \<longrightarrow> \<not> closing m"
        "audioBufferIdx (copyLoop (i + copyLen) chunk s1) < BUFFER_SIZE"
        "length (audioBuffer (copyLoop (i + copyLen) chunk s1)) = BUFFER_SIZE"
        "workletNode (copyLoop (i + copyLen) chunk s1) = workletNode s1"
        by blast
      have "concat blocks @ take (audioBufferIdx (copyLoop (i + copyLen) chunk s1))
            (audioBuffer (copyLoop (i + copyLen) chunk s1)) =
           take (audioBufferIdx s) (audioBuffer s) @ drop i chunk"
        using b(3) by (simp add: pend1 dr)
      with b c1 show ?thesis
        unfolding unf s2 by (intro exI [of _ blocks]) simp
    next
      case True
      then have full: "audioBufferIdx s + copyLen = BUFFER_SIZE"
        using pos less.prems by (simp add: s1_def)
      define s1' where "s1' = sendAudioChunk (audioBuffer s1) s1"
      have s2: "s2 = s1'\<lparr>audioBufferIdx := 0\<rparr>"
        using True by (simp add: s2_def s1'_def)
      note sa = sendAudioChunk_not_closing [OF c1(1,2,3), of "audioBuffer s1", folded s1'_def]
      have block: "audioBuffer s1 = take (audioBufferIdx s) (audioBuffer s) @ part"
        using less.prems by (simp add: buf1 full)
      have c2: "isConnected s2" "currentSession s2"
        "\<forall>out \<in> set (outcomes s2). \<forall>m. out = Throws m \<longrightarrow> \<not> closing m"
        "audioBufferIdx s2 < BUFFER_SIZE" "length (audioBuffer s2) = BUFFER_SIZE"
        using sa c1(3) len1 set_tl_subset [of _ "outcomes s1"]
        by (auto simp: s2 BUFFER_SIZE_def)
      from less.hyps [OF dec c2 pos(3)]
      obtain blocks where b:
        "realtimeInputs (copyLoop (i + copyLen) chunk s2) =
           realtimeInputs s2 @ map (\<lambda>b. (''audio/pcm;rate=16000'', float32ToInt16PCM b)) blocks"
        "\<forall>b \<in> set blocks. length b = BUFFER_SIZE"
        "concat blocks @ take (audioBufferIdx (copyLoop (i + copyLen) chunk s2))
            (audioBuffer (copyLoop (i + copyLen) chunk s2)) =
           take (audioBufferIdx s2) (audioBuffer s2) @ drop (i + copyLen) chunk"
        "isConnected (copyLoop (i + copyLen) chunk s2)"
        "currentSession (copyLoop (i + copyLen) chunk s2)"
        "\<forall>out \<in> set (outcomes (copyLoop (i + copyLen) chunk s2)). \<forall>m. out = Throws m \<longrightarrow> \<not> closing m"
        "audioBufferIdx (copyLoop (i + copyLen) chunk s2) < BUFFER_SIZE"
        "length (audioBuffer (copyLoop (i + copyLen) chunk s2)) = BUFFER_SIZE"
        "workletNode (copyLoop (i + copyLen) chunk s2) = workletNode s2"
        by blast
      have r2: "realtimeInputs s2 =
                  realtimeInputs s @ [(''audio/pcm;rate=16000'', float32ToInt16PCM (audioBuffer s1))]"
        using sa c1(4) by (simp add: s2)
      have w2: "workletNode s2 = workletNode s" using sa c1(5) by (simp add: s2)
      have tk: "take (audioBufferIdx s2) (audioBuffer s2) = []" by (simp add: s2)
      have cc: "concat (audioBuffer s1 # blocks) @
                  take (audioBufferIdx (copyLoop (i + copyLen) chunk s2))
                    (audioBuffer (copyLoop (i + copyLen) chunk s2)) =
                take (audioBufferIdx s) (audioBuffer s) @ drop i chunk"
        using b(3) by (simp add: tk block dr)
      have ri: "realtimeInputs (copyLoop (i + copyLen) chunk s2) =
             realtimeInputs s @ map (\<lambda>b. (''audio/pcm;rate=16000'', float32ToInt16PCM b)) (audioBuffer s1 # blocks)"
        using b(1) r2 by simp
      have al: "\<forall>b \<in> set (audioBuffer s1 # blocks). length b = BUFFER_SIZE"
        using b(2) len1 by simp
      from ri al cc b(4,5,6,7,8) b(9) w2 show ?thesis
        unfolding unf by (intro exI [of _ "audioBuffer s1 # blocks"]) (simp only: simp_thms)
    qed
  qed
qed


lemma length_concat_blocks:
  assumes "\<forall>b \<in> set blocks. length b = n"
  shows "length (concat blocks) = n * length blocks"
  using assms by (induction blocks) simp_all

lemma frame_step_wl:
  assumes "isConnected s" "workletNode s"
  shows "step_wl (EvFrame_wl chunk) s = copyLoop 0 chunk s"
  using assms by (simp add: step_wl_def onmessage_wl_def processInputAudio_def)

lemma frames_blocks:
  assumes "isConnected s" "currentSession s" "workletNode s"
    and "\<forall>out \<in> set (outcomes s). \<forall>m. out = Throws m \<longrightarrow> \<not> closing m"
    and "audioBufferIdx s < BUFFER_SIZE" "length (audioBuffer s) = BUFFER_SIZE"
  shows "\<exists>blocks.
           realtimeInputs (run_wl (map EvFrame_wl frames) s) =
             realtimeInputs s @ map (\<lambda>b. (''audio/pcm;rate=16000'', float32ToInt16PCM b)) blocks \<and>
           (\<forall>b \<in> set blocks. length b = BUFFER_SIZE) \<and>
           concat blocks @ take (audioBufferIdx (run_wl (map EvFrame_wl frames) s))
               (audioBuffer (run_wl (map EvFrame_wl frames) s)) =
             take (audioBufferIdx s) (audioBuffer s) @ concat frames \<and>
           audioBufferIdx (run_wl (map EvFrame_wl frames) s) < BUFFER_SIZE \<and>
           length (audioBuffer (run_wl (map EvFrame_wl frames) s)) = BUFFER_SIZE"
  using assms
proof (induction frames arbitrary: s)
  case Nil
  then show ?case by (intro exI [of _ "[]"]) simp
next
  case (Cons chunk frames)
  let ?s1 = "copyLoop 0 chunk s"
  have st: "run_wl (map EvFrame_wl (chunk # frames)) s = run_wl (map EvFrame_wl frames) ?s1"
    using Cons.prems by (simp add: frame_step_wl)
  from copyLoop_blocks [OF Cons.prems(1,2,4,5,6), of 0 chunk]
  obtain blocks1 where b1:
    "realtimeInputs ?s1 =
       realtimeInputs s @ map (\<lambda>b. (''audio/pcm;rate=16000'', float32ToInt16PCM b)) blocks1"
    "\<forall>b \<in> set blocks1. length b = BUFFER_SIZE"
    "concat blocks1 @ take (audioBufferIdx ?s1) (audioBuffer ?s1) =
       take (audioBufferIdx s) (audioBuffer s) @ chunk"
    "isConnected ?s1" "currentSession ?s1"
    "\<forall>out \<in> set (outcomes ?s1). \<forall>m. out = Throws m \<longrightarrow> \<not> closing m"
    "audioBufferIdx ?s1 < BUFFER_SIZE" "length (audioBuffer ?s1) = BUFFER_SIZE"
    "workletNode ?s1 = workletNode s"
    by auto
  have w1: "workletNode ?s1" using b1(9) Cons.prems(3) by simp
  from Cons.IH [OF b1(4,5) w1 b1(6,7,8)]
  obtain blocks2 where b2:
    "realtimeInputs (run_wl (map EvFrame_wl frames) ?s1) =
       realtimeInputs ?s1 @ map (\<lambda>b. (''audio/pcm;rate=16000'', float32ToInt16PCM b)) blocks2"
    "\<forall>b \<in> set blocks2. length b = BUFFER_SIZE"
    "concat blocks2 @ take (audioBufferIdx (run_wl (map EvFrame_wl frames) ?s1))
         (audioBuffer (run_wl (map EvFrame_wl frames) ?s1)) =
       take (audioBufferIdx ?s1) (audioBuffer ?s1) @ concat frames"
    "audioBufferIdx (run_wl (map EvFrame_wl frames) ?s1) < BUFFER_SIZE"
    "length (audioBuffer (run_wl (map EvFrame_wl frames) ?s1)) = BUFFER_SIZE"
    by blast
  have r: "realtimeInputs (run_wl (map EvFrame_wl frames) ?s1) =
       realtimeInputs s @ map (\<lambda>b. (''audio/pcm;rate=16000'', float32ToInt16PCM b)) (blocks1 @ blocks2)"
    using b1(1) b2(1) by simp
  have a: "\<forall>b \<in> set (blocks1 @ blocks2). length b = BUFFER_SIZE"
    using b1(2) b2(2) by auto
  have "concat (blocks1 @ blocks2) @ take (audioBufferIdx (run_wl (map EvFrame_wl frames) ?s1))
         (audioBuffer (run_wl (map EvFrame_wl frames) ?s1)) =
        concat blocks1 @ (take (audioBufferIdx ?s1) (audioBuffer ?s1) @ concat frames)"
    using b2(3) by simp
  also have "\<dots> = (take (audioBufferIdx s) (audioBuffer s) @ chunk) @ concat frames"
    using b1(3) by simp
  finally have c: "concat (blocks1 @ blocks2) @ take (audioBufferIdx (run_wl (map EvFrame_wl frames) ?s1))
         (audioBuffer (run_wl (map EvFrame_wl frames) ?s1)) =
        take (audioBufferIdx s) (audioBuffer s) @ concat (chunk # frames)"
    by simp
  from r a c b2(4,5) show ?case
    unfolding st by (intro exI [of _ "blocks1 @ blocks2"]) (simp only: simp_thms)
qed

text \<open>
  C2. Let a capturing session of the worklet variant (connected, session adopted, node
  installed, the transport never answering that it is closing) receive any sequence of
  frames of any lengths. Then the blocks it hands to the transport are whole buffers of
  \<open>BUFFER_SIZE = 4096\<close> samples, each encoded in \<open>2 * 4096\<close> bytes; the samples of these
  blocks followed by the samples left in the partial buffer are exactly the samples that
  were in the buffer before followed by the samples of the frames, in order, none dropped
  and none duplicated; so the number of samples emitted plus the number left equals the
  number there before plus the number fed.
\<close>

theorem capture_conserves_samples:
  assumes "isConnected s" "currentSession s" "workletNode s"
    and "\<forall>out \<in> set (outcomes s). \<forall>m. out = Throws m \<longrightarrow> \<not> closing m"
    and "audioBufferIdx s < BUFFER_SIZE" "length (audioBuffer s) = BUFFER_SIZE"
  shows "\<exists>blocks.
           realtimeInputs (run_wl (map EvFrame_wl frames) s) =
             realtimeInputs s @ map (\<lambda>b. (''audio/pcm;rate=16000'', float32ToInt16PCM b)) blocks \<and>
           (\<forall>b \<in> set blocks. length b = 4096 \<and> length (float32ToInt16PCM b) = 2 * 4096) \<and>
           concat blocks @ take (audioBufferIdx (run_wl (map EvFrame_wl frames) s))
               (audioBuffer (run_wl (map EvFrame_wl frames) s)) =
             take (audioBufferIdx s) (audioBuffer s) @ concat frames \<and>
           length (concat blocks) + audioBufferIdx (run_wl (map EvFrame_wl frames) s) =
             audioBufferIdx s + length (concat frames) \<and>
           audioBufferIdx (run_wl (map EvFrame_wl frames) s) < 4096"
proof -
  let ?s' = "run_wl (map EvFrame_wl frames) s"
  from frames_blocks [OF assms, of frames]
  obtain blocks where b:
    "realtimeInputs ?s' =
       realtimeInputs s @ map (\<lambda>b. (''audio/pcm;rate=16000'', float32ToInt16PCM b)) blocks"
    "\<forall>b \<in> set blocks. length b = BUFFER_SIZE"
    "concat blocks @ take (audioBufferIdx ?s') (audioBuffer ?s') =
       take (audioBufferIdx s) (audioBuffer s) @ concat frames"
    "audioBufferIdx ?s' < BUFFER_SIZE" "length (audioBuffer ?s') = BUFFER_SIZE"
    by blast
  have "length (concat blocks @ take (audioBufferIdx ?s') (audioBuffer ?s')) =
        length (take (audioBufferIdx s) (audioBuffer s) @ concat frames)"
    using b(3) by simp
  then have n: "length (concat blocks) + audioBufferIdx ?s' = audioBufferIdx s + length (concat frames)"
    using b(4,5) assms(5,6) by simp
  have e: "\<forall>b \<in> set blocks. length b = 4096 \<and> length (float32ToInt16PCM b) = 2 * 4096"
    using b(2) by (simp add: length_float32ToInt16PCM BUFFER_SIZE_def)
  have i: "audioBufferIdx ?s' < 4096" using b(4) by (simp add: BUFFER_SIZE_def)
  from b(1) e b(3) n i show ?thesis
    by (intro exI [of _ blocks]) (simp only: simp_thms)
qed

theorem capture_conserves_samples_witness:
  "\<exists>blocks.
     realtimeInputs (run_wl (map EvFrame_wl [replicate 5000 (1 / 2), [1 / 4, - 1]])
         (run_wl [EvConnect_wl, EvGotUserMedia_wl, EvAdopt_wl] (new_LiveService_wl []))) =
       map (\<lambda>b. (''audio/pcm;rate=16000'', float32ToInt16PCM b)) blocks \<and>
     length (concat blocks) +
       audioBufferIdx (run_wl (map EvFrame_wl [replicate 5000 (1 / 2), [1 / 4, - 1]])
         (run_wl [EvConnect_wl, EvGotUserMedia_wl, EvAdopt_wl] (new_LiveService_wl []))) = 5002"
proof -
  let ?s = "run_wl [EvConnect_wl, EvGotUserMedia_wl, EvAdopt_wl] (new_LiveService_wl [])"
  let ?frames = "[replicate 5000 (1 / 2), [1 / 4, - 1]] :: real list list"
  have h: "isConnected ?s" "currentSession ?s" "workletNode ?s"
    "\<forall>out \<in> set (outcomes ?s). \<forall>m. out = Throws m \<longrightarrow> \<not> closing m"
    "audioBufferIdx ?s < BUFFER_SIZE" "length (audioBuffer ?s) = BUFFER_SIZE"
    unfolding connected_example_wl by (simp_all add: new_LiveService_wl_def BUFFER_SIZE_def)
  have r: "realtimeInputs ?s = []" "audioBufferIdx ?s = 0"
    unfolding connected_example_wl by (simp_all add: new_LiveService_wl_def)
  from capture_conserves_samples [OF h, of ?frames]
  obtain blocks where b:
    "realtimeInputs (run_wl (map EvFrame_wl ?frames) ?s) =
       realtimeInputs ?s @ map (\<lambda>b. (''audio/pcm;rate=16000'', float32ToInt16PCM b)) blocks"
    "length (concat blocks) + audioBufferIdx (run_wl (map EvFrame_wl ?frames) ?s) =
       audioBufferIdx ?s + length (concat ?frames)"
    by blast
  have "length (concat ?frames) = 5002" by simp
  with b r show ?thesis
    by (intro exI [of _ blocks]) (simp only: append_Nil add_0 simp_thms)
qed

section \<open>Playback scheduling\<close>

lemma pcmToAudioBuffer_Inr:
  assumes "pcmToAudioBuffer b OUTPUT_SAMPLE_RATE = Inr B"
  shows "b \<noteq> [] \<and> 0 \<le> duration B"
proof -
  have "b \<noteq> []" using assms by (auto simp: pcmToAudioBuffer_def)
  moreover have "sampleRate B = OUTPUT_SAMPLE_RATE"
    using assms by (auto simp: pcmToAudioBuffer_def split: sum.splits if_splits)
  then have "0 \<le> duration B" by (simp add: duration_def OUTPUT_SAMPLE_RATE_def)
  ultimately show ?thesis by simp
qed

lemma handleAudioResponse_cursor:
  "nextStartTime s \<le> nextStartTime (catch_processing s (handleAudioResponse audio t s))"
proof (cases audio)
  case NoAudio
  then show ?thesis by (simp add: handleAudioResponse_def catch_processing_def)
next
  case Malformed
  then show ?thesis by (simp add: handleAudioResponse_def catch_processing_def console_line_def)
next
  case Undecodable
  then show ?thesis by (simp add: handleAudioResponse_def catch_processing_def console_line_def)
next
  case (Inline b)
  show ?thesis
  proof (cases "pcmToAudioBuffer b OUTPUT_SAMPLE_RATE")
    case (Inl e)
    with Inline show ?thesis
      by (simp add: handleAudioResponse_def catch_processing_def console_line_def)
  next
    case (Inr B)
    then have "0 \<le> duration B" using pcmToAudioBuffer_Inr by blast
    with Inline Inr show ?thesis
      by (simp add: handleAudioResponse_def catch_processing_def Let_def max_def)
  qed
qed

lemma handleAudioResponse_scheduled:
  assumes "outputAudioContext s" "pcmToAudioBuffer b OUTPUT_SAMPLE_RATE = Inr B"
  shows "catch_processing s (handleAudioResponse (Inline b) t s) =
           s\<lparr>nextStartTime := max t (nextStartTime s) + duration B,
             started := started s @ [(max t (nextStartTime s), B)]\<rparr>"
  using assms pcmToAudioBuffer_Inr [OF assms(2)]
  by (simp add: handleAudioResponse_def catch_processing_def Let_def)

lemma nextStartTime_sendResponseBack [simp]:
  "nextStartTime (sendResponseBack fc r s) = nextStartTime s"
  by (simp add: sendResponseBack_def suspend_def)

lemma nextStartTime_respond_wl [simp]:
  "nextStartTime (respond_wl fc r s) = nextStartTime s"
  by (simp add: respond_wl_def sendToolResponse_def console_line_def Let_def split: send_outcome.splits)

lemma toolCallLoop_cursor:
  "nextStartTime s \<le> nextStartTime (toolCallLoop fcs audio t s)"
proof (induction fcs arbitrary: s)
  case Nil
  show ?case by (simp add: handleAudioResponse_cursor)
next
  case (Cons fc fcs)
  have a: "nextStartTime s \<le> nextStartTime (toolCallLoop fcs audio t
             (sendResponseBack fc r (onLog Tool m2 (onLog Tool m1 s))))" for r m1 m2
    using Cons.IH [of "sendResponseBack fc r (onLog Tool m2 (onLog Tool m1 s))"]
    by (simp add: onLog_def)
  have b: "nextStartTime s \<le> nextStartTime (toolCallLoop fcs audio t (sendResponseBack fc r s))" for r
    using Cons.IH [of "sendResponseBack fc r s"] by simp
  show ?case
    using a b
    by (simp add: Let_def console_line_def suspend_def onLog_def split: call_args.splits)
qed

lemma toolCallLoop_wl_cursor:
  "nextStartTime s \<le> nextStartTime (toolCallLoop_wl fcs audio t s)"
proof (induction fcs arbitrary: s)
  case Nil
  show ?case by (simp add: handleAudioResponse_cursor)
next
  case (Cons fc fcs)
  have a: "nextStartTime s \<le> nextStartTime (toolCallLoop_wl fcs audio t
             (respond_wl fc r (onLog Tool m1 s)))" for r m1
    using Cons.IH [of "respond_wl fc r (onLog Tool m1 s)"]
    by (simp add: onLog_def)
  have b: "nextStartTime s \<le> nextStartTime (toolCallLoop_wl fcs audio t (respond_wl fc r s))" for r
    using Cons.IH [of "respond_wl fc r s"] by simp
  show ?case
    using a b
    by (simp add: Let_def console_line_def suspend_wl_def onLog_def split: call_args.splits)
qed

lemma disconnect_eq:
  "disconnect s =
     (if \<not> isConnected s \<and> \<not> sessionPromise s then s
      else s\<lparr>processor := False, source := False, mediaStream := False,
             released := released s @ (if processor s then [ProcessorNode] else [])
               @ (if source s then [SourceNode] else []) @ (if mediaStream s then [MediaTracks] else [])
               @ (if inputAudioContext s then [InputContext]
                  else if outputAudioContext s then [OutputContext] else []),
             pending := pending s @ (if inputAudioContext s then [AwaitInputClose]
                  else if outputAudioContext s then [AwaitOutputClose]
                  else if sessionPromise s then [AwaitSession] else []),
             isConnected := (if inputAudioContext s \<or> outputAudioContext s \<or> sessionPromise s
                  then isConnected s else False),
             connectionState := (if inputAudioContext s \<or> outputAudioContext s \<or> sessionPromise s
                  then connectionState s else DISCONNECTED),
             logs := logs s @ (if inputAudioContext s \<or> outputAudioContext s \<or> sessionPromise s
                  then [] else [(System, ''Disconnected.'')])\<rparr>)"
  by (cases "processor s"; cases "source s"; cases "mediaStream s";
      cases "inputAudioContext s"; cases "outputAudioContext s"; cases "sessionPromise s";
      cases "isConnected s")
     (simp_all add: disconnect_def disconnect_output_def disconnect_session_def disconnect_end_def
      suspend_def release_def onStatusChange_def onLog_def Let_def)

lemma step_cursor: "nextStartTime s \<le> nextStartTime (step e s)"
proof (cases e)
  case (EvMessage message t)
  then show ?thesis
    using toolCallLoop_cursor [of s "[]" "audioData message" t]
      toolCallLoop_cursor [of "onLog System ''Coach requesting data...'' s" _ "audioData message" t]
    by (simp add: step_def handleMessage_def onLog_def split: option.splits)
next
  case (EvRun n t)
  let ?s = "s\<lparr>pending := take n (pending s) @ drop (Suc n) (pending s)\<rparr>"
  have "nextStartTime ?s \<le> nextStartTime (run_task k t ?s)" for k
  proof (cases k)
    case (AwaitSearch fc query fcs audio)
    then show ?thesis
      using toolCallLoop_cursor [of "sendResponseBack fc _ (onLog Tool ''Found search results.'' ?s)" fcs audio t]
      by (simp add: run_task_def console_line_def Let_def onLog_def split: sum.splits)
  qed (simp_all add: run_task_def sendRealtimeInput_def sendToolResponse_def
        disconnect_output_def disconnect_session_def disconnect_end_def suspend_def release_def
        onStatusChange_def onLog_def Let_def)
  then show ?thesis using EvRun by (simp add: step_def)
qed (simp_all add: step_def connect_def connect_gotUserMedia_def connect_failed_def disconnect_eq
      handleOpen_def startAudioStreaming_def handleClose_def handleError_def onaudioprocess_def
      onLog_def onStatusChange_def console_line_def onVolume_def suspend_def Let_def)


lemma copyLoop_invariant:
  assumes "P s"
    and upd: "\<And>s b n. P s \<Longrightarrow> P (s\<lparr>audioBuffer := b, audioBufferIdx := n\<rparr>)"
    and idx: "\<And>s n. P s \<Longrightarrow> P (s\<lparr>audioBufferIdx := n\<rparr>)"
    and snd: "\<And>d s. P s \<Longrightarrow> P (sendAudioChunk d s)"
  shows "P (copyLoop i chunk s)"
  using assms(1)
proof (induction i chunk s rule: copyLoop.induct)
  case (1 chunkIdx chunk s)
  show ?case
  proof (cases "chunkIdx < length chunk")
    case False
    then show ?thesis using "1.prems" by (subst copyLoop.simps) simp
  next
    case True
    define copyLen where "copyLen = min (BUFFER_SIZE - audioBufferIdx s) (length chunk - chunkIdx)"
    define s1 where "s1 = s\<lparr>audioBuffer :=
         Float32Array_set (audioBuffer s) (take copyLen (drop chunkIdx chunk)) (audioBufferIdx s),
         audioBufferIdx := audioBufferIdx s + copyLen\<rparr>"
    define s2 where "s2 = (if audioBufferIdx s1 \<ge> BUFFER_SIZE
                           then (sendAudioChunk (audioBuffer s1) s1)\<lparr>audioBufferIdx := 0\<rparr> else s1)"
    have unf: "copyLoop chunkIdx chunk s = copyLoop (chunkIdx + copyLen) chunk s2"
      using True by (subst copyLoop.simps) (simp add: Let_def copyLen_def s1_def s2_def)
    have p1: "P s1" unfolding s1_def using "1.prems" by (rule upd)
    have p2: "P s2" unfolding s2_def using p1 by (simp add: idx snd)
    have "P (copyLoop (chunkIdx + copyLen) chunk s2)"
      using p2 unfolding s2_def s1_def copyLen_def
      by (rule "1.IH" [OF True refl refl refl refl])
    then show ?thesis by (simp add: unf)
  qed
qed

lemma nextStartTime_sendAudioChunk: "nextStartTime (sendAudioChunk d s) = nextStartTime s"
  by (simp add: sendAudioChunk_def Let_def disconnect_wl_eq console_line_def
      sendRealtimeInput_def onVolume_def split: send_outcome.splits)

lemma nextStartTime_copyLoop: "nextStartTime (copyLoop i chunk s) = nextStartTime s"
  by (rule copyLoop_invariant [where P = "\<lambda>s'. nextStartTime s' = nextStartTime s"])
     (simp_all add: nextStartTime_sendAudioChunk)

lemma step_wl_cursor: "nextStartTime s \<le> nextStartTime (step_wl e s)"
proof (cases e)
  case (EvMessage_wl message t)
  then show ?thesis
    using toolCallLoop_wl_cursor [of s _ "audioData message" t]
    by (simp add: step_wl_def handleMessage_wl_def handleAudioResponse_cursor split: option.splits)
next
  case (EvRun_wl n t)
  let ?s = "s\<lparr>pending_wl := take n (pending_wl s) @ drop (Suc n) (pending_wl s)\<rparr>"
  have "nextStartTime ?s \<le> nextStartTime (run_task_wl k t ?s)" for k
  proof (cases k)
    case (AwaitSearch_wl fc query fcs audio)
    then show ?thesis
      using toolCallLoop_wl_cursor [of "respond_wl fc (SearchText (mockGoogleSearch_wl query)) ?s" fcs audio t]
      by (simp add: run_task_wl_def)
  qed (simp_all add: run_task_wl_def disconnect_output_wl_def disconnect_end_wl_def suspend_wl_def
        release_def onLog_def)
  then show ?thesis using EvRun_wl by (simp add: step_wl_def)
next
  case (EvFrame_wl chunk)
  then show ?thesis
    by (simp add: step_wl_def onmessage_wl_def processInputAudio_def nextStartTime_copyLoop)
qed (simp_all add: step_wl_def connect_wl_def connect_gotUserMedia_wl_def connect_adopt_wl_def
      handleConnectionError_def disconnect_wl_eq handleOpen_wl_def startAudioStreaming_wl_def
      handleClose_wl_def handleError_wl_def onLog_def onStatusChange_def console_line_def Let_def)

lemma audio_message:
  assumes "isConnected s" "outputAudioContext s" "pcmToAudioBuffer b OUTPUT_SAMPLE_RATE = Inr B"
  shows "step (EvMessage \<lparr>toolCall = None, audioData = Inline b\<rparr> t) s =
           s\<lparr>nextStartTime := max t (nextStartTime s) + duration B,
             started := started s @ [(max t (nextStartTime s), B)]\<rparr>"
  using assms by (simp add: step_def handleMessage_def handleAudioResponse_scheduled)

lemma audio_message_wl:
  assumes "isConnected s" "outputAudioContext s" "pcmToAudioBuffer b OUTPUT_SAMPLE_RATE = Inr B"
  shows "step_wl (EvMessage_wl \<lparr>toolCall = None, audioData = Inline b\<rparr> t) s =
           s\<lparr>nextStartTime := max t (nextStartTime s) + duration B,
             started := started s @ [(max t (nextStartTime s), B)]\<rparr>"
  using assms by (simp add: step_wl_def handleMessage_wl_def handleAudioResponse_scheduled)

lemma three_blocks:
  fixes s :: "'a live_service_scheme"
  assumes st: "\<And>b B t (u :: 'a live_service_scheme).
        isConnected u \<Longrightarrow> outputAudioContext u \<Longrightarrow> pcmToAudioBuffer b OUTPUT_SAMPLE_RATE = Inr B \<Longrightarrow>
        f b t u = u\<lparr>nextStartTime := max t (nextStartTime u) + duration B,
                     started := started u @ [(max t (nextStartTime u), B)]\<rparr>"
    and c: "isConnected s" "outputAudioContext s" "nextStartTime s = 0"
    and b: "pcmToAudioBuffer b1 OUTPUT_SAMPLE_RATE = Inr B1"
           "pcmToAudioBuffer b2 OUTPUT_SAMPLE_RATE = Inr B2"
           "pcmToAudioBuffer b3 OUTPUT_SAMPLE_RATE = Inr B3"
    and t: "t1 \<le> nextStartTime s" "t2 \<le> nextStartTime (f b1 t1 s)"
           "t3 \<le> nextStartTime (f b2 t2 (f b1 t1 s))"
  shows "started (f b3 t3 (f b2 t2 (f b1 t1 s))) =
           started s @ [(0, B1), (duration B1, B2), (duration B1 + duration B2, B3)] \<and>
         nextStartTime (f b3 t3 (f b2 t2 (f b1 t1 s))) = duration B1 + duration B2 + duration B3"
proof -
  let ?s1 = "f b1 t1 s"
  let ?s2 = "f b2 t2 ?s1"
  have e1: "?s1 = s\<lparr>nextStartTime := duration B1, started := started s @ [(0, B1)]\<rparr>"
    using st [OF c(1,2) b(1), of t1] t(1) c(3) by (simp add: max_def)
  have c1: "isConnected ?s1" "outputAudioContext ?s1" "nextStartTime ?s1 = duration B1"
    "started ?s1 = started s @ [(0, B1)]"
    using c by (simp_all add: e1)
  have e2: "?s2 = ?s1\<lparr>nextStartTime := duration B1 + duration B2,
                        started := started ?s1 @ [(duration B1, B2)]\<rparr>"
    using st [OF c1(1,2) b(2), of t2] t(2) c1(3) by (simp add: max_def)
  have c2: "isConnected ?s2" "outputAudioContext ?s2" "nextStartTime ?s2 = duration B1 + duration B2"
    "started ?s2 = started s @ [(0, B1), (duration B1, B2)]"
    using c1 by (simp_all add: e2)
  have e3: "f b3 t3 ?s2 = ?s2\<lparr>nextStartTime := duration B1 + duration B2 + duration B3,
                        started := started ?s2 @ [(duration B1 + duration B2, B3)]\<rparr>"
    using st [OF c2(1,2) b(3), of t3] t(3) c2(3) by (simp add: max_def)
  show ?thesis using c2 by (simp add: e3)
qed

lemma three_messages:
  "(isConnected s \<and> outputAudioContext s \<and> nextStartTime s = 0 \<and>
    pcmToAudioBuffer b1 OUTPUT_SAMPLE_RATE = Inr B1 \<and>
    pcmToAudioBuffer b2 OUTPUT_SAMPLE_RATE = Inr B2 \<and>
    pcmToAudioBuffer b3 OUTPUT_SAMPLE_RATE = Inr B3 \<and>
    t1 \<le> nextStartTime s \<and>
    t2 \<le> nextStartTime (run [EvMessage \<lparr>toolCall = None, audioData = Inline b1\<rparr> t1] s) \<and>
    t3 \<le> nextStartTime (run [EvMessage \<lparr>toolCall = None, audioData = Inline b1\<rparr> t1,
                               EvMessage \<lparr>toolCall = None, audioData = Inline b2\<rparr> t2] s)) \<longrightarrow>
   (started (run [EvMessage \<lparr>toolCall = None, audioData = Inline b1\<rparr> t1,
                  EvMessage \<lparr>toolCall = None, audioData = Inline b2\<rparr> t2,
                  EvMessage \<lparr>toolCall = None, audioData = Inline b3\<rparr> t3] s) =
      started s @ [(0, B1), (duration B1, B2), (duration B1 + duration B2, B3)] \<and>
    0 \<le> duration B1 \<and> 0 \<le> duration B2 \<and> 0 \<le> duration B3)"
proof (rule impI)
  assume h: "isConnected s \<and> outputAudioContext s \<and> nextStartTime s = 0 \<and>
    pcmToAudioBuffer b1 OUTPUT_SAMPLE_RATE = Inr B1 \<and>
    pcmToAudioBuffer b2 OUTPUT_SAMPLE_RATE = Inr B2 \<and>
    pcmToAudioBuffer b3 OUTPUT_SAMPLE_RATE = Inr B3 \<and>
    t1 \<le> nextStartTime s \<and>
    t2 \<le> nextStartTime (run [EvMessage \<lparr>toolCall = None, audioData = Inline b1\<rparr> t1] s) \<and>
    t3 \<le> nextStartTime (run [EvMessage \<lparr>toolCall = None, audioData = Inline b1\<rparr> t1,
                               EvMessage \<lparr>toolCall = None, audioData = Inline b2\<rparr> t2] s)"
  from h have c: "isConnected s" "outputAudioContext s" "nextStartTime s = 0"
    by blast+
  from h have b: "pcmToAudioBuffer b1 OUTPUT_SAMPLE_RATE = Inr B1"
    "pcmToAudioBuffer b2 OUTPUT_SAMPLE_RATE = Inr B2"
    "pcmToAudioBuffer b3 OUTPUT_SAMPLE_RATE = Inr B3"
    by blast+
  from h have t: "t1 \<le> nextStartTime s"
    "t2 \<le> nextStartTime (step (EvMessage \<lparr>toolCall = None, audioData = Inline b1\<rparr> t1) s)"
    "t3 \<le> nextStartTime (step (EvMessage \<lparr>toolCall = None, audioData = Inline b2\<rparr> t2)
            (step (EvMessage \<lparr>toolCall = None, audioData = Inline b1\<rparr> t1) s))"
    unfolding run.simps by blast+
  from three_blocks [of "\<lambda>b t. step (EvMessage \<lparr>toolCall = None, audioData = Inline b\<rparr> t)", OF audio_message c b t]
  have "started (run [EvMessage \<lparr>toolCall = None, audioData = Inline b1\<rparr> t1,
                  EvMessage \<lparr>toolCall = None, audioData = Inline b2\<rparr> t2,
                  EvMessage \<lparr>toolCall = None, audioData = Inline b3\<rparr> t3] s) =
      started s @ [(0, B1), (duration B1, B2), (duration B1 + duration B2, B3)]"
    unfolding run.simps by (rule conjunct1)
  moreover from b have "0 \<le> duration B1" "0 \<le> duration B2" "0 \<le> duration B3"
    using pcmToAudioBuffer_Inr by blast+
  ultimately show "started (run [EvMessage \<lparr>toolCall = None, audioData = Inline b1\<rparr> t1,
                  EvMessage \<lparr>toolCall = None, audioData = Inline b2\<rparr> t2,
                  EvMessage \<lparr>toolCall = None, audioData = Inline b3\<rparr> t3] s) =
      started s @ [(0, B1), (duration B1, B2), (duration B1 + duration B2, B3)] \<and>
    0 \<le> duration B1 \<and> 0 \<le> duration B2 \<and> 0 \<le> duration B3"
    by (intro conjI)
qed

lemma three_messages_wl:
  "(isConnected w \<and> outputAudioContext w \<and> nextStartTime w = 0 \<and>
    pcmToAudioBuffer b1 OUTPUT_SAMPLE_RATE = Inr B1 \<and>
    pcmToAudioBuffer b2 OUTPUT_SAMPLE_RATE = Inr B2 \<and>
    pcmToAudioBuffer b3 OUTPUT_SAMPLE_RATE = Inr B3 \<and>
    u1 \<le> nextStartTime w \<and>
    u2 \<le> nextStartTime (run_wl [EvMessage_wl \<lparr>toolCall = None, audioData = Inline b1\<rparr> u1] w) \<and>
    u3 \<le> nextStartTime (run_wl [EvMessage_wl \<lparr>toolCall = None, audioData = Inline b1\<rparr> u1,
                               EvMessage_wl \<lparr>toolCall = None, audioData = Inline b2\<rparr> u2] w)) \<longrightarrow>
   (started (run_wl [EvMessage_wl \<lparr>toolCall = None, audioData = Inline b1\<rparr> u1,
                  EvMessage_wl \<lparr>toolCall = None, audioData = Inline b2\<rparr> u2,
                  EvMessage_wl \<lparr>toolCall = None, audioData = Inline b3\<rparr> u3] w) =
      started w @ [(0, B1), (duration B1, B2), (duration B1 + duration B2, B3)] \<and>
    0 \<le> duration B1 \<and> 0 \<le> duration B2 \<and> 0 \<le> duration B3)"
proof (rule impI)
  assume h: "isConnected w \<and> outputAudioContext w \<and> nextStartTime w = 0 \<and>
    pcmToAudioBuffer b1 OUTPUT_SAMPLE_RATE = Inr B1 \<and>
    pcmToAudioBuffer b2 OUTPUT_SAMPLE_RATE = Inr B2 \<and>
    pcmToAudioBuffer b3 OUTPUT_SAMPLE_RATE = Inr B3 \<and>
    u1 \<le> nextStartTime w \<and>
    u2 \<le> nextStartTime (run_wl [EvMessage_wl \<lparr>toolCall = None, audioData = Inline b1\<rparr> u1] w) \<and>
    u3 \<le> nextStartTime (run_wl [EvMessage_wl \<lparr>toolCall = None, audioData = Inline b1\<rparr> u1,
                               EvMessage_wl \<lparr>toolCall = None, audioData = Inline b2\<rparr> u2] w)"
  from h have c: "isConnected w" "outputAudioContext w" "nextStartTime w = 0"
    by blast+
  from h have b: "pcmToAudioBuffer b1 OUTPUT_SAMPLE_RATE = Inr B1"
    "pcmToAudioBuffer b2 OUTPUT_SAMPLE_RATE = Inr B2"
    "pcmToAudioBuffer b3 OUTPUT_SAMPLE_RATE = Inr B3"
    by blast+
  from h have t: "u1 \<le> nextStartTime w"
    "u2 \<le> nextStartTime (step_wl (EvMessage_wl \<lparr>toolCall = None, audioData = Inline b1\<rparr> u1) w)"
    "u3 \<le> nextStartTime (step_wl (EvMessage_wl \<lparr>toolCall = None, audioData = Inline b2\<rparr> u2)
            (step_wl (EvMessage_wl \<lparr>toolCall = None, audioData = Inline b1\<rparr> u1) w))"
    unfolding run_wl.simps by blast+
  from three_blocks [of "\<lambda>b t. step_wl (EvMessage_wl \<lparr>toolCall = None, audioData = Inline b\<rparr> t)", OF audio_message_wl c b t]
  have "started (run_wl [EvMessage_wl \<lparr>toolCall = None, audioData = Inline b1\<rparr> u1,
                  EvMessage_wl \<lparr>toolCall = None, audioData = Inline b2\<rparr> u2,
                  EvMessage_wl \<lparr>toolCall = None, audioData = Inline b3\<rparr> u3] w) =
      started w @ [(0, B1), (duration B1, B2), (duration B1 + duration B2, B3)]"
    unfolding run_wl.simps by (rule conjunct1)
  moreover from b have "0 \<le> duration B1" "0 \<le> duration B2" "0 \<le> duration B3"
    using pcmToAudioBuffer_Inr by blast+
  ultimately show "started (run_wl [EvMessage_wl \<lparr>toolCall = None, audioData = Inline b1\<rparr> u1,
                  EvMessage_wl \<lparr>toolCall = None, audioData = Inline b2\<rparr> u2,
                  EvMessage_wl \<lparr>toolCall = None, audioData = Inline b3\<rparr> u3] w) =
      started w @ [(0, B1), (duration B1, B2), (duration B1 + duration B2, B3)] \<and>
    0 \<le> duration B1 \<and> 0 \<le> duration B2 \<and> 0 \<le> duration B3"
    by (intro conjI)
qed

text \<open>
  C4. In either variant, let three audio messages arrive at a connected service with an
  output context, the cursor \<open>nextStartTime\<close> being 0 and the output clock, each time, not
  ahead of the cursor. Then the three blocks are started at \<open>0\<close>, \<open>d1\<close> and \<open>d1 + d2\<close>,
  where \<open>d1, d2, d3\<close> are their durations, none of them negative: each block starts where
  the one before it ends. And no event of the service, an inbound audio message in
  particular, ever moves the cursor backwards.
\<close>

theorem playback_schedule:
  "((isConnected s \<and> outputAudioContext s \<and> nextStartTime s = 0 \<and>
    pcmToAudioBuffer b1 OUTPUT_SAMPLE_RATE = Inr B1 \<and>
    pcmToAudioBuffer b2 OUTPUT_SAMPLE_RATE = Inr B2 \<and>
    pcmToAudioBuffer b3 OUTPUT_SAMPLE_RATE = Inr B3 \<and>
    t1 \<le> nextStartTime s \<and>
    t2 \<le> nextStartTime (run [EvMessage \<lparr>toolCall = None, audioData = Inline b1\<rparr> t1] s) \<and>
    t3 \<le> nextStartTime (run [EvMessage \<lparr>toolCall = None, audioData = Inline b1\<rparr> t1,
                               EvMessage \<lparr>toolCall = None, audioData = Inline b2\<rparr> t2] s)) \<longrightarrow>
    (started (run [EvMessage \<lparr>toolCall = None, audioData = Inline b1\<rparr> t1,
                  EvMessage \<lparr>toolCall = None, audioData = Inline b2\<rparr> t2,
                  EvMessage \<lparr>toolCall = None, audioData = Inline b3\<rparr> t3] s) =
      started s @ [(0, B1), (duration B1, B2), (duration B1 + duration B2, B3)] \<and>
    0 \<le> duration B1 \<and> 0 \<le> duration B2 \<and> 0 \<le> duration B3)) \<and>
   ((isConnected w \<and> outputAudioContext w \<and> nextStartTime w = 0 \<and>
    pcmToAudioBuffer b1 OUTPUT_SAMPLE_RATE = Inr B1 \<and>
    pcmToAudioBuffer b2 OUTPUT_SAMPLE_RATE = Inr B2 \<and>
    pcmToAudioBuffer b3 OUTPUT_SAMPLE_RATE = Inr B3 \<and>
    u1 \<le> nextStartTime w \<and>
    u2 \<le> nextStartTime (run_wl [EvMessage_wl \<lparr>toolCall = None, audioData = Inline b1\<rparr> u1] w) \<and>
    u3 \<le> nextStartTime (run_wl [EvMessage_wl \<lparr>toolCall = None, audioData = Inline b1\<rparr> u1,
                               EvMessage_wl \<lparr>toolCall = None, audioData = Inline b2\<rparr> u2] w)) \<longrightarrow>
    (started (run_wl [EvMessage_wl \<lparr>toolCall = None, audioData = Inline b1\<rparr> u1,
                  EvMessage_wl \<lparr>toolCall = None, audioData = Inline b2\<rparr> u2,
                  EvMessage_wl \<lparr>toolCall = None, audioData = Inline b3\<rparr> u3] w) =
      started w @ [(0, B1), (duration B1, B2), (duration B1 + duration B2, B3)] \<and>
    0 \<le> duration B1 \<and> 0 \<le> duration B2 \<and> 0 \<le> duration B3)) \<and>
   nextStartTime s' \<le> nextStartTime (step e s') \<and>
   nextStartTime w' \<le> nextStartTime (step_wl e' w')"
  by (intro conjI three_messages three_messages_wl step_cursor step_wl_cursor)

lemma pcm_zero_block:
  "pcmToAudioBuffer [0, 0] OUTPUT_SAMPLE_RATE = Inr \<lparr>channelData = [0], sampleRate = 24000\<rparr>"
  "pcmToAudioBuffer [0, 0, 0, 0] OUTPUT_SAMPLE_RATE = Inr \<lparr>channelData = [0, 0], sampleRate = 24000\<rparr>"
  by (simp_all add: pcmToAudioBuffer_def OUTPUT_SAMPLE_RATE_def getInt16_def decode_sample_def)

theorem playback_schedule_witness:
  "started (run [EvMessage \<lparr>toolCall = None, audioData = Inline [0, 0]\<rparr> 0,
                 EvMessage \<lparr>toolCall = None, audioData = Inline [0, 0, 0, 0]\<rparr> 0,
                 EvMessage \<lparr>toolCall = None, audioData = Inline [0, 0]\<rparr> (1 / 24000)]
              (run [EvConnect, EvGotUserMedia, EvOpen] (new_LiveService []))) =
     [(0, \<lparr>channelData = [0], sampleRate = 24000\<rparr>),
      (1 / 24000, \<lparr>channelData = [0, 0], sampleRate = 24000\<rparr>),
      (1 / 24000 + 2 / 24000, \<lparr>channelData = [0], sampleRate = 24000\<rparr>)] \<and>
   started (run_wl [EvMessage_wl \<lparr>toolCall = None, audioData = Inline [0, 0]\<rparr> 0,
                    EvMessage_wl \<lparr>toolCall = None, audioData = Inline [0, 0, 0, 0]\<rparr> 0,
                    EvMessage_wl \<lparr>toolCall = None, audioData = Inline [0, 0]\<rparr> (1 / 24000)]
              (run_wl [EvConnect_wl, EvGotUserMedia_wl, EvAdopt_wl] (new_LiveService_wl []))) =
     [(0, \<lparr>channelData = [0], sampleRate = 24000\<rparr>),
      (1 / 24000, \<lparr>channelData = [0, 0], sampleRate = 24000\<rparr>),
      (1 / 24000 + 2 / 24000, \<lparr>channelData = [0], sampleRate = 24000\<rparr>)]"
proof -
  define s where "s = run [EvConnect, EvGotUserMedia, EvOpen] (new_LiveService [])"
  define w where "w = run_wl [EvConnect_wl, EvGotUserMedia_wl, EvAdopt_wl] (new_LiveService_wl [])"
  define B1 where "B1 = \<lparr>channelData = [0 :: real], sampleRate = 24000\<rparr>"
  define B2 where "B2 = \<lparr>channelData = [0, 0 :: real], sampleRate = 24000\<rparr>"
  have cs: "isConnected s" "outputAudioContext s" "nextStartTime s = 0"
    unfolding s_def connected_example by (simp_all add: new_LiveService_def)
  have es: "started s = []"
    unfolding s_def connected_example by (simp add: new_LiveService_def)
  have cw: "isConnected w" "outputAudioContext w" "nextStartTime w = 0"
    unfolding w_def connected_example_wl by (simp_all add: new_LiveService_wl_def)
  have ew: "started w = []"
    unfolding w_def connected_example_wl by (simp add: new_LiveService_wl_def)
  have pb: "pcmToAudioBuffer [0, 0] OUTPUT_SAMPLE_RATE = Inr B1"
    "pcmToAudioBuffer [0, 0, 0, 0] OUTPUT_SAMPLE_RATE = Inr B2"
    unfolding B1_def B2_def by (rule pcm_zero_block)+
  have d: "duration B1 = 1 / 24000" "duration B2 = 2 / 24000"
    by (simp_all add: duration_def B1_def B2_def)
  have s1: "nextStartTime (run [EvMessage \<lparr>toolCall = None, audioData = Inline [0, 0]\<rparr> 0] s) = 1 / 24000"
    by (simp add: audio_message [OF cs(1,2) pb(1)] cs(3) d)
  have s2: "nextStartTime (run [EvMessage \<lparr>toolCall = None, audioData = Inline [0, 0]\<rparr> 0,
              EvMessage \<lparr>toolCall = None, audioData = Inline [0, 0, 0, 0]\<rparr> 0] s) = 3 / 24000"
    using cs by (simp add: audio_message [OF cs(1,2) pb(1)] audio_message [OF _ _ pb(2)] d)
  have w1: "nextStartTime (run_wl [EvMessage_wl \<lparr>toolCall = None, audioData = Inline [0, 0]\<rparr> 0] w) = 1 / 24000"
    by (simp add: audio_message_wl [OF cw(1,2) pb(1)] cw(3) d)
  have w2: "nextStartTime (run_wl [EvMessage_wl \<lparr>toolCall = None, audioData = Inline [0, 0]\<rparr> 0,
              EvMessage_wl \<lparr>toolCall = None, audioData = Inline [0, 0, 0, 0]\<rparr> 0] w) = 3 / 24000"
    using cw by (simp add: audio_message_wl [OF cw(1,2) pb(1)] audio_message_wl [OF _ _ pb(2)] d)
  note p = playback_schedule [of s "[0, 0]" B1 "[0, 0, 0, 0]" B2 "[0, 0]" B1 0 0 "1 / 24000"
      w 0 0 "1 / 24000"]
  have hs: "isConnected s \<and> outputAudioContext s \<and> nextStartTime s = 0 \<and>
    pcmToAudioBuffer [0, 0] OUTPUT_SAMPLE_RATE = Inr B1 \<and>
    pcmToAudioBuffer [0, 0, 0, 0] OUTPUT_SAMPLE_RATE = Inr B2 \<and>
    pcmToAudioBuffer [0, 0] OUTPUT_SAMPLE_RATE = Inr B1 \<and>
    0 \<le> nextStartTime s \<and>
    0 \<le> nextStartTime (run [EvMessage \<lparr>toolCall = None, audioData = Inline [0, 0]\<rparr> 0] s) \<and>
    1 / 24000 \<le> nextStartTime (run [EvMessage \<lparr>toolCall = None, audioData = Inline [0, 0]\<rparr> 0,
                               EvMessage \<lparr>toolCall = None, audioData = Inline [0, 0, 0, 0]\<rparr> 0] s)"
    unfolding s1 s2 using cs pb by simp
  have hw: "isConnected w \<and> outputAudioContext w \<and> nextStartTime w = 0 \<and>
    pcmToAudioBuffer [0, 0] OUTPUT_SAMPLE_RATE = Inr B1 \<and>
    pcmToAudioBuffer [0, 0, 0, 0] OUTPUT_SAMPLE_RATE = Inr B2 \<and>
    pcmToAudioBuffer [0, 0] OUTPUT_SAMPLE_RATE = Inr B1 \<and>
    0 \<le> nextStartTime w \<and>
    0 \<le> nextStartTime (run_wl [EvMessage_wl \<lparr>toolCall = None, audioData = Inline [0, 0]\<rparr> 0] w) \<and>
    1 / 24000 \<le> nextStartTime (run_wl [EvMessage_wl \<lparr>toolCall = None, audioData = Inline [0, 0]\<rparr> 0,
                               EvMessage_wl \<lparr>toolCall = None, audioData = Inline [0, 0, 0, 0]\<rparr> 0] w)"
    unfolding w1 w2 using cw pb by simp
  from p [THEN conjunct1, THEN mp, OF hs]
  have a: "started (run [EvMessage \<lparr>toolCall = None, audioData = Inline [0, 0]\<rparr> 0,
                 EvMessage \<lparr>toolCall = None, audioData = Inline [0, 0, 0, 0]\<rparr> 0,
                 EvMessage \<lparr>toolCall = None, audioData = Inline [0, 0]\<rparr> (1 / 24000)] s) =
     started s @ [(0, B1), (duration B1, B2), (duration B1 + duration B2, B1)]"
    by (rule conjunct1)
  from p [THEN conjunct2, THEN conjunct1, THEN mp, OF hw]
  have b: "started (run_wl [EvMessage_wl \<lparr>toolCall = None, audioData = Inline [0, 0]\<rparr> 0,
                    EvMessage_wl \<lparr>toolCall = None, audioData = Inline [0, 0, 0, 0]\<rparr> 0,
                    EvMessage_wl \<lparr>toolCall = None, audioData = Inline [0, 0]\<rparr> (1 / 24000)] w) =
     started w @ [(0, B1), (duration B1, B2), (duration B1 + duration B2, B1)]"
    by (rule conjunct1)
  show ?thesis
    using a b unfolding es ew d append_Nil unfolding s_def w_def B1_def B2_def
    by (rule conjI)
qed

section \<open>The guard flag and tool results\<close>

text \<open>
  A tool result is sent only by a step that starts with the guard flag \<open>isConnected\<close>
  set. In a state where the flag is cleared no event, the completion of a pending handler
  and the run of a registered callback included, sends a \<open>ToolResult\<close>, and the flag stays
  cleared until the service connects again (\<open>handleOpen\<close>; \<open>connect\<close> of the worklet
  variant).
\<close>

lemma handleAudioResponse_frame:
  "isConnected (catch_processing s (handleAudioResponse audio t s)) = isConnected s \<and>
   toolResponses (catch_processing s (handleAudioResponse audio t s)) = toolResponses s"
  by (cases audio)
     (simp_all add: handleAudioResponse_def catch_processing_def console_line_def Let_def
       split: sum.splits)

lemma toolCallLoop_frame:
  "isConnected (toolCallLoop fcs audio t s) = isConnected s \<and>
   toolResponses (toolCallLoop fcs audio t s) = toolResponses s"
proof (induction fcs arbitrary: s)
  case Nil
  show ?case by (simp add: handleAudioResponse_frame)
next
  case (Cons fc fcs)
  have f: "isConnected (sendResponseBack fc r u) = isConnected u \<and>
           toolResponses (sendResponseBack fc r u) = toolResponses u" for r u
    by (simp add: sendResponseBack_def suspend_def)
  show ?case
    by (simp add: Cons.IH f Let_def console_line_def suspend_def onLog_def split: call_args.splits)
qed

lemma step_quiet:
  assumes "\<not> isConnected s"
  shows "toolResponses (step e s) = toolResponses s \<and> (e \<noteq> EvOpen \<longrightarrow> \<not> isConnected (step e s))"
proof (cases e)
  case (EvRun n t)
  let ?s = "s\<lparr>pending := take n (pending s) @ drop (Suc n) (pending s)\<rparr>"
  have q: "\<not> isConnected ?s" "toolResponses ?s = toolResponses s" using assms by simp_all
  have "toolResponses (run_task k t ?s) = toolResponses ?s \<and> \<not> isConnected (run_task k t ?s)" for k
  proof (cases k)
    case (AwaitSearch fc query fcs audio)
    have f: "isConnected (sendResponseBack fc r u) = isConnected u \<and>
             toolResponses (sendResponseBack fc r u) = toolResponses u" for r u
      by (simp add: sendResponseBack_def suspend_def)
    show ?thesis
      using q(1) AwaitSearch
      by (simp add: run_task_def toolCallLoop_frame f console_line_def onLog_def Let_def
          split: sum.splits)
  qed (use q(1) in \<open>simp_all add: run_task_def disconnect_output_def disconnect_session_def
        disconnect_end_def suspend_def release_def onStatusChange_def onLog_def Let_def\<close>)
  then show ?thesis using EvRun q by (simp add: step_def)
qed (use assms in \<open>simp_all add: step_def connect_def connect_gotUserMedia_def connect_failed_def
      disconnect_eq handleOpen_def startAudioStreaming_def handleClose_def handleError_def
      handleMessage_def onaudioprocess_def onLog_def onStatusChange_def console_line_def Let_def\<close>)

lemma run_quiet:
  assumes "\<not> isConnected s" "EvOpen \<notin> set evs"
  shows "toolResponses (run evs s) = toolResponses s \<and> \<not> isConnected (run evs s)"
  using assms
proof (induction evs arbitrary: s)
  case Nil
  then show ?case by simp
next
  case (Cons e evs)
  from Cons.prems have ne: "e \<noteq> EvOpen" "EvOpen \<notin> set evs" by auto
  from step_quiet [OF Cons.prems(1), of e] ne
  have q: "toolResponses (step e s) = toolResponses s" "\<not> isConnected (step e s)" by simp_all
  from Cons.IH [OF q(2) ne(2)] q(1) show ?case by simp
qed

lemma respond_wl_disconnected: "\<not> isConnected s \<Longrightarrow> respond_wl fc r s = s"
  by (simp add: respond_wl_def)

lemma toolCallLoop_wl_quiet:
  assumes "\<not> isConnected s"
  shows "\<not> isConnected (toolCallLoop_wl fcs audio t s) \<and>
         toolResponses (toolCallLoop_wl fcs audio t s) = toolResponses s"
  using assms
proof (induction fcs arbitrary: s)
  case Nil
  then show ?case by (simp add: handleAudioResponse_frame)
next
  case (Cons fc fcs)
  have a: "\<not> isConnected (onLog Tool m s)" "toolResponses (onLog Tool m s) = toolResponses s" for m
    using Cons.prems by (simp_all add: onLog_def)
  show ?case
    using Cons.prems Cons.IH [OF Cons.prems] Cons.IH [OF a(1)] a(2)
    by (simp add: respond_wl_disconnected a(1) Let_def console_line_def suspend_wl_def
        split: call_args.splits)
qed

lemma step_wl_quiet:
  assumes "\<not> isConnected s"
  shows "toolResponses (step_wl e s) = toolResponses s \<and>
         (e \<noteq> EvConnect_wl \<longrightarrow> \<not> isConnected (step_wl e s))"
proof (cases e)
  case (EvRun_wl n t)
  let ?s = "s\<lparr>pending_wl := take n (pending_wl s) @ drop (Suc n) (pending_wl s)\<rparr>"
  have q: "\<not> isConnected ?s" "toolResponses ?s = toolResponses s" using assms by simp_all
  have "toolResponses (run_task_wl k t ?s) = toolResponses ?s \<and> \<not> isConnected (run_task_wl k t ?s)" for k
  proof (cases k)
    case (AwaitSearch_wl fc query fcs audio)
    then show ?thesis
      using toolCallLoop_wl_quiet [OF q(1), of fcs audio t]
      by (simp add: run_task_wl_def respond_wl_disconnected [OF q(1)])
  qed (use q(1) in \<open>simp_all add: run_task_wl_def disconnect_output_wl_def disconnect_end_wl_def
        suspend_wl_def release_def onLog_def\<close>)
  then show ?thesis using EvRun_wl q by (simp add: step_wl_def)
qed (use assms in \<open>simp_all add: step_wl_def connect_wl_def connect_gotUserMedia_wl_def
      connect_adopt_wl_def handleConnectionError_def disconnect_wl_eq handleOpen_wl_def
      handleClose_wl_def handleError_wl_def handleMessage_wl_def onmessage_wl_def
      onLog_def onStatusChange_def console_line_def Let_def\<close>)

lemma run_wl_quiet:
  assumes "\<not> isConnected s" "EvConnect_wl \<notin> set evs"
  shows "toolResponses (run_wl evs s) = toolResponses s \<and> \<not> isConnected (run_wl evs s)"
  using assms
proof (induction evs arbitrary: s)
  case Nil
  then show ?case by simp
next
  case (Cons e evs)
  from Cons.prems have ne: "e \<noteq> EvConnect_wl" "EvConnect_wl \<notin> set evs" by auto
  from step_wl_quiet [OF Cons.prems(1), of e] ne
  have q: "toolResponses (step_wl e s) = toolResponses s" "\<not> isConnected (step_wl e s)" by simp_all
  from Cons.IH [OF q(2) ne(2)] q(1) show ?case by simp
qed


text \<open>
  The flag is the only guard, and it does not tell one session from the next. Below, in
  either variant, a search is pending when the toggle disconnects the session; the
  teardown completes, the toggle connects again, and the search then completes: its
  result is sent to the new session.
\<close>

lemma stale_result_after_reconnect:
  "pending (run [EvRun 1 0, EvRun 1 0, EvRun 1 0]
        (handleConnectToggle True
           (run [EvGotUserMedia, EvOpen,
                 EvMessage \<lparr>toolCall = Some [\<lparr>fc_id = ''7'', fc_name = ''google_search'',
                   fc_args = Args (Str ''rates'')\<rparr>], audioData = NoAudio\<rparr> 0]
              (handleConnectToggle True (new_LiveService []))))) =
     [AwaitSearch \<lparr>fc_id = ''7'', fc_name = ''google_search'', fc_args = Args (Str ''rates'')\<rparr>
        (Str ''rates'') [] NoAudio] \<and>
   connectionState (run [EvRun 1 0, EvRun 1 0, EvRun 1 0]
        (handleConnectToggle True
           (run [EvGotUserMedia, EvOpen,
                 EvMessage \<lparr>toolCall = Some [\<lparr>fc_id = ''7'', fc_name = ''google_search'',
                   fc_args = Args (Str ''rates'')\<rparr>], audioData = NoAudio\<rparr> 0]
              (handleConnectToggle True (new_LiveService []))))) = DISCONNECTED \<and>
   \<not> isConnected (run [EvRun 1 0, EvRun 1 0, EvRun 1 0]
        (handleConnectToggle True
           (run [EvGotUserMedia, EvOpen,
                 EvMessage \<lparr>toolCall = Some [\<lparr>fc_id = ''7'', fc_name = ''google_search'',
                   fc_args = Args (Str ''rates'')\<rparr>], audioData = NoAudio\<rparr> 0]
              (handleConnectToggle True (new_LiveService []))))) \<and>
   toolResponses (run [EvGotUserMedia, EvOpen, EvRun 0 0, EvRun 0 0]
     (handleConnectToggle True
       (run [EvRun 1 0, EvRun 1 0, EvRun 1 0]
        (handleConnectToggle True
           (run [EvGotUserMedia, EvOpen,
                 EvMessage \<lparr>toolCall = Some [\<lparr>fc_id = ''7'', fc_name = ''google_search'',
                   fc_args = Args (Str ''rates'')\<rparr>], audioData = NoAudio\<rparr> 0]
              (handleConnectToggle True (new_LiveService []))))))) =
     [\<lparr>resp_id = ''7'', resp_name = ''google_search'', resp_result = SearchText
         ''Current 30-year fixed mortgage rates are around 7.2%. Fed interest rates are held steady at 5.25-5.50%.''\<rparr>] \<and>
   pending_wl (run_wl [EvRun_wl 1 0, EvRun_wl 1 0]
        (handleConnectToggle_wl True
           (run_wl [EvGotUserMedia_wl, EvAdopt_wl,
                 EvMessage_wl \<lparr>toolCall = Some [\<lparr>fc_id = ''7'', fc_name = ''google_search'',
                   fc_args = Args (Str ''rates'')\<rparr>], audioData = NoAudio\<rparr> 0]
              (handleConnectToggle_wl True (new_LiveService_wl []))))) =
     [AwaitSearch_wl \<lparr>fc_id = ''7'', fc_name = ''google_search'', fc_args = Args (Str ''rates'')\<rparr>
        (Str ''rates'') [] NoAudio] \<and>
   connectionState (run_wl [EvRun_wl 1 0, EvRun_wl 1 0]
        (handleConnectToggle_wl True
           (run_wl [EvGotUserMedia_wl, EvAdopt_wl,
                 EvMessage_wl \<lparr>toolCall = Some [\<lparr>fc_id = ''7'', fc_name = ''google_search'',
                   fc_args = Args (Str ''rates'')\<rparr>], audioData = NoAudio\<rparr> 0]
              (handleConnectToggle_wl True (new_LiveService_wl []))))) = DISCONNECTED \<and>
   toolResponses (run_wl [EvGotUserMedia_wl, EvAdopt_wl, EvRun_wl 0 0]
     (handleConnectToggle_wl True
       (run_wl [EvRun_wl 1 0, EvRun_wl 1 0]
        (handleConnectToggle_wl True
           (run_wl [EvGotUserMedia_wl, EvAdopt_wl,
                 EvMessage_wl \<lparr>toolCall = Some [\<lparr>fc_id = ''7'', fc_name = ''google_search'',
                   fc_args = Args (Str ''rates'')\<rparr>], audioData = NoAudio\<rparr> 0]
              (handleConnectToggle_wl True (new_LiveService_wl []))))))) =
     [\<lparr>resp_id = ''7'', resp_name = ''google_search'', resp_result = SearchText
         (''Search results for '' @ dq @ ''rates'' @ dq @ '': Recent financial data indicates stability.'')\<rparr>]"
  by (simp add: step_def step_wl_def handleConnectToggle_def handleConnectToggle_wl_def
      connect_def connect_gotUserMedia_def handleOpen_def startAudioStreaming_def
      handleMessage_def disconnect_eq run_task_def mockGoogleSearch_def toLowerCase_def
      toLowerCase_char_def str_includes_def
      disconnect_output_def disconnect_session_def disconnect_end_def
      sendResponseBack_def sendToolResponse_def suspend_def release_def
      onStatusChange_def onLog_def display_def catch_processing_def handleAudioResponse_def
      new_LiveService_def Let_def
      connect_wl_def connect_gotUserMedia_wl_def connect_adopt_wl_def startAudioStreaming_wl_def
      handleMessage_wl_def disconnect_wl_eq run_task_wl_def respond_wl_def mockGoogleSearch_wl_def
      next_outcome_def
      disconnect_output_wl_def disconnect_end_wl_def suspend_wl_def new_LiveService_wl_def)

text \<open>
  C1 does not hold of src/services/liveService.ts. Its \<open>disconnect\<close> clears the guard flag
  in its last stretch, after the awaited closes, so a handler that completes while the
  teardown is under way still finds the flag set and its result is sent. Below, a search
  is pending when the toggle of a connected session calls \<open>disconnect\<close>: the nodes, the
  tracks and the input context are released and the flag is still set; the search
  completes and the registered callback sends the \<open>ToolResult\<close> \<open>7\<close>; then the teardown
  completes and logs \<open>Disconnected.\<close>. The worklet variant, whose \<open>disconnect\<close> clears the
  flag as its first statement, sends nothing on the same events.
\<close>

theorem ToolResult_sent_during_teardown:
  "pending (run [EvGotUserMedia, EvOpen,
                 EvMessage \<lparr>toolCall = Some [\<lparr>fc_id = ''7'', fc_name = ''google_search'',
                   fc_args = Args (Str ''rates'')\<rparr>], audioData = NoAudio\<rparr> 0]
              (handleConnectToggle True (new_LiveService []))) =
     [AwaitSearch \<lparr>fc_id = ''7'', fc_name = ''google_search'', fc_args = Args (Str ''rates'')\<rparr>
        (Str ''rates'') [] NoAudio] \<and>
   connectionState (run [EvGotUserMedia, EvOpen,
                 EvMessage \<lparr>toolCall = Some [\<lparr>fc_id = ''7'', fc_name = ''google_search'',
                   fc_args = Args (Str ''rates'')\<rparr>], audioData = NoAudio\<rparr> 0]
              (handleConnectToggle True (new_LiveService []))) = CONNECTED \<and>
   toolResponses (run [EvGotUserMedia, EvOpen,
                 EvMessage \<lparr>toolCall = Some [\<lparr>fc_id = ''7'', fc_name = ''google_search'',
                   fc_args = Args (Str ''rates'')\<rparr>], audioData = NoAudio\<rparr> 0]
              (handleConnectToggle True (new_LiveService []))) = [] \<and>
   released (handleConnectToggle True
           (run [EvGotUserMedia, EvOpen,
                 EvMessage \<lparr>toolCall = Some [\<lparr>fc_id = ''7'', fc_name = ''google_search'',
                   fc_args = Args (Str ''rates'')\<rparr>], audioData = NoAudio\<rparr> 0]
              (handleConnectToggle True (new_LiveService [])))) =
     [ProcessorNode, SourceNode, MediaTracks, InputContext] \<and>
   isConnected (handleConnectToggle True
           (run [EvGotUserMedia, EvOpen,
                 EvMessage \<lparr>toolCall = Some [\<lparr>fc_id = ''7'', fc_name = ''google_search'',
                   fc_args = Args (Str ''rates'')\<rparr>], audioData = NoAudio\<rparr> 0]
              (handleConnectToggle True (new_LiveService [])))) \<and>
   toolResponses (run [EvRun 0 0, EvRun 1 0]
        (handleConnectToggle True
           (run [EvGotUserMedia, EvOpen,
                 EvMessage \<lparr>toolCall = Some [\<lparr>fc_id = ''7'', fc_name = ''google_search'',
                   fc_args = Args (Str ''rates'')\<rparr>], audioData = NoAudio\<rparr> 0]
              (handleConnectToggle True (new_LiveService []))))) =
     [\<lparr>resp_id = ''7'', resp_name = ''google_search'', resp_result = SearchText
         ''Current 30-year fixed mortgage rates are around 7.2%. Fed interest rates are held steady at 5.25-5.50%.''\<rparr>] \<and>
   logs (run [EvRun 0 0, EvRun 1 0, EvRun 0 0, EvRun 0 0, EvRun 0 0]
        (handleConnectToggle True
           (run [EvGotUserMedia, EvOpen,
                 EvMessage \<lparr>toolCall = Some [\<lparr>fc_id = ''7'', fc_name = ''google_search'',
                   fc_args = Args (Str ''rates'')\<rparr>], audioData = NoAudio\<rparr> 0]
              (handleConnectToggle True (new_LiveService []))))) =
     [(System, ''Initializing audio context...''), (System, ''Connecting to Gemini Live API...''),
      (System, ''Coach is ready. Listening...''), (System, ''Coach requesting data...''),
      (Tool, ''Searching market info: '' @ dq @ ''rates'' @ dq), (Tool, ''Found search results.''),
      (System, ''Disconnected.'')] \<and>
   \<not> isConnected (run [EvRun 0 0, EvRun 1 0, EvRun 0 0, EvRun 0 0, EvRun 0 0]
        (handleConnectToggle True
           (run [EvGotUserMedia, EvOpen,
                 EvMessage \<lparr>toolCall = Some [\<lparr>fc_id = ''7'', fc_name = ''google_search'',
                   fc_args = Args (Str ''rates'')\<rparr>], audioData = NoAudio\<rparr> 0]
              (handleConnectToggle True (new_LiveService []))))) \<and>
   toolResponses (run_wl [EvRun_wl 0 0, EvRun_wl 0 0, EvRun_wl 0 0]
        (handleConnectToggle_wl True
           (run_wl [EvGotUserMedia_wl, EvAdopt_wl,
                 EvMessage_wl \<lparr>toolCall = Some [\<lparr>fc_id = ''7'', fc_name = ''google_search'',
                   fc_args = Args (Str ''rates'')\<rparr>], audioData = NoAudio\<rparr> 0]
              (handleConnectToggle_wl True (new_LiveService_wl []))))) = [] \<and>
   pending_wl (run_wl [EvRun_wl 0 0, EvRun_wl 0 0, EvRun_wl 0 0]
        (handleConnectToggle_wl True
           (run_wl [EvGotUserMedia_wl, EvAdopt_wl,
                 EvMessage_wl \<lparr>toolCall = Some [\<lparr>fc_id = ''7'', fc_name = ''google_search'',
                   fc_args = Args (Str ''rates'')\<rparr>], audioData = NoAudio\<rparr> 0]
              (handleConnectToggle_wl True (new_LiveService_wl []))))) = []"
  by (simp add: step_def step_wl_def handleConnectToggle_def handleConnectToggle_wl_def
      connect_def connect_gotUserMedia_def handleOpen_def startAudioStreaming_def
      handleMessage_def disconnect_eq run_task_def mockGoogleSearch_def toLowerCase_def
      toLowerCase_char_def str_includes_def
      disconnect_output_def disconnect_session_def disconnect_end_def
      sendResponseBack_def sendToolResponse_def suspend_def release_def
      onStatusChange_def onLog_def display_def catch_processing_def handleAudioResponse_def
      new_LiveService_def Let_def
      connect_wl_def connect_gotUserMedia_wl_def connect_adopt_wl_def startAudioStreaming_wl_def
      handleMessage_wl_def disconnect_wl_eq run_task_wl_def respond_wl_def
      disconnect_output_wl_def disconnect_end_wl_def suspend_wl_def new_LiveService_wl_def)

section \<open>Connecting and disconnecting twice\<close>

lemma disconnect_wl_torn_down:
  assumes "\<not> inputAudioContext s" "\<not> outputAudioContext s"
  shows "logs (disconnect_wl s) = logs s @ [(System, ''Disconnected.'')]"
  using assms by (simp add: disconnect_wl_eq)

lemma disconnect_after_teardown: "disconnect (disconnect_end s) = disconnect_end s"
  by (simp add: disconnect_def disconnect_end_def onStatusChange_def onLog_def Let_def)

text \<open>
  C5 does not hold of the worklet variant, whose \<open>disconnect\<close> has no guard. From a
  connected service, a first call and its awaited closes tear everything down and log
  \<open>Disconnected.\<close>; a second call releases nothing more, but notifies the status again and
  logs \<open>Disconnected.\<close> a second time.
\<close>

theorem disconnect_wl_twice_logs_twice:
  "logs (run_wl [EvDisconnect_wl, EvRun_wl 0 0, EvRun_wl 0 0]
           (run_wl [EvConnect_wl, EvGotUserMedia_wl, EvAdopt_wl] (new_LiveService_wl []))) =
     [(System, ''Initializing audio context...''), (System, ''Connecting to Gemini Live API...''),
      (System, ''Disconnected.'')] \<and>
   pending_wl (run_wl [EvDisconnect_wl, EvRun_wl 0 0, EvRun_wl 0 0]
           (run_wl [EvConnect_wl, EvGotUserMedia_wl, EvAdopt_wl] (new_LiveService_wl []))) = [] \<and>
   logs (run_wl [EvDisconnect_wl, EvRun_wl 0 0, EvRun_wl 0 0, EvDisconnect_wl]
           (run_wl [EvConnect_wl, EvGotUserMedia_wl, EvAdopt_wl] (new_LiveService_wl []))) =
     [(System, ''Initializing audio context...''), (System, ''Connecting to Gemini Live API...''),
      (System, ''Disconnected.''), (System, ''Disconnected.'')] \<and>
   released (run_wl [EvDisconnect_wl, EvRun_wl 0 0, EvRun_wl 0 0, EvDisconnect_wl]
           (run_wl [EvConnect_wl, EvGotUserMedia_wl, EvAdopt_wl] (new_LiveService_wl []))) =
     [WorkletNode, SourceNode, MediaTracks, InputContext, OutputContext]"
  unfolding connected_example_wl
  by (simp add: step_wl_def disconnect_wl_eq run_task_wl_def disconnect_output_wl_def
      disconnect_end_wl_def suspend_wl_def release_def onLog_def new_LiveService_wl_def)

text \<open>
  C6, as stated, fails for \<open>connect\<close> of src/services/liveService.ts, whose guard reads
  a flag that is set only when the session opens. After the toggle has started a
  connection the state is \<open>CONNECTING\<close> and the flag is still false: \<open>connect\<close> called in
  that state logs and acquires again, and called after the stream has been granted it
  opens a second session.
\<close>

theorem connect_while_connecting_counterexample:
  "connectionState (handleConnectToggle True (new_LiveService [])) = CONNECTING \<and>
   \<not> isConnected (handleConnectToggle True (new_LiveService [])) \<and>
   logs (handleConnectToggle True (new_LiveService [])) =
     [(System, ''Initializing audio context...'')] \<and>
   logs (connect (handleConnectToggle True (new_LiveService []))) =
     [(System, ''Initializing audio context...''), (System, ''Initializing audio context...'')] \<and>
   connect (handleConnectToggle True (new_LiveService [])) \<noteq>
     handleConnectToggle True (new_LiveService []) \<and>
   connectionState (connect_gotUserMedia (handleConnectToggle True (new_LiveService []))) = CONNECTING \<and>
   logs (connect_gotUserMedia (connect (connect_gotUserMedia
           (handleConnectToggle True (new_LiveService []))))) =
     [(System, ''Initializing audio context...''), (System, ''Connecting to Gemini Live API...''),
      (System, ''Initializing audio context...''), (System, ''Connecting to Gemini Live API...'')]"
proof -
  have s: "handleConnectToggle True (new_LiveService []) =
      (new_LiveService [])\<lparr>connectionState := CONNECTING, inputAudioContext := True,
        logs := [(System, ''Initializing audio context...'')]\<rparr>"
    by (simp add: handleConnectToggle_def connect_def onLog_def new_LiveService_def)
  have ne: "logs (connect (handleConnectToggle True (new_LiveService []))) \<noteq>
            logs (handleConnectToggle True (new_LiveService []))"
    unfolding s by (simp add: connect_def onLog_def new_LiveService_def)
  then have "connect (handleConnectToggle True (new_LiveService [])) \<noteq>
     handleConnectToggle True (new_LiveService [])"
    by metis
  then show ?thesis
    unfolding s by (simp add: connect_def connect_gotUserMedia_def onLog_def new_LiveService_def Let_def)
qed

text \<open>
  C6, amended. \<open>connect\<close> is a no-op whenever the guard flag \<open>isConnected\<close> is set: it
  returns the service as it is, so it acquires nothing, opens no transport, logs nothing
  and changes no state. In the worklet variant \<open>connect\<close> sets the flag before its first
  await and the later steps of connecting keep it, so the flag is set throughout
  Connecting and Connected. In liveService.ts the flag is set by \<open>handleOpen\<close>, so it is
  set in the Connected state; while Connecting it is the presentation layer that issues
  no second \<open>connect\<close>: a press of the button does nothing while the connection state is
  \<open>CONNECTING\<close>, the toggle calls \<open>connect\<close> only in the state \<open>DISCONNECTED\<close> (in any other
  state it calls \<open>disconnect\<close>, or logs that the key is missing), the toggle sets
  \<open>CONNECTING\<close> when it starts a connection, and granting the stream leaves that state as
  it is.
\<close>

theorem connect_noop_when_flag_set:
  "(isConnected s \<longrightarrow> connect s = s) \<and>
   (isConnected w \<longrightarrow> connect_wl w = w) \<and>
   isConnected (connect_wl w') \<and>
   (isConnected w \<longrightarrow> isConnected (connect_gotUserMedia_wl w) \<and> isConnected (connect_adopt_wl w) \<and>
      isConnected (handleOpen_wl w)) \<and>
   isConnected (handleOpen s') \<and>
   (connectionState c = CONNECTING \<longrightarrow> onClick h c = c) \<and>
   (connectionState d \<noteq> DISCONNECTED \<longrightarrow>
      handleConnectToggle h d =
        (if h then disconnect d else onLog System ''Cannot connect: API Key is missing.'' d)) \<and>
   (connectionState i = DISCONNECTED \<and> \<not> isConnected i \<longrightarrow>
      connectionState (onClick True i) = CONNECTING \<and>
      connectionState (connect_gotUserMedia (onClick True i)) = CONNECTING)"
proof (intro conjI impI)
  show "isConnected (connect_wl w')"
    by (simp add: connect_wl_def onStatusChange_def onLog_def Let_def)
  show "isConnected (handleOpen s')"
    by (simp add: handleOpen_def startAudioStreaming_def onStatusChange_def onLog_def Let_def)
next
  assume "isConnected s"
  then show "connect s = s" by (simp add: connect_def)
next
  assume "isConnected w"
  then show "connect_wl w = w" by (simp add: connect_wl_def)
next
  assume a: "isConnected w"
  from a show "isConnected (connect_gotUserMedia_wl w)"
    by (simp add: connect_gotUserMedia_wl_def onLog_def)
  from a show "isConnected (connect_adopt_wl w)"
    by (simp add: connect_adopt_wl_def startAudioStreaming_wl_def)
  from a show "isConnected (handleOpen_wl w)"
    by (simp add: handleOpen_wl_def onLog_def)
next
  assume "connectionState c = CONNECTING"
  then show "onClick h c = c" by (simp add: onClick_def disabled_def)
next
  assume "connectionState d \<noteq> DISCONNECTED"
  then show "handleConnectToggle h d =
        (if h then disconnect d else onLog System ''Cannot connect: API Key is missing.'' d)"
    by (simp add: handleConnectToggle_def)
next
  assume a: "connectionState i = DISCONNECTED \<and> \<not> isConnected i"
  then have o: "onClick True i =
      (onLog System ''Initializing audio context...'' (i\<lparr>connectionState := CONNECTING\<rparr>))
        \<lparr>inputAudioContext := True\<rparr>"
    by (simp add: onClick_def disabled_def handleConnectToggle_def connect_def)
  show "connectionState (onClick True i) = CONNECTING"
    unfolding o by (simp add: onLog_def)
  show "connectionState (connect_gotUserMedia (onClick True i)) = CONNECTING"
    unfolding o by (simp add: connect_gotUserMedia_def onLog_def Let_def)
qed

theorem connect_noop_when_flag_set_witness:
  "isConnected (run [EvGotUserMedia, EvOpen] (onClick True (new_LiveService []))) \<and>
   connect (run [EvGotUserMedia, EvOpen] (onClick True (new_LiveService []))) =
     run [EvGotUserMedia, EvOpen] (onClick True (new_LiveService [])) \<and>
   isConnected (connect_wl (new_LiveService_wl [])) \<and>
   connect_wl (connect_wl (new_LiveService_wl [])) = connect_wl (new_LiveService_wl []) \<and>
   isConnected (connect_gotUserMedia_wl (connect_wl (new_LiveService_wl []))) \<and>
   connectionState (onClick True (new_LiveService [])) = CONNECTING \<and>
   onClick True (onClick True (new_LiveService [])) = onClick True (new_LiveService []) \<and>
   connectionState (run [EvGotUserMedia, EvOpen] (onClick True (new_LiveService []))) \<noteq> DISCONNECTED \<and>
   handleConnectToggle True (run [EvGotUserMedia, EvOpen] (onClick True (new_LiveService []))) =
     disconnect (run [EvGotUserMedia, EvOpen] (onClick True (new_LiveService [])))"
proof -
  define n where "n = new_LiveService []"
  define c where "c = onClick True n"
  define s where "s = run [EvGotUserMedia, EvOpen] c"
  define w where "w = connect_wl (new_LiveService_wl [])"
  have i: "connectionState n = DISCONNECTED \<and> \<not> isConnected n"
    by (simp add: n_def new_LiveService_def)
  note t = connect_noop_when_flag_set [of s w "new_LiveService_wl []" "connect_gotUserMedia c"
      c True s n]
  have se: "s = handleOpen (connect_gotUserMedia c)"
    unfolding s_def by (simp add: step_def)
  from t have fw: "isConnected w" unfolding w_def by blast
  from t i have cc: "connectionState c = CONNECTING" unfolding c_def by blast
  from t have fs: "isConnected s" unfolding se by blast
  from t fs have a: "connect s = s" by blast
  from t fw have b: "connect_wl w = w" by blast
  from t fw have b': "isConnected (connect_gotUserMedia_wl w)" by blast
  from t cc have d: "onClick True c = c" by blast
  have cs: "connectionState s = CONNECTED"
    unfolding s_def by (simp add: step_def handleOpen_def startAudioStreaming_def
        onStatusChange_def onLog_def Let_def)
  then have nd: "connectionState s \<noteq> DISCONNECTED" by simp
  from t nd have e: "handleConnectToggle True s = disconnect s" by simp
  from fs a fw b b' cc d nd e show ?thesis
    unfolding s_def c_def w_def n_def by (simp only: simp_thms)
qed

section \<open>Failures of an outbound audio send\<close>

lemma closing_example: "closing (Some ''WebSocket is already in CLOSING or CLOSED state.'')"
  unfolding closing_def str_includes_def by code_simp

lemma not_closing_example: "\<not> closing (Some ''Request payload size exceeds the limit'')"
  unfolding closing_def str_includes_def by code_simp

lemma run_task_ThenAudio:
  "run_task (ThenAudio pcm16) t s =
     (if isConnected s
      then s\<lparr>realtimeInputs := realtimeInputs s @ [(''audio/pcm;rate=16000'', pcm16)],
             outcomes := tl (outcomes s)\<rparr>
      else s)"
  by (simp add: run_task_def sendRealtimeInput_def)

text \<open>
  C9, as stated, fails in both variants. In the worklet variant a send rejected because
  the connection is closing starts \<open>disconnect\<close>: the status changes at once and, when the
  awaited closes are done, the entry \<open>Disconnected.\<close> is logged. In the variant of
  liveService.ts a send rejected for another reason is swallowed like any other: nothing is
  written to the console or to the log.
\<close>

theorem send_failure_counterexample:
  "closing (Some ''WebSocket is already in CLOSING or CLOSED state.'') \<and>
   connectionState (sendAudioChunk (replicate BUFFER_SIZE 0)
      (run_wl [EvConnect_wl, EvGotUserMedia_wl, EvAdopt_wl]
         (new_LiveService_wl [Throws (Some ''WebSocket is already in CLOSING or CLOSED state.'')])))
     = DISCONNECTED \<and>
   logs (run_wl [EvRun_wl 0 0, EvRun_wl 0 0] (sendAudioChunk (replicate BUFFER_SIZE 0)
      (run_wl [EvConnect_wl, EvGotUserMedia_wl, EvAdopt_wl]
         (new_LiveService_wl [Throws (Some ''WebSocket is already in CLOSING or CLOSED state.'')]))))
     = [(System, ''Initializing audio context...''), (System, ''Connecting to Gemini Live API...''),
        (System, ''Disconnected.'')] \<and>
   \<not> closing (Some ''Request payload size exceeds the limit'') \<and>
   console (run [EvAudioProcess [0, 0], EvRun 0 0]
      (run [EvConnect, EvGotUserMedia, EvOpen]
         (new_LiveService [Throws (Some ''Request payload size exceeds the limit'')]))) = [] \<and>
   logs (run [EvAudioProcess [0, 0], EvRun 0 0]
      (run [EvConnect, EvGotUserMedia, EvOpen]
         (new_LiveService [Throws (Some ''Request payload size exceeds the limit'')])))
     = [(System, ''Initializing audio context...''), (System, ''Connecting to Gemini Live API...''),
        (System, ''Coach is ready. Listening...'')]"
proof -
  define w where "w = run_wl [EvConnect_wl, EvGotUserMedia_wl, EvAdopt_wl]
         (new_LiveService_wl [Throws (Some ''WebSocket is already in CLOSING or CLOSED state.'')])"
  have cw: "isConnected w" "currentSession w"
    "next_outcome w = Throws (Some ''WebSocket is already in CLOSING or CLOSED state.'')"
    unfolding w_def connected_example_wl by (simp_all add: new_LiveService_wl_def next_outcome_def)
  have fw: "inputAudioContext w" "outputAudioContext w"
    "logs w = [(System, ''Initializing audio context...''), (System, ''Connecting to Gemini Live API...'')]"
    "pending_wl w = []"
    unfolding w_def connected_example_wl by (simp_all add: new_LiveService_wl_def)
  note sc = sendAudioChunk_closing [OF cw closing_example, of "replicate BUFFER_SIZE 0"]
  have a: "connectionState (sendAudioChunk (replicate BUFFER_SIZE 0) w) = DISCONNECTED"
    unfolding sc by (simp add: disconnect_wl_eq)
  have b: "logs (run_wl [EvRun_wl 0 0, EvRun_wl 0 0] (sendAudioChunk (replicate BUFFER_SIZE 0) w)) =
      [(System, ''Initializing audio context...''), (System, ''Connecting to Gemini Live API...''),
        (System, ''Disconnected.'')]"
    unfolding sc using fw
    by (simp add: step_wl_def disconnect_wl_eq run_task_wl_def disconnect_output_wl_def
        disconnect_end_wl_def suspend_wl_def release_def onLog_def)
  have c: "console (run [EvAudioProcess [0, 0], EvRun 0 0]
      (run [EvConnect, EvGotUserMedia, EvOpen]
         (new_LiveService [Throws (Some ''Request payload size exceeds the limit'')]))) = []"
    "logs (run [EvAudioProcess [0, 0], EvRun 0 0]
      (run [EvConnect, EvGotUserMedia, EvOpen]
         (new_LiveService [Throws (Some ''Request payload size exceeds the limit'')])))
     = [(System, ''Initializing audio context...''), (System, ''Connecting to Gemini Live API...''),
        (System, ''Coach is ready. Listening...'')]"
    unfolding connected_example
    by (simp_all add: step_def onaudioprocess_def onVolume_def suspend_def run_task_ThenAudio
        new_LiveService_def Let_def)
  from a b c closing_example not_closing_example show ?thesis
    unfolding w_def by (intro conjI)
qed


text \<open>
  C9, amended. In the worklet variant, when the transport rejects an audio send with a
  message that mentions \<open>closed\<close> or \<open>CLOSING\<close>, the block is dropped and \<open>disconnect\<close> is
  started: the flag is cleared and the status set to disconnected at once, nothing is
  written to the console (the entry \<open>Disconnected.\<close> follows when the teardown completes);
  on every other send failure a warning is written to the console and nothing else
  changes, so capture continues. In the variant of liveService.ts the outcome of the send
  is not observed at all: every failure is swallowed without a warning and capture
  continues. In each case the capture path ends in a state: no failure of a send leaves it
  as an exception.
\<close>

theorem send_failure_handling:
  "(isConnected w \<and> currentSession w \<and> next_outcome w = Throws m \<and> closing m \<longrightarrow>
      sendAudioChunk d w =
        disconnect_wl (w\<lparr>volume := sqrt (sumStride 0 d 0 / (real (length d) / 4)) * 100,
          realtimeInputs := realtimeInputs w @ [(''audio/pcm;rate=16000'', float32ToInt16PCM d)],
          outcomes := tl (outcomes w)\<rparr>) \<and>
      \<not> isConnected (sendAudioChunk d w) \<and>
      connectionState (sendAudioChunk d w) = DISCONNECTED \<and>
      console (sendAudioChunk d w) = console w) \<and>
   (isConnected w \<and> currentSession w \<and> next_outcome w = Throws m \<and> \<not> closing m \<longrightarrow>
      sendAudioChunk d w =
        w\<lparr>volume := sqrt (sumStride 0 d 0 / (real (length d) / 4)) * 100,
          realtimeInputs := realtimeInputs w @ [(''audio/pcm;rate=16000'', float32ToInt16PCM d)],
          outcomes := tl (outcomes w),
          console := console w @ [(ConsoleWarn, ''Send error:'')]\<rparr>) \<and>
   run_task (ThenAudio pcm16) t s =
     (if isConnected s
      then s\<lparr>realtimeInputs := realtimeInputs s @ [(''audio/pcm;rate=16000'', pcm16)],
             outcomes := tl (outcomes s)\<rparr>
      else s)"
proof (intro conjI impI)
  assume h: "isConnected w \<and> currentSession w \<and> next_outcome w = Throws m \<and> closing m"
  then have c: "isConnected w" "currentSession w" "next_outcome w = Throws m" "closing m"
    by blast+
  note sc = sendAudioChunk_closing [OF c, of d]
  show "sendAudioChunk d w =
        disconnect_wl (w\<lparr>volume := sqrt (sumStride 0 d 0 / (real (length d) / 4)) * 100,
          realtimeInputs := realtimeInputs w @ [(''audio/pcm;rate=16000'', float32ToInt16PCM d)],
          outcomes := tl (outcomes w)\<rparr>)"
    by (rule sc)
  show "\<not> isConnected (sendAudioChunk d w)" unfolding sc by (simp add: disconnect_wl_eq)
  show "connectionState (sendAudioChunk d w) = DISCONNECTED" unfolding sc by (simp add: disconnect_wl_eq)
  show "console (sendAudioChunk d w) = console w" unfolding sc by (simp add: disconnect_wl_eq)
next
  assume h: "isConnected w \<and> currentSession w \<and> next_outcome w = Throws m \<and> \<not> closing m"
  then have c: "isConnected w" "currentSession w" "next_outcome w = Throws m" "\<not> closing m"
    by blast+
  show "sendAudioChunk d w =
        w\<lparr>volume := sqrt (sumStride 0 d 0 / (real (length d) / 4)) * 100,
          realtimeInputs := realtimeInputs w @ [(''audio/pcm;rate=16000'', float32ToInt16PCM d)],
          outcomes := tl (outcomes w),
          console := console w @ [(ConsoleWarn, ''Send error:'')]\<rparr>"
    by (rule sendAudioChunk_other_failure [OF c])
next
  show "run_task (ThenAudio pcm16) t s =
     (if isConnected s
      then s\<lparr>realtimeInputs := realtimeInputs s @ [(''audio/pcm;rate=16000'', pcm16)],
             outcomes := tl (outcomes s)\<rparr>
      else s)"
    by (rule run_task_ThenAudio)
qed

theorem send_failure_handling_witness:
  "\<not> isConnected (sendAudioChunk (replicate BUFFER_SIZE 0)
      (run_wl [EvConnect_wl, EvGotUserMedia_wl, EvAdopt_wl]
         (new_LiveService_wl [Throws (Some ''WebSocket is already in CLOSING or CLOSED state.'')]))) \<and>
   console (sendAudioChunk (replicate BUFFER_SIZE 0)
      (run_wl [EvConnect_wl, EvGotUserMedia_wl, EvAdopt_wl]
         (new_LiveService_wl [Throws (Some ''WebSocket is already in CLOSING or CLOSED state.'')]))) = [] \<and>
   console (sendAudioChunk (replicate BUFFER_SIZE 0)
      (run_wl [EvConnect_wl, EvGotUserMedia_wl, EvAdopt_wl]
         (new_LiveService_wl [Throws (Some ''Request payload size exceeds the limit'')]))) =
     [(ConsoleWarn, ''Send error:'')] \<and>
   isConnected (sendAudioChunk (replicate BUFFER_SIZE 0)
      (run_wl [EvConnect_wl, EvGotUserMedia_wl, EvAdopt_wl]
         (new_LiveService_wl [Throws (Some ''Request payload size exceeds the limit'')])))"
proof -
  define w where "w = run_wl [EvConnect_wl, EvGotUserMedia_wl, EvAdopt_wl]
         (new_LiveService_wl [Throws (Some ''WebSocket is already in CLOSING or CLOSED state.'')])"
  define v where "v = run_wl [EvConnect_wl, EvGotUserMedia_wl, EvAdopt_wl]
         (new_LiveService_wl [Throws (Some ''Request payload size exceeds the limit'')])"
  have cw: "isConnected w \<and> currentSession w \<and>
    next_outcome w = Throws (Some ''WebSocket is already in CLOSING or CLOSED state.'') \<and>
    closing (Some ''WebSocket is already in CLOSING or CLOSED state.'')"
    unfolding w_def connected_example_wl
    by (simp add: new_LiveService_wl_def next_outcome_def closing_example)
  have cv: "isConnected v \<and> currentSession v \<and>
    next_outcome v = Throws (Some ''Request payload size exceeds the limit'') \<and>
    \<not> closing (Some ''Request payload size exceeds the limit'')"
    unfolding v_def connected_example_wl
    by (simp add: new_LiveService_wl_def next_outcome_def not_closing_example)
  have ew: "console w = []" unfolding w_def connected_example_wl by (simp add: new_LiveService_wl_def)
  have ev: "console v = []" "isConnected v" unfolding v_def connected_example_wl by (simp_all add: new_LiveService_wl_def)
  note tw = send_failure_handling [of w "Some ''WebSocket is already in CLOSING or CLOSED state.''"
      "replicate BUFFER_SIZE 0", THEN conjunct1, THEN mp, OF cw]
  from tw have a1: "\<not> isConnected (sendAudioChunk (replicate BUFFER_SIZE 0) w)"
    by (elim conjE)
  from tw have "console (sendAudioChunk (replicate BUFFER_SIZE 0) w) = console w"
    by (elim conjE)
  then have a2: "console (sendAudioChunk (replicate BUFFER_SIZE 0) w) = []"
    unfolding ew .
  note a = a1 a2
  note tv = send_failure_handling [of v "Some ''Request payload size exceeds the limit''"
      "replicate BUFFER_SIZE 0", THEN conjunct2, THEN conjunct1, THEN mp, OF cv]
  have b: "console (sendAudioChunk (replicate BUFFER_SIZE 0) v) = [(ConsoleWarn, ''Send error:'')]"
    "isConnected (sendAudioChunk (replicate BUFFER_SIZE 0) v)"
    unfolding tv using ev by simp_all
  from a b show ?thesis unfolding w_def v_def by (intro conjI)
qed

section \<open>Tool calls are answered once\<close>

lemma respond_wl_connected:
  assumes "isConnected s" "currentSession s"
  shows "toolResponses (respond_wl fc r s) =
           toolResponses s @ [\<lparr>resp_id = fc_id fc, resp_name = fc_name fc, resp_result = r\<rparr>] \<and>
         isConnected (respond_wl fc r s) \<and> currentSession (respond_wl fc r s) \<and>
         pending_wl (respond_wl fc r s) = pending_wl s"
  using assms
  by (cases "next_outcome s")
     (simp_all add: respond_wl_def sendToolResponse_def console_line_def Let_def)

lemma handleAudioResponse_frame_wl:
  "currentSession (catch_processing s (handleAudioResponse audio t s)) = currentSession s \<and>
   pending_wl (catch_processing s (handleAudioResponse audio t s)) = pending_wl s"
  by (cases audio)
     (simp_all add: handleAudioResponse_def catch_processing_def console_line_def Let_def
       split: sum.splits)

lemma handleAudioResponse_frame_sp:
  "sessionPromise (catch_processing s (handleAudioResponse audio t s)) = sessionPromise s \<and>
   pending (catch_processing s (handleAudioResponse audio t s)) = pending s"
  by (cases audio)
     (simp_all add: handleAudioResponse_def catch_processing_def console_line_def Let_def
       split: sum.splits)

lemma answers_stops:
  "res bad = Inl e \<Longrightarrow> answers res (pre @ bad # rest) = answers res pre"
  by (induction pre) (auto split: sum.splits)

lemma owed_Nil: "owed [] = {#}"
  by (simp add: owed_def)

lemma owed_append: "owed (p @ q) = owed p + owed q"
  by (simp add: owed_def)

lemma owed_single: "owed [k] = owed_task k"
  by (simp add: owed_def)

lemma owed_Cons: "owed (k # p) = owed_task k + owed p"
  by (simp add: owed_def)

lemma owed_remove:
  assumes "n < length p"
  shows "owed (take n p @ drop (Suc n) p) + owed_task (p ! n) = owed p"
proof -
  have "owed p = owed (take n p @ [p ! n] @ drop (Suc n) p)"
    using id_take_nth_drop [OF assms] by simp
  then show ?thesis by (simp add: owed_append owed_Cons)
qed

lemma work_Nil: "work [] = 0"
  by (simp add: work_def)

lemma work_append: "work (p @ q) = work p + work q"
  by (simp add: work_def)

lemma work_single: "work [k] = work_task k"
  by (simp add: work_def)

lemma work_task_pos: "0 < work_task k"
  by (cases k) simp_all

lemma work_Cons: "work (k # p) = work_task k + work p"
  by (simp add: work_def)

lemma work_empty: "work p = 0 \<Longrightarrow> p = []"
proof (cases p)
  case (Cons k q)
  assume "work p = 0"
  with Cons work_task_pos [of k] show ?thesis by (simp add: work_Cons)
qed simp

lemma resolve_search:
  "fc_name fc = ''google_search'' \<Longrightarrow> fc_args fc = Args query \<Longrightarrow>
   answers resolve (fc # fcs) =
     (case mockGoogleSearch query of Inl e \<Rightarrow> []
      | Inr found \<Rightarrow> response fc (SearchText found) # answers resolve fcs)"
  by (simp add: resolve_def split: sum.splits)

lemma toolCallLoop_sessionPromise:
  "sessionPromise (toolCallLoop fcs audio t s) = sessionPromise s"
proof (induction fcs arbitrary: s)
  case Nil
  show ?case by (simp add: handleAudioResponse_frame_sp)
next
  case (Cons fc fcs)
  have f: "sessionPromise (sendResponseBack fc r u) = sessionPromise u" for r u
    by (simp add: sendResponseBack_def suspend_def)
  show ?case
    by (simp add: Cons.IH f Let_def console_line_def suspend_def onLog_def split: call_args.splits)
qed

lemma toolCallLoop_pending:
  assumes "sessionPromise s"
  shows "\<exists>new. pending (toolCallLoop calls audio t s) = pending s @ new \<and>
               owed new = mset (answers resolve calls) \<and>
               (\<forall>k \<in> set new. \<not> teardown k) \<and> work new \<le> 2 * length calls"
  using assms
proof (induction calls arbitrary: s)
  case Nil
  show ?case by (simp add: handleAudioResponse_frame_sp owed_Nil work_Nil)
next
  case (Cons fc fcs)
  have reg: "\<exists>new. pending (toolCallLoop fcs audio t (sendResponseBack fc r u)) =
                 pending u @ ThenTool fc r # new \<and>
               owed (ThenTool fc r # new) = {#response fc r#} + mset (answers resolve fcs) \<and>
               (\<forall>k \<in> set (ThenTool fc r # new). \<not> teardown k) \<and>
               work (ThenTool fc r # new) \<le> 2 * length (fc # fcs)"
    if u: "sessionPromise u" for r u
  proof -
    have p: "sessionPromise (sendResponseBack fc r u)"
      "pending (sendResponseBack fc r u) = pending u @ [ThenTool fc r]"
      using u by (simp_all add: sendResponseBack_def suspend_def)
    from Cons.IH [OF p(1)] obtain new where n:
      "pending (toolCallLoop fcs audio t (sendResponseBack fc r u)) =
         pending (sendResponseBack fc r u) @ new"
      "owed new = mset (answers resolve fcs)" "\<forall>k \<in> set new. \<not> teardown k"
      "work new \<le> 2 * length fcs"
      by blast
    have "owed (ThenTool fc r # new) = owed [ThenTool fc r] + owed new"
      using owed_append [of "[ThenTool fc r]" new] by simp
    moreover have "work (ThenTool fc r # new) = work [ThenTool fc r] + work new"
      using work_append [of "[ThenTool fc r]" new] by simp
    ultimately show ?thesis
      using n by (intro exI [of _ new]) (simp add: p(2) owed_single work_single)
  qed
  show ?case
  proof (cases "fc_name fc = ''get_financial_profile''")
    case True
    define u where "u = onLog Tool (''Retrieved data for: '' @ ''Alex Chen'')
        (onLog Tool ''Accessing secure financial profile...'' s)"
    have u: "sessionPromise u" "pending u = pending s"
      using Cons.prems by (simp_all add: u_def onLog_def)
    have unf: "toolCallLoop (fc # fcs) audio t s =
               toolCallLoop fcs audio t (sendResponseBack fc MOCK_FINANCIAL_PROFILE u)"
      using True by (simp add: u_def Let_def)
    have a: "answers resolve (fc # fcs) = response fc MOCK_FINANCIAL_PROFILE # answers resolve fcs"
      using True by (simp add: resolve_def)
    from reg [OF u(1), of MOCK_FINANCIAL_PROFILE] show ?thesis
      unfolding unf a u(2) by (metis mset.simps(2) add_mset_add_single union_commute)
  next
    case False
    note np = False
    show ?thesis
    proof (cases "fc_name fc = ''google_search''")
      case True
      show ?thesis
      proof (cases "fc_args fc")
        case NoArgs
        have unf: "toolCallLoop (fc # fcs) audio t s =
                   console_line ConsoleError ''Error processing message:'' s"
          using np True NoArgs by simp
        have a: "answers resolve (fc # fcs) = []"
          using np True NoArgs by (simp add: resolve_def)
        show ?thesis
          unfolding unf a by (simp add: console_line_def owed_Nil work_Nil)
      next
        case (Args query)
        have unf: "toolCallLoop (fc # fcs) audio t s =
                   suspend (AwaitSearch fc query fcs audio)
                     (onLog Tool (''Searching market info: '' @ dq @ display query @ dq) s)"
          using np True Args by simp
        have p: "pending (toolCallLoop (fc # fcs) audio t s) =
                   pending s @ [AwaitSearch fc query fcs audio]"
          unfolding unf by (simp add: suspend_def onLog_def)
        have o: "owed [AwaitSearch fc query fcs audio] = mset (answers resolve (fc # fcs))"
          unfolding resolve_search [OF True Args] owed_single
          by (cases "mockGoogleSearch query") simp_all
        have w: "work [AwaitSearch fc query fcs audio] \<le> 2 * length (fc # fcs)"
          by (simp add: work_single)
        from p o w show ?thesis
          by (intro exI [of _ "[AwaitSearch fc query fcs audio]"]) simp
      qed
    next
      case False
      have u: "sessionPromise s" using Cons.prems .
      have unf: "toolCallLoop (fc # fcs) audio t s =
                 toolCallLoop fcs audio t (sendResponseBack fc EmptyObject s)"
        using np False by simp
      have a: "answers resolve (fc # fcs) = response fc EmptyObject # answers resolve fcs"
        using np False by (simp add: resolve_def)
      from reg [OF u, of EmptyObject] show ?thesis
        unfolding unf a by (metis mset.simps(2) add_mset_add_single union_commute)
    qed
  qed
qed


lemma received_Cons: "received (e # es) = received [e] + received es"
  by (cases e) simp_all

lemma received_runs: "received (map (EvRun 0) ts) = {#}"
  by (induction ts) simp_all

lemma search_resumed:
  assumes "sessionPromise s" "mockGoogleSearch query = Inr found"
  shows "\<exists>new. pending (run_task (AwaitSearch fc query fcs audio) t s) =
                 pending s @ ThenTool fc (SearchText found) # new \<and>
               owed (ThenTool fc (SearchText found) # new) = owed_task (AwaitSearch fc query fcs audio) \<and>
               (\<forall>k \<in> set new. \<not> teardown k) \<and> work new \<le> 2 * length fcs"
proof -
  define u where "u = sendResponseBack fc (SearchText found) (onLog Tool ''Found search results.'' s)"
  have u: "sessionPromise u" "pending u = pending s @ [ThenTool fc (SearchText found)]"
    using assms(1) by (simp_all add: u_def sendResponseBack_def suspend_def onLog_def)
  have unf: "run_task (AwaitSearch fc query fcs audio) t s = toolCallLoop fcs audio t u"
    using assms(2) by (simp add: run_task_def u_def Let_def)
  from toolCallLoop_pending [OF u(1), of fcs audio t] obtain new where n:
    "pending (toolCallLoop fcs audio t u) = pending u @ new"
    "owed new = mset (answers resolve fcs)" "\<forall>k \<in> set new. \<not> teardown k"
    "work new \<le> 2 * length fcs"
    by blast
  have "owed (ThenTool fc (SearchText found) # new) = owed_task (AwaitSearch fc query fcs audio)"
    using assms(2) n(2) by (simp add: owed_Cons)
  with n show ?thesis unfolding unf by (intro exI [of _ new]) (simp add: u(2))
qed

lemma run_task_frame:
  assumes "isConnected s" "sessionPromise s" "\<not> teardown k"
  shows "isConnected (run_task k t s) \<and> sessionPromise (run_task k t s)"
proof (cases k)
  case (AwaitSearch fc query fcs audio)
  have f: "isConnected (sendResponseBack fc r u) = isConnected u \<and>
           sessionPromise (sendResponseBack fc r u) = sessionPromise u" for r u
    by (simp add: sendResponseBack_def suspend_def)
  show ?thesis
    using assms AwaitSearch
    by (simp add: run_task_def toolCallLoop_frame toolCallLoop_sessionPromise f console_line_def
        onLog_def Let_def split: sum.splits)
qed (use assms in \<open>simp_all add: run_task_def sendRealtimeInput_def sendToolResponse_def\<close>)

lemma run_task_conserves:
  assumes "isConnected s" "sessionPromise s"
  shows "mset (toolResponses (run_task k t s)) + owed (pending (run_task k t s)) =
         mset (toolResponses s) + owed (pending s) + owed_task k"
proof (cases k)
  case (AwaitSearch fc query fcs audio)
  show ?thesis
  proof (cases "mockGoogleSearch query")
    case (Inl e)
    then show ?thesis using AwaitSearch by (simp add: run_task_def console_line_def)
  next
    case (Inr found)
    from search_resumed [OF assms(2) Inr, of fc fcs audio t] obtain new where n:
      "pending (run_task (AwaitSearch fc query fcs audio) t s) =
         pending s @ ThenTool fc (SearchText found) # new"
      "owed (ThenTool fc (SearchText found) # new) = owed_task (AwaitSearch fc query fcs audio)"
      by blast
    have r: "toolResponses (run_task (AwaitSearch fc query fcs audio) t s) = toolResponses s"
      using Inr
      by (simp add: run_task_def toolCallLoop_frame sendResponseBack_def suspend_def onLog_def Let_def)
    show ?thesis unfolding AwaitSearch r n(1) owed_append n(2) by simp
  qed
qed (use assms in \<open>simp_all add: run_task_def sendRealtimeInput_def sendToolResponse_def
      disconnect_output_def disconnect_session_def disconnect_end_def suspend_def release_def
      onStatusChange_def onLog_def owed_append owed_single Let_def\<close>)

lemma step_conserves:
  assumes "serving s"
  shows "mset (toolResponses (step e s)) + owed (pending (step e s)) =
         mset (toolResponses s) + owed (pending s) + received [e]"
proof (cases e)
  case (EvMessage message t)
  have c: "isConnected s" "sessionPromise s" using assms by (simp_all add: serving_def)
  show ?thesis
  proof (cases "toolCall message")
    case None
    then show ?thesis
      using c EvMessage
      by (simp add: step_def handleMessage_def handleAudioResponse_frame handleAudioResponse_frame_sp)
  next
    case (Some calls)
    define u where "u = onLog System ''Coach requesting data...'' s"
    have u: "sessionPromise u" "pending u = pending s" "toolResponses u = toolResponses s"
      using c by (simp_all add: u_def onLog_def)
    have unf: "step e s = toolCallLoop calls (audioData message) t u"
      using c EvMessage Some by (simp add: step_def handleMessage_def u_def)
    from toolCallLoop_pending [OF u(1), of calls "audioData message" t] obtain new where n:
      "pending (toolCallLoop calls (audioData message) t u) = pending u @ new"
      "owed new = mset (answers resolve calls)"
      by blast
    show ?thesis
      unfolding unf n(1) owed_append n(2) u(2)
      using EvMessage Some by (simp add: toolCallLoop_frame u(3))
  qed
next
  case (EvRun n t)
  show ?thesis
  proof (cases "n < length (pending s)")
    case False
    then show ?thesis using EvRun by (simp add: step_def)
  next
    case True
    define u where "u = s\<lparr>pending := take n (pending s) @ drop (Suc n) (pending s)\<rparr>"
    have u: "isConnected u" "sessionPromise u" "toolResponses u = toolResponses s"
      "pending u = take n (pending s) @ drop (Suc n) (pending s)"
      using assms by (simp_all add: u_def serving_def)
    have unf: "step e s = run_task (pending s ! n) t u"
      using EvRun True by (simp add: step_def u_def)
    from run_task_conserves [OF u(1,2), of "pending s ! n" t] owed_remove [OF True]
    show ?thesis unfolding unf u(3,4) using EvRun by (simp add: add.assoc)
  qed
qed (use assms in \<open>simp_all add: serving_def step_def connect_def connect_gotUserMedia_def
      connect_failed_def disconnect_eq handleOpen_def startAudioStreaming_def handleClose_def
      handleError_def onaudioprocess_def onLog_def onStatusChange_def console_line_def onVolume_def
      suspend_def owed_append owed_single Let_def\<close>)

lemma run_conserves:
  assumes "stays evs s"
  shows "mset (toolResponses (run evs s)) + owed (pending (run evs s)) =
         mset (toolResponses s) + owed (pending s) + received evs"
  using assms
proof (induction evs arbitrary: s)
  case Nil
  show ?case by simp
next
  case (Cons e evs)
  from Cons.prems have c: "serving s" "stays evs (step e s)" by simp_all
  from Cons.IH [OF c(2)] step_conserves [OF c(1), of e] received_Cons [of e evs]
  show ?case by (simp add: add.assoc)
qed

lemma step_drains:
  assumes "serving s" "\<forall>k \<in> set (pending s). \<not> teardown k" "pending s \<noteq> []"
  shows "serving (step (EvRun 0 t) s) \<and>
         (\<forall>k \<in> set (pending (step (EvRun 0 t) s)). \<not> teardown k) \<and>
         work (pending (step (EvRun 0 t) s)) < work (pending s)"
proof -
  from assms(3) obtain k p where kp: "pending s = k # p" by (cases "pending s") auto
  define u where "u = s\<lparr>pending := p\<rparr>"
  have u: "isConnected u" "sessionPromise u" "pending u = p"
    using assms(1) by (simp_all add: u_def serving_def)
  have nk: "\<not> teardown k" and np: "\<forall>j \<in> set p. \<not> teardown j" using assms(2) kp by simp_all
  have unf: "step (EvRun 0 t) s = run_task k t u"
    using kp by (simp add: step_def u_def)
  have f: "serving (run_task k t u)"
    using run_task_frame [OF u(1,2) nk, of t] by (simp add: serving_def)
  have "(\<forall>j \<in> set (pending (run_task k t u)). \<not> teardown j) \<and>
        work (pending (run_task k t u)) < work_task k + work p"
  proof (cases k)
    case (AwaitSearch fc query fcs audio)
    show ?thesis
    proof (cases "mockGoogleSearch query")
      case (Inl e)
      then show ?thesis
        using AwaitSearch np u(3) by (simp add: run_task_def console_line_def)
    next
      case (Inr found)
      from search_resumed [OF u(2) Inr, of fc fcs audio t] obtain new where n:
        "pending (run_task (AwaitSearch fc query fcs audio) t u) =
           pending u @ ThenTool fc (SearchText found) # new"
        "\<forall>k \<in> set new. \<not> teardown k" "work new \<le> 2 * length fcs"
        by blast
      show ?thesis
        unfolding AwaitSearch n(1) u(3) using np n(2,3)
        by (auto simp: work_append work_Cons)
    qed
  qed (use nk np u(1,3) in \<open>simp_all add: run_task_def sendRealtimeInput_def sendToolResponse_def\<close>)
  with f show ?thesis unfolding unf kp by (simp add: work_Cons)
qed

lemma drains:
  assumes "serving s" "\<forall>k \<in> set (pending s). \<not> teardown k" "work (pending s) \<le> length ts"
  shows "pending (run (map (EvRun 0) ts) s) = [] \<and> stays (map (EvRun 0) ts) s"
  using assms
proof (induction ts arbitrary: s)
  case Nil
  then show ?case by (simp add: work_empty)
next
  case (Cons t ts)
  show ?case
  proof (cases "pending s = []")
    case True
    then have st: "step (EvRun 0 t) s = s" by (simp add: step_def)
    have "work (pending s) \<le> length ts" using True by (simp add: work_Nil)
    from Cons.IH [OF Cons.prems(1,2) this] show ?thesis using Cons.prems(1) by (simp add: st)
  next
    case False
    from step_drains [OF Cons.prems(1,2) False, of t] Cons.prems(3)
    have d: "serving (step (EvRun 0 t) s)" "\<forall>k \<in> set (pending (step (EvRun 0 t) s)). \<not> teardown k"
      "work (pending (step (EvRun 0 t) s)) \<le> length ts"
      by simp_all
    from Cons.IH [OF d] show ?thesis using Cons.prems(1) by simp
  qed
qed


lemma owed_wl_Nil: "owed_wl [] = {#}"
  by (simp add: owed_wl_def)

lemma owed_wl_append: "owed_wl (p @ q) = owed_wl p + owed_wl q"
  by (simp add: owed_wl_def)

lemma owed_wl_Cons: "owed_wl (k # p) = owed_task_wl k + owed_wl p"
  by (simp add: owed_wl_def)

lemma owed_wl_remove:
  assumes "n < length p"
  shows "owed_wl (take n p @ drop (Suc n) p) + owed_task_wl (p ! n) = owed_wl p"
proof -
  have "owed_wl p = owed_wl (take n p @ [p ! n] @ drop (Suc n) p)"
    using id_take_nth_drop [OF assms] by simp
  then show ?thesis by (simp add: owed_wl_append owed_wl_Cons)
qed

lemma work_wl_Nil: "work_wl [] = 0"
  by (simp add: work_wl_def)

lemma work_wl_append: "work_wl (p @ q) = work_wl p + work_wl q"
  by (simp add: work_wl_def)

lemma work_wl_Cons: "work_wl (k # p) = work_task_wl k + work_wl p"
  by (simp add: work_wl_def)

lemma work_task_wl_pos: "0 < work_task_wl k"
  by (cases k) simp_all

lemma work_wl_empty: "work_wl p = 0 \<Longrightarrow> p = []"
proof (cases p)
  case (Cons k q)
  assume "work_wl p = 0"
  with Cons work_task_wl_pos [of k] show ?thesis by (simp add: work_wl_Cons)
qed simp

lemma received_wl_Cons: "received_wl (e # es) = received_wl [e] + received_wl es"
  by (cases e) simp_all

lemma received_wl_runs: "received_wl (map (EvRun_wl 0) ts) = {#}"
  by (induction ts) simp_all

lemma respond_wl_serving:
  assumes "serving_wl s"
  shows "toolResponses (respond_wl fc r s) = toolResponses s @ [response fc r] \<and>
         serving_wl (respond_wl fc r s) \<and> pending_wl (respond_wl fc r s) = pending_wl s"
  using assms respond_wl_connected [of s fc r] by (simp add: serving_wl_def)

lemma toolCallLoop_wl_conserves:
  assumes "serving_wl s"
  shows "mset (toolResponses (toolCallLoop_wl calls audio t s)) +
           owed_wl (pending_wl (toolCallLoop_wl calls audio t s)) =
         mset (toolResponses s) + owed_wl (pending_wl s) + mset (answers resolve_wl calls) \<and>
         serving_wl (toolCallLoop_wl calls audio t s) \<and>
         work_wl (pending_wl (toolCallLoop_wl calls audio t s)) \<le>
           work_wl (pending_wl s) + length calls"
  using assms
proof (induction calls arbitrary: s)
  case Nil
  then show ?case
    using handleAudioResponse_frame [of s audio t] handleAudioResponse_frame_wl [of s audio t]
    by (simp add: serving_wl_def)
next
  case (Cons fc fcs)
  have answered: "mset (toolResponses (toolCallLoop_wl fcs audio t (respond_wl fc r u))) +
           owed_wl (pending_wl (toolCallLoop_wl fcs audio t (respond_wl fc r u))) =
         mset (toolResponses u) + owed_wl (pending_wl u) +
           mset (response fc r # answers resolve_wl fcs) \<and>
         serving_wl (toolCallLoop_wl fcs audio t (respond_wl fc r u)) \<and>
         work_wl (pending_wl (toolCallLoop_wl fcs audio t (respond_wl fc r u))) \<le>
           work_wl (pending_wl u) + length (fc # fcs)"
    if u: "serving_wl u" for r u
  proof -
    note p = respond_wl_serving [OF u, of fc r]
    from p have sv: "serving_wl (respond_wl fc r u)" by blast
    from Cons.IH [OF sv] p show ?thesis by simp
  qed
  show ?case
  proof (cases "fc_name fc = ''get_financial_profile''")
    case True
    define u where "u = onLog Tool (''Read data: '' @ ''Alex Chen'') s"
    have u: "serving_wl u" "pending_wl u = pending_wl s" "toolResponses u = toolResponses s"
      using Cons.prems by (simp_all add: u_def onLog_def serving_wl_def)
    have unf: "toolCallLoop_wl (fc # fcs) audio t s =
               toolCallLoop_wl fcs audio t (respond_wl fc MOCK_FINANCIAL_PROFILE u)"
      using True by (simp add: u_def Let_def)
    have a: "answers resolve_wl (fc # fcs) = response fc MOCK_FINANCIAL_PROFILE # answers resolve_wl fcs"
      using True by (simp add: resolve_wl_def)
    from answered [OF u(1), of MOCK_FINANCIAL_PROFILE] show ?thesis
      unfolding unf a u(2,3) .
  next
    case False
    note np = False
    show ?thesis
    proof (cases "fc_name fc = ''google_search''")
      case True
      show ?thesis
      proof (cases "fc_args fc")
        case NoArgs
        have unf: "toolCallLoop_wl (fc # fcs) audio t s =
                   console_line ConsoleError ''Error processing message:'' s"
          using np True NoArgs by simp
        have a: "answers resolve_wl (fc # fcs) = []"
          using np True NoArgs by (simp add: resolve_wl_def)
        show ?thesis
          unfolding unf a using Cons.prems by (simp add: console_line_def serving_wl_def)
      next
        case (Args query)
        have unf: "toolCallLoop_wl (fc # fcs) audio t s =
                   suspend_wl (AwaitSearch_wl fc query fcs audio)
                     (onLog Tool (''Search: '' @ dq @ display query @ dq) s)"
          using np True Args by simp
        have a: "answers resolve_wl (fc # fcs) =
                 response fc (SearchText (mockGoogleSearch_wl query)) # answers resolve_wl fcs"
          using np True Args by (simp add: resolve_wl_def)
        show ?thesis
          unfolding unf a using Cons.prems
          by (simp add: suspend_wl_def onLog_def serving_wl_def owed_wl_append owed_wl_Cons
              owed_wl_Nil work_wl_append work_wl_Cons work_wl_Nil)
      qed
    next
      case False
      have unf: "toolCallLoop_wl (fc # fcs) audio t s =
                 toolCallLoop_wl fcs audio t (respond_wl fc EmptyObject s)"
        using np False by simp
      have a: "answers resolve_wl (fc # fcs) = response fc EmptyObject # answers resolve_wl fcs"
        using np False by (simp add: resolve_wl_def)
      from answered [OF Cons.prems, of EmptyObject] show ?thesis
        unfolding unf a .
    qed
  qed
qed

lemma run_task_wl_conserves:
  assumes "serving_wl s"
  shows "mset (toolResponses (run_task_wl k t s)) + owed_wl (pending_wl (run_task_wl k t s)) =
         mset (toolResponses s) + owed_wl (pending_wl s) + owed_task_wl k \<and>
         serving_wl (run_task_wl k t s) \<and>
         work_wl (pending_wl (run_task_wl k t s)) < work_wl (pending_wl s) + work_task_wl k"
proof (cases k)
  case (AwaitSearch_wl fc query fcs audio)
  note p = respond_wl_serving [OF assms, of fc "SearchText (mockGoogleSearch_wl query)"]
  from p have sv: "serving_wl (respond_wl fc (SearchText (mockGoogleSearch_wl query)) s)" by blast
  from toolCallLoop_wl_conserves [OF sv, of fcs audio t] p show ?thesis
    unfolding AwaitSearch_wl by (simp add: run_task_wl_def)
qed (use assms in \<open>simp_all add: run_task_wl_def disconnect_output_wl_def disconnect_end_wl_def
      suspend_wl_def release_def onLog_def serving_wl_def owed_wl_append owed_wl_Cons owed_wl_Nil
      work_wl_append work_wl_Cons work_wl_Nil\<close>)

lemma sendAudioChunk_owes_nothing:
  "toolResponses (sendAudioChunk d s) = toolResponses s \<and>
   owed_wl (pending_wl (sendAudioChunk d s)) = owed_wl (pending_wl s)"
  by (simp add: sendAudioChunk_def Let_def disconnect_wl_eq console_line_def sendRealtimeInput_def
      onVolume_def owed_wl_append owed_wl_Cons owed_wl_Nil split: send_outcome.splits)

lemma copyLoop_owes_nothing:
  "toolResponses (copyLoop i chunk s) = toolResponses s \<and>
   owed_wl (pending_wl (copyLoop i chunk s)) = owed_wl (pending_wl s)"
  by (rule copyLoop_invariant [where P = "\<lambda>s'. toolResponses s' = toolResponses s \<and>
        owed_wl (pending_wl s') = owed_wl (pending_wl s)"])
     (simp_all add: sendAudioChunk_owes_nothing)

lemma step_wl_conserves:
  assumes "serving_wl s"
  shows "mset (toolResponses (step_wl e s)) + owed_wl (pending_wl (step_wl e s)) =
         mset (toolResponses s) + owed_wl (pending_wl s) + received_wl [e]"
proof (cases e)
  case (EvMessage_wl message t)
  have c: "isConnected s" using assms by (simp add: serving_wl_def)
  show ?thesis
  proof (cases "toolCall message")
    case None
    then show ?thesis
      using c EvMessage_wl
      by (simp add: step_wl_def handleMessage_wl_def handleAudioResponse_frame
          handleAudioResponse_frame_wl)
  next
    case (Some calls)
    have unf: "step_wl e s = toolCallLoop_wl calls (audioData message) t s"
      using c EvMessage_wl Some by (simp add: step_wl_def handleMessage_wl_def)
    from toolCallLoop_wl_conserves [OF assms, of calls "audioData message" t]
    show ?thesis unfolding unf using EvMessage_wl Some by simp
  qed
next
  case (EvRun_wl n t)
  show ?thesis
  proof (cases "n < length (pending_wl s)")
    case False
    then show ?thesis using EvRun_wl by (simp add: step_wl_def)
  next
    case True
    define u where "u = s\<lparr>pending_wl := take n (pending_wl s) @ drop (Suc n) (pending_wl s)\<rparr>"
    have u: "serving_wl u" "toolResponses u = toolResponses s"
      "pending_wl u = take n (pending_wl s) @ drop (Suc n) (pending_wl s)"
      using assms by (simp_all add: u_def serving_wl_def)
    have unf: "step_wl e s = run_task_wl (pending_wl s ! n) t u"
      using EvRun_wl True by (simp add: step_wl_def u_def)
    from run_task_wl_conserves [OF u(1), of "pending_wl s ! n" t] owed_wl_remove [OF True]
    show ?thesis unfolding unf u(2,3) using EvRun_wl by (simp add: add.assoc)
  qed
next
  case (EvFrame_wl chunk)
  then show ?thesis
    by (simp add: step_wl_def onmessage_wl_def processInputAudio_def copyLoop_owes_nothing)
qed (use assms in \<open>simp_all add: serving_wl_def step_wl_def connect_wl_def
      connect_gotUserMedia_wl_def connect_adopt_wl_def handleConnectionError_def disconnect_wl_eq
      handleOpen_wl_def startAudioStreaming_wl_def handleClose_wl_def handleError_wl_def
      onLog_def onStatusChange_def console_line_def owed_wl_append owed_wl_Cons owed_wl_Nil Let_def\<close>)

lemma run_wl_conserves:
  assumes "stays_wl evs s"
  shows "mset (toolResponses (run_wl evs s)) + owed_wl (pending_wl (run_wl evs s)) =
         mset (toolResponses s) + owed_wl (pending_wl s) + received_wl evs"
  using assms
proof (induction evs arbitrary: s)
  case Nil
  show ?case by simp
next
  case (Cons e evs)
  from Cons.prems have c: "serving_wl s" "stays_wl evs (step_wl e s)" by simp_all
  from Cons.IH [OF c(2)] step_wl_conserves [OF c(1), of e] received_wl_Cons [of e evs]
  show ?case by (simp add: add.assoc)
qed

lemma step_wl_drains:
  assumes "serving_wl s" "pending_wl s \<noteq> []"
  shows "serving_wl (step_wl (EvRun_wl 0 t) s) \<and>
         work_wl (pending_wl (step_wl (EvRun_wl 0 t) s)) < work_wl (pending_wl s)"
proof -
  from assms(2) obtain k p where kp: "pending_wl s = k # p" by (cases "pending_wl s") auto
  define u where "u = s\<lparr>pending_wl := p\<rparr>"
  have u: "serving_wl u" "pending_wl u = p"
    using assms(1) by (simp_all add: u_def serving_wl_def)
  have unf: "step_wl (EvRun_wl 0 t) s = run_task_wl k t u"
    using kp by (simp add: step_wl_def u_def)
  from run_task_wl_conserves [OF u(1), of k t] show ?thesis
    unfolding unf kp u(2) by (simp add: work_wl_Cons)
qed

lemma drains_wl:
  assumes "serving_wl s" "work_wl (pending_wl s) \<le> length ts"
  shows "pending_wl (run_wl (map (EvRun_wl 0) ts) s) = [] \<and> stays_wl (map (EvRun_wl 0) ts) s"
  using assms
proof (induction ts arbitrary: s)
  case Nil
  then show ?case by (simp add: work_wl_empty)
next
  case (Cons t ts)
  show ?case
  proof (cases "pending_wl s = []")
    case True
    then have st: "step_wl (EvRun_wl 0 t) s = s" by (simp add: step_wl_def)
    have "work_wl (pending_wl s) \<le> length ts" using True by (simp add: work_wl_Nil)
    from Cons.IH [OF Cons.prems(1) this] show ?thesis using Cons.prems(1) by (simp add: st)
  next
    case False
    from step_wl_drains [OF Cons.prems(1) False, of t] Cons.prems(2)
    have d: "serving_wl (step_wl (EvRun_wl 0 t) s)"
      "work_wl (pending_wl (step_wl (EvRun_wl 0 t) s)) \<le> length ts"
      by simp_all
    from Cons.IH [OF d] show ?thesis using Cons.prems(1) by simp
  qed
qed


lemma resolve_returns:
  assumes "fc_name fc = ''google_search'' \<longrightarrow> carries_query fc"
  shows "\<exists>r. resolve fc = Inr r" and "\<exists>r. resolve_wl fc = Inr r"
proof -
  have m: "\<exists>found. mockGoogleSearch (Str q) = Inr found" for q
    by (simp add: mockGoogleSearch_def Let_def)
  show "\<exists>r. resolve fc = Inr r"
  proof (cases "fc_name fc = ''google_search''")
    case True
    with assms obtain q where q: "fc_args fc = Args (Str q)"
      by (auto simp: carries_query_def split: call_args.splits js_value.splits)
    from m [of q] obtain found where "mockGoogleSearch (Str q) = Inr found" by blast
    with True q show ?thesis by (simp add: resolve_def)
  qed (simp add: resolve_def)
  show "\<exists>r. resolve_wl fc = Inr r"
    using assms
    by (auto simp: resolve_wl_def carries_query_def split: call_args.splits js_value.splits)
qed

lemma answers_ids:
  assumes "\<forall>fc \<in> set calls. \<exists>r. res fc = Inr r"
  shows "map resp_id (answers res calls) = map fc_id calls \<and>
         map resp_name (answers res calls) = map fc_name calls"
  using assms by (induction calls) auto

lemma answers_unknown:
  assumes "fc_name fc \<noteq> ''get_financial_profile''" "fc_name fc \<noteq> ''google_search''"
  shows "answers resolve (fc # fcs) = response fc EmptyObject # answers resolve fcs"
    and "answers resolve_wl (fc # fcs) = response fc EmptyObject # answers resolve_wl fcs"
  using assms by (simp_all add: resolve_def resolve_wl_def)

lemma resolve_no_arguments:
  assumes "fc_name bad = ''google_search''" "fc_args bad = NoArgs"
  shows "resolve bad = Inl TypeError" and "resolve_wl bad = Inl TypeError"
  using assms by (simp_all add: resolve_def resolve_wl_def)

lemma rate_search:
  "mockGoogleSearch (Str ''Rate'') =
     Inr ''Current 30-year fixed mortgage rates are around 7.2%. Fed interest rates are held steady at 5.25-5.50%.''"
  by code_simp

lemma stays_append: "stays (es @ fs) s = (stays es s \<and> stays fs (run es s))"
proof (induction es arbitrary: s)
  case Nil
  show ?case by (cases fs) auto
next
  case (Cons e es)
  then show ?case by auto
qed

lemma stays_serving: "stays es s \<Longrightarrow> serving (run es s)"
  by (induction es arbitrary: s) simp_all

lemma stays_wl_append: "stays_wl (es @ fs) s = (stays_wl es s \<and> stays_wl fs (run_wl es s))"
proof (induction es arbitrary: s)
  case Nil
  show ?case by (cases fs) auto
next
  case (Cons e es)
  then show ?case by auto
qed

lemma stays_wl_serving: "stays_wl es s \<Longrightarrow> serving_wl (run_wl es s)"
  by (induction es arbitrary: s) simp_all

lemma run_wl_append: "run_wl (es @ fs) s = run_wl fs (run_wl es s)"
  by (induction es arbitrary: s) simp_all

lemma run_append: "run (es @ fs) s = run fs (run es s)"
  by (induction es arbitrary: s) simp_all

lemma message_keeps_serving:
  assumes "serving s"
  shows "serving (step (EvMessage message now) s)"
  using assms
  by (simp add: serving_def step_def handleMessage_def toolCallLoop_frame
      toolCallLoop_sessionPromise handleAudioResponse_frame handleAudioResponse_frame_sp
      onLog_def split: option.splits)

lemma message_keeps_serving_wl:
  assumes "serving_wl s"
  shows "serving_wl (step_wl (EvMessage_wl message t0) s)"
proof (cases "toolCall message")
  case None
  then show ?thesis
    using assms toolCallLoop_wl_conserves [OF assms, of "[]" "audioData message" t0]
    by (simp add: serving_wl_def step_wl_def handleMessage_wl_def)
next
  case (Some calls)
  then show ?thesis
    using assms toolCallLoop_wl_conserves [OF assms, of calls "audioData message" t0]
    by (simp add: serving_wl_def step_wl_def handleMessage_wl_def)
qed

text \<open>
  C7, as stated, fails: a \<open>google_search\<close> call that carries no arguments object makes the
  loop throw where it reads the query; the error is caught around the whole batch, so
  neither that call nor the calls after it are answered. This is so in both variants.
  Both runs below are complete (nothing is left pending) and have sent no \<open>ToolResult\<close>,
  though the second call of the batch is a well-formed profile lookup.
\<close>

theorem tool_batch_counterexample:
  "toolResponses (run [EvMessage \<lparr>toolCall = Some
        [\<lparr>fc_id = ''1'', fc_name = ''google_search'', fc_args = NoArgs\<rparr>,
         \<lparr>fc_id = ''2'', fc_name = ''get_financial_profile'', fc_args = NoArgs\<rparr>],
        audioData = NoAudio\<rparr> 0]
      (run [EvConnect, EvGotUserMedia, EvOpen] (new_LiveService []))) = [] \<and>
   pending (run [EvMessage \<lparr>toolCall = Some
        [\<lparr>fc_id = ''1'', fc_name = ''google_search'', fc_args = NoArgs\<rparr>,
         \<lparr>fc_id = ''2'', fc_name = ''get_financial_profile'', fc_args = NoArgs\<rparr>],
        audioData = NoAudio\<rparr> 0]
      (run [EvConnect, EvGotUserMedia, EvOpen] (new_LiveService []))) = [] \<and>
   isConnected (run [EvMessage \<lparr>toolCall = Some
        [\<lparr>fc_id = ''1'', fc_name = ''google_search'', fc_args = NoArgs\<rparr>,
         \<lparr>fc_id = ''2'', fc_name = ''get_financial_profile'', fc_args = NoArgs\<rparr>],
        audioData = NoAudio\<rparr> 0]
      (run [EvConnect, EvGotUserMedia, EvOpen] (new_LiveService []))) \<and>
   toolResponses (run_wl [EvMessage_wl \<lparr>toolCall = Some
        [\<lparr>fc_id = ''1'', fc_name = ''google_search'', fc_args = NoArgs\<rparr>,
         \<lparr>fc_id = ''2'', fc_name = ''get_financial_profile'', fc_args = NoArgs\<rparr>],
        audioData = NoAudio\<rparr> 0]
      (run_wl [EvConnect_wl, EvGotUserMedia_wl, EvAdopt_wl] (new_LiveService_wl []))) = [] \<and>
   pending_wl (run_wl [EvMessage_wl \<lparr>toolCall = Some
        [\<lparr>fc_id = ''1'', fc_name = ''google_search'', fc_args = NoArgs\<rparr>,
         \<lparr>fc_id = ''2'', fc_name = ''get_financial_profile'', fc_args = NoArgs\<rparr>],
        audioData = NoAudio\<rparr> 0]
      (run_wl [EvConnect_wl, EvGotUserMedia_wl, EvAdopt_wl] (new_LiveService_wl []))) = [] \<and>
   isConnected (run_wl [EvMessage_wl \<lparr>toolCall = Some
        [\<lparr>fc_id = ''1'', fc_name = ''google_search'', fc_args = NoArgs\<rparr>,
         \<lparr>fc_id = ''2'', fc_name = ''get_financial_profile'', fc_args = NoArgs\<rparr>],
        audioData = NoAudio\<rparr> 0]
      (run_wl [EvConnect_wl, EvGotUserMedia_wl, EvAdopt_wl] (new_LiveService_wl [])))"
  unfolding connected_example connected_example_wl
  by (simp add: step_def handleMessage_def onLog_def console_line_def step_wl_def
      handleMessage_wl_def new_LiveService_def new_LiveService_wl_def)

text \<open>
  C7, amended. The statement is in terms of \<open>answers\<close>: the responses of the calls of a
  batch, in order, up to the first call whose handler throws.

  Along every run in which the session stays connected, whatever the events and the
  order in which the pending tasks are run, the responses sent and the responses the
  pending tasks still owe are together those sent and owed before the run and the
  \<open>answers\<close> of the batches the run has delivered: no response is sent twice and none is
  lost. When such a run ends with nothing pending, the responses sent are exactly those.
  And that end is reached: from every connected state (of liveService.ts: with no
  \<open>disconnect\<close> under way) running the pending tasks in order ends after at most \<open>work\<close>
  steps with nothing pending, the session connected throughout and everything that was
  owed sent. So each call of a batch gets the response \<open>answers\<close> gives it, exactly once.

  When every \<open>google_search\<close> call of the batch carries a string query, \<open>answers\<close> has one
  response per call, with the id and the name of its call. A call whose name is neither
  \<open>get_financial_profile\<close> nor \<open>google_search\<close> is answered with the empty object and the
  rest of the batch is answered after it. A \<open>google_search\<close> call without an arguments
  object ends the \<open>answers\<close> of its batch: the calls before it are answered, that call and
  the calls after it are not. Handling a message or resuming a handler, whatever the
  batch carries, leaves the session connected.
\<close>

theorem tool_calls_answered_once:
  "(stays evs s \<longrightarrow>
      mset (toolResponses (run evs s)) + owed (pending (run evs s)) =
        mset (toolResponses s) + owed (pending s) + received evs) \<and>
   (stays evs s \<and> pending (run evs s) = [] \<longrightarrow>
      mset (toolResponses (run evs s)) = mset (toolResponses s) + owed (pending s) + received evs) \<and>
   (serving s \<and> (\<forall>k \<in> set (pending s). \<not> teardown k) \<and> work (pending s) \<le> length ts \<longrightarrow>
      pending (run (map (EvRun 0) ts) s) = [] \<and> stays (map (EvRun 0) ts) s \<and>
      serving (run (map (EvRun 0) ts) s) \<and>
      mset (toolResponses (run (map (EvRun 0) ts) s)) = mset (toolResponses s) + owed (pending s)) \<and>
   (stays_wl evs' w \<longrightarrow>
      mset (toolResponses (run_wl evs' w)) + owed_wl (pending_wl (run_wl evs' w)) =
        mset (toolResponses w) + owed_wl (pending_wl w) + received_wl evs') \<and>
   (stays_wl evs' w \<and> pending_wl (run_wl evs' w) = [] \<longrightarrow>
      mset (toolResponses (run_wl evs' w)) =
        mset (toolResponses w) + owed_wl (pending_wl w) + received_wl evs') \<and>
   (serving_wl w \<and> work_wl (pending_wl w) \<le> length ts' \<longrightarrow>
      pending_wl (run_wl (map (EvRun_wl 0) ts') w) = [] \<and> stays_wl (map (EvRun_wl 0) ts') w \<and>
      serving_wl (run_wl (map (EvRun_wl 0) ts') w) \<and>
      mset (toolResponses (run_wl (map (EvRun_wl 0) ts') w)) =
        mset (toolResponses w) + owed_wl (pending_wl w)) \<and>
   ((\<forall>fc \<in> set calls. fc_name fc = ''google_search'' \<longrightarrow> carries_query fc) \<longrightarrow>
      map resp_id (answers resolve calls) = map fc_id calls \<and>
      map resp_name (answers resolve calls) = map fc_name calls \<and>
      map resp_id (answers resolve_wl calls) = map fc_id calls \<and>
      map resp_name (answers resolve_wl calls) = map fc_name calls) \<and>
   (fc_name fc \<noteq> ''get_financial_profile'' \<and> fc_name fc \<noteq> ''google_search'' \<longrightarrow>
      answers resolve (fc # fcs) = response fc EmptyObject # answers resolve fcs \<and>
      answers resolve_wl (fc # fcs) = response fc EmptyObject # answers resolve_wl fcs) \<and>
   (fc_name bad = ''google_search'' \<and> fc_args bad = NoArgs \<longrightarrow>
      answers resolve (pre @ bad # rest) = answers resolve pre \<and>
      answers resolve_wl (pre @ bad # rest) = answers resolve_wl pre) \<and>
   (serving s \<longrightarrow> serving (step (EvMessage message now) s)) \<and>
   (serving s \<and> n < length (pending s) \<and> \<not> teardown (pending s ! n) \<longrightarrow>
      serving (step (EvRun n now) s)) \<and>
   (serving_wl w \<longrightarrow>
      serving_wl (step_wl (EvMessage_wl message now) w) \<and>
      serving_wl (step_wl (EvRun_wl n' now) w))"
proof (intro conjI impI)
  assume "stays evs s"
  then show "mset (toolResponses (run evs s)) + owed (pending (run evs s)) =
        mset (toolResponses s) + owed (pending s) + received evs"
    by (rule run_conserves)
next
  assume h: "serving s \<and> (\<forall>k \<in> set (pending s). \<not> teardown k) \<and> work (pending s) \<le> length ts"
  then have c: "serving s" "\<forall>k \<in> set (pending s). \<not> teardown k" "work (pending s) \<le> length ts"
    by blast+
  note d = drains [OF c]
  from d show e: "pending (run (map (EvRun 0) ts) s) = []" by blast
  from d show st: "stays (map (EvRun 0) ts) s" by blast
  from run_conserves [OF st] show "mset (toolResponses (run (map (EvRun 0) ts) s)) =
      mset (toolResponses s) + owed (pending s)"
    by (simp add: e owed_Nil received_runs)
  from st show "serving (run (map (EvRun 0) ts) s)" by (rule stays_serving)
next
  assume h: "stays evs s \<and> pending (run evs s) = []"
  then have st: "stays evs s" and e: "pending (run evs s) = []" by blast+
  from run_conserves [OF st] show "mset (toolResponses (run evs s)) =
      mset (toolResponses s) + owed (pending s) + received evs"
    by (simp add: e owed_Nil)
next
  assume "stays_wl evs' w"
  then show "mset (toolResponses (run_wl evs' w)) + owed_wl (pending_wl (run_wl evs' w)) =
        mset (toolResponses w) + owed_wl (pending_wl w) + received_wl evs'"
    by (rule run_wl_conserves)
next
  assume h: "serving_wl w \<and> work_wl (pending_wl w) \<le> length ts'"
  then have c: "serving_wl w" "work_wl (pending_wl w) \<le> length ts'" by blast+
  note d = drains_wl [OF c]
  from d show e: "pending_wl (run_wl (map (EvRun_wl 0) ts') w) = []" by blast
  from d show st: "stays_wl (map (EvRun_wl 0) ts') w" by blast
  from run_wl_conserves [OF st] show "mset (toolResponses (run_wl (map (EvRun_wl 0) ts') w)) =
      mset (toolResponses w) + owed_wl (pending_wl w)"
    by (simp add: e owed_wl_Nil received_wl_runs)
  from st show "serving_wl (run_wl (map (EvRun_wl 0) ts') w)" by (rule stays_wl_serving)
next
  assume h: "stays_wl evs' w \<and> pending_wl (run_wl evs' w) = []"
  then have st: "stays_wl evs' w" and e: "pending_wl (run_wl evs' w) = []" by blast+
  from run_wl_conserves [OF st] show "mset (toolResponses (run_wl evs' w)) =
      mset (toolResponses w) + owed_wl (pending_wl w) + received_wl evs'"
    by (simp add: e owed_wl_Nil)
next
  assume h: "\<forall>fc \<in> set calls. fc_name fc = ''google_search'' \<longrightarrow> carries_query fc"
  then have r: "\<forall>fc \<in> set calls. \<exists>r. resolve fc = Inr r" "\<forall>fc \<in> set calls. \<exists>r. resolve_wl fc = Inr r"
    using resolve_returns by blast+
  from answers_ids [OF r(1)]
  show "map resp_id (answers resolve calls) = map fc_id calls"
    "map resp_name (answers resolve calls) = map fc_name calls"
    by blast+
  from answers_ids [OF r(2)]
  show "map resp_id (answers resolve_wl calls) = map fc_id calls"
    "map resp_name (answers resolve_wl calls) = map fc_name calls"
    by blast+
next
  assume "fc_name fc \<noteq> ''get_financial_profile'' \<and> fc_name fc \<noteq> ''google_search''"
  then show "answers resolve (fc # fcs) = response fc EmptyObject # answers resolve fcs"
    "answers resolve_wl (fc # fcs) = response fc EmptyObject # answers resolve_wl fcs"
    using answers_unknown [of fc fcs] by blast+
next
  assume h: "fc_name bad = ''google_search'' \<and> fc_args bad = NoArgs"
  then have n: "resolve bad = Inl TypeError" "resolve_wl bad = Inl TypeError"
    using resolve_no_arguments [of bad] by blast+
  from n(1) show "answers resolve (pre @ bad # rest) = answers resolve pre"
    by (rule answers_stops)
  from n(2) show "answers resolve_wl (pre @ bad # rest) = answers resolve_wl pre"
    by (rule answers_stops)
next
  assume "serving s"
  then show "serving (step (EvMessage message now) s)" by (rule message_keeps_serving)
next
  assume h: "serving s \<and> n < length (pending s) \<and> \<not> teardown (pending s ! n)"
  then have c: "isConnected (s\<lparr>pending := take n (pending s) @ drop (Suc n) (pending s)\<rparr>)"
    "sessionPromise (s\<lparr>pending := take n (pending s) @ drop (Suc n) (pending s)\<rparr>)"
    "\<not> teardown (pending s ! n)"
    by (simp_all add: serving_def)
  from run_task_frame [OF c, of now] h show "serving (step (EvRun n now) s)"
    by (simp add: step_def serving_def)
next
  assume h: "serving_wl w"
  then show "serving_wl (step_wl (EvMessage_wl message now) w)" by (rule message_keeps_serving_wl)
  show "serving_wl (step_wl (EvRun_wl n' now) w)"
  proof (cases "n' < length (pending_wl w)")
    case True
    have "serving_wl (w\<lparr>pending_wl := take n' (pending_wl w) @ drop (Suc n') (pending_wl w)\<rparr>)"
      using h by (simp add: serving_wl_def)
    from run_task_wl_conserves [OF this, of "pending_wl w ! n'" now] True show ?thesis
      by (simp add: step_wl_def)
  next
    case False
    then show ?thesis using h by (simp add: step_wl_def)
  qed
qed

theorem tool_calls_answered_once_witness:
  "stays ([EvMessage \<lparr>toolCall = Some
        [\<lparr>fc_id = ''a'', fc_name = ''get_financial_profile'', fc_args = NoArgs\<rparr>,
         \<lparr>fc_id = ''b'', fc_name = ''google_search'', fc_args = Args (Str ''Rate'')\<rparr>,
         \<lparr>fc_id = ''c'', fc_name = ''get_weather'', fc_args = Args Undefined\<rparr>],
        audioData = NoAudio\<rparr> 0, EvAudioProcess [0], EvRun 1 0] @ map (EvRun 0) [0, 0, 0, 0])
      (run [EvConnect, EvGotUserMedia, EvOpen] (new_LiveService [])) \<and>
   mset (toolResponses (run ([EvMessage \<lparr>toolCall = Some
        [\<lparr>fc_id = ''a'', fc_name = ''get_financial_profile'', fc_args = NoArgs\<rparr>,
         \<lparr>fc_id = ''b'', fc_name = ''google_search'', fc_args = Args (Str ''Rate'')\<rparr>,
         \<lparr>fc_id = ''c'', fc_name = ''get_weather'', fc_args = Args Undefined\<rparr>],
        audioData = NoAudio\<rparr> 0, EvAudioProcess [0], EvRun 1 0] @ map (EvRun 0) [0, 0, 0, 0])
      (run [EvConnect, EvGotUserMedia, EvOpen] (new_LiveService [])))) =
     mset [\<lparr>resp_id = ''a'', resp_name = ''get_financial_profile'', resp_result = MOCK_FINANCIAL_PROFILE\<rparr>,
      \<lparr>resp_id = ''b'', resp_name = ''google_search'', resp_result =
         SearchText ''Current 30-year fixed mortgage rates are around 7.2%. Fed interest rates are held steady at 5.25-5.50%.''\<rparr>,
      \<lparr>resp_id = ''c'', resp_name = ''get_weather'', resp_result = EmptyObject\<rparr>] \<and>
   pending (run ([EvMessage \<lparr>toolCall = Some
        [\<lparr>fc_id = ''a'', fc_name = ''get_financial_profile'', fc_args = NoArgs\<rparr>,
         \<lparr>fc_id = ''b'', fc_name = ''google_search'', fc_args = Args (Str ''Rate'')\<rparr>,
         \<lparr>fc_id = ''c'', fc_name = ''get_weather'', fc_args = Args Undefined\<rparr>],
        audioData = NoAudio\<rparr> 0, EvAudioProcess [0], EvRun 1 0] @ map (EvRun 0) [0, 0, 0, 0])
      (run [EvConnect, EvGotUserMedia, EvOpen] (new_LiveService []))) = [] \<and>
   stays_wl ([EvMessage_wl \<lparr>toolCall = Some
        [\<lparr>fc_id = ''a'', fc_name = ''get_financial_profile'', fc_args = NoArgs\<rparr>,
         \<lparr>fc_id = ''b'', fc_name = ''google_search'', fc_args = Args (Str ''Rate'')\<rparr>,
         \<lparr>fc_id = ''c'', fc_name = ''get_weather'', fc_args = Args Undefined\<rparr>],
        audioData = NoAudio\<rparr> 0, EvOpen_wl] @ map (EvRun_wl 0) [0, 0])
      (run_wl [EvConnect_wl, EvGotUserMedia_wl, EvAdopt_wl] (new_LiveService_wl [])) \<and>
   mset (toolResponses (run_wl ([EvMessage_wl \<lparr>toolCall = Some
        [\<lparr>fc_id = ''a'', fc_name = ''get_financial_profile'', fc_args = NoArgs\<rparr>,
         \<lparr>fc_id = ''b'', fc_name = ''google_search'', fc_args = Args (Str ''Rate'')\<rparr>,
         \<lparr>fc_id = ''c'', fc_name = ''get_weather'', fc_args = Args Undefined\<rparr>],
        audioData = NoAudio\<rparr> 0, EvOpen_wl] @ map (EvRun_wl 0) [0, 0])
      (run_wl [EvConnect_wl, EvGotUserMedia_wl, EvAdopt_wl] (new_LiveService_wl [])))) =
     mset [\<lparr>resp_id = ''a'', resp_name = ''get_financial_profile'', resp_result = MOCK_FINANCIAL_PROFILE\<rparr>,
      \<lparr>resp_id = ''b'', resp_name = ''google_search'', resp_result =
         SearchText (''Search results for '' @ dq @ ''Rate'' @ dq @ '': Recent financial data indicates stability.'')\<rparr>,
      \<lparr>resp_id = ''c'', resp_name = ''get_weather'', resp_result = EmptyObject\<rparr>] \<and>
   map resp_id (answers resolve
        [\<lparr>fc_id = ''a'', fc_name = ''get_financial_profile'', fc_args = NoArgs\<rparr>,
         \<lparr>fc_id = ''b'', fc_name = ''google_search'', fc_args = Args (Str ''Rate'')\<rparr>,
         \<lparr>fc_id = ''c'', fc_name = ''get_weather'', fc_args = Args Undefined\<rparr>]) = [''a'', ''b'', ''c''] \<and>
   answers resolve
        [\<lparr>fc_id = ''c'', fc_name = ''get_weather'', fc_args = Args Undefined\<rparr>,
         \<lparr>fc_id = ''a'', fc_name = ''get_financial_profile'', fc_args = NoArgs\<rparr>] =
     [\<lparr>resp_id = ''c'', resp_name = ''get_weather'', resp_result = EmptyObject\<rparr>,
      \<lparr>resp_id = ''a'', resp_name = ''get_financial_profile'', resp_result = MOCK_FINANCIAL_PROFILE\<rparr>] \<and>
   answers resolve_wl
        [\<lparr>fc_id = ''a'', fc_name = ''get_financial_profile'', fc_args = NoArgs\<rparr>,
         \<lparr>fc_id = ''d'', fc_name = ''google_search'', fc_args = NoArgs\<rparr>,
         \<lparr>fc_id = ''c'', fc_name = ''get_weather'', fc_args = Args Undefined\<rparr>] =
     [\<lparr>resp_id = ''a'', resp_name = ''get_financial_profile'', resp_result = MOCK_FINANCIAL_PROFILE\<rparr>] \<and>
   serving (step (EvMessage \<lparr>toolCall = Some
        [\<lparr>fc_id = ''d'', fc_name = ''google_search'', fc_args = NoArgs\<rparr>,
         \<lparr>fc_id = ''a'', fc_name = ''get_financial_profile'', fc_args = NoArgs\<rparr>],
        audioData = NoAudio\<rparr> 0)
      (run [EvConnect, EvGotUserMedia, EvOpen] (new_LiveService []))) \<and>
   serving_wl (step_wl (EvMessage_wl \<lparr>toolCall = Some
        [\<lparr>fc_id = ''d'', fc_name = ''google_search'', fc_args = NoArgs\<rparr>,
         \<lparr>fc_id = ''a'', fc_name = ''get_financial_profile'', fc_args = NoArgs\<rparr>],
        audioData = NoAudio\<rparr> 0)
      (run_wl [EvConnect_wl, EvGotUserMedia_wl, EvAdopt_wl] (new_LiveService_wl [])))"
proof -
  define a where "a = \<lparr>fc_id = ''a'', fc_name = ''get_financial_profile'', fc_args = NoArgs\<rparr>"
  define b where "b = \<lparr>fc_id = ''b'', fc_name = ''google_search'', fc_args = Args (Str ''Rate'')\<rparr>"
  define c where "c = \<lparr>fc_id = ''c'', fc_name = ''get_weather'', fc_args = Args Undefined\<rparr>"
  define d where "d = \<lparr>fc_id = ''d'', fc_name = ''google_search'', fc_args = NoArgs\<rparr>"
  define found where "found = ''Current 30-year fixed mortgage rates are around 7.2%. Fed interest rates are held steady at 5.25-5.50%.''"
  define m where "m = \<lparr>toolCall = Some [a, b, c], audioData = NoAudio\<rparr>"
  define s0 where "s0 = run [EvConnect, EvGotUserMedia, EvOpen] (new_LiveService [])"
  define evs where "evs = [EvMessage m 0, EvAudioProcess [0], EvRun 1 0]"
  define s1 where "s1 = run evs s0"
  define w0 where "w0 = run_wl [EvConnect_wl, EvGotUserMedia_wl, EvAdopt_wl] (new_LiveService_wl [])"
  define evw where "evw = [EvMessage_wl m 0, EvOpen_wl]"
  define w1 where "w1 = run_wl evw w0"
  have names: "fc_name a = ''get_financial_profile''" "fc_name b = ''google_search''"
    "fc_name c = ''get_weather''" "fc_name d = ''google_search''"
    "fc_args b = Args (Str ''Rate'')" "fc_args d = NoArgs"
    by (simp_all add: a_def b_def c_def d_def)
  have ans: "answers resolve [a, b, c] =
      [response a MOCK_FINANCIAL_PROFILE, response b (SearchText found), response c EmptyObject]"
    by (simp add: resolve_def names rate_search found_def)
  have answ: "answers resolve_wl [a, b, c] =
      [response a MOCK_FINANCIAL_PROFILE, response b (SearchText (mockGoogleSearch_wl (Str ''Rate''))),
       response c EmptyObject]"
    by (simp add: resolve_wl_def names)
  \<comment> \<open>liveService.ts: the states along the run\<close>
  have e0: "s0 = (new_LiveService [])\<lparr>isConnected := True, inputAudioContext := True,
        outputAudioContext := True, mediaStream := True, source := True,
        connectionState := CONNECTED,
        logs := [(System, ''Initializing audio context...''),
                 (System, ''Connecting to Gemini Live API...''),
                 (System, ''Coach is ready. Listening...'')],
        processor := True, sessionPromise := True\<rparr>"
    unfolding s0_def by (rule connected_example)
  have f0: "serving s0" "toolResponses s0 = []" "pending s0 = []"
    unfolding e0 by (simp_all add: serving_def new_LiveService_def)
  define u1 where "u1 = step (EvMessage m 0) s0"
  define u2 where "u2 = step (EvAudioProcess [0]) u1"
  have p1: "serving u1" "pending u1 = [ThenTool a MOCK_FINANCIAL_PROFILE, AwaitSearch b (Str ''Rate'') [c] NoAudio]"
    unfolding u1_def e0 m_def
    by (simp_all add: serving_def step_def handleMessage_def names sendResponseBack_def suspend_def
        onLog_def new_LiveService_def Let_def)
  have p2: "serving u2" "pending u2 = [ThenTool a MOCK_FINANCIAL_PROFILE,
      AwaitSearch b (Str ''Rate'') [c] NoAudio, ThenAudio (float32ToInt16PCM [0])]"
    unfolding u2_def using p1
    by (simp_all add: serving_def step_def onaudioprocess_def suspend_def onVolume_def Let_def)
  have e1: "s1 = step (EvRun 1 0) u2"
    unfolding s1_def evs_def u2_def u1_def by simp
  have r3: "serving u2 \<and> 1 < length (pending u2) \<and> \<not> teardown (pending u2 ! 1)"
    using p2 by simp
  from tool_calls_answered_once [where s = u2 and n = 1 and now = 0] r3
  have p3a: "serving s1" unfolding e1 by blast
  have p3b: "pending s1 = [ThenTool a MOCK_FINANCIAL_PROFILE,
      ThenAudio (float32ToInt16PCM [0]), ThenTool b (SearchText found), ThenTool c EmptyObject]"
    unfolding e1 using p2
    by (simp add: serving_def step_def run_task_def rate_search found_def names
        sendResponseBack_def suspend_def onLog_def catch_processing_def handleAudioResponse_def Let_def)
  note p3 = p3a p3b
  have st: "stays evs s0"
    unfolding evs_def stays.simps u1_def [symmetric] u2_def [symmetric] e1 [symmetric]
    using f0(1) p1(1) p2(1) p3(1) by blast
  have nt: "\<forall>k \<in> set (pending s1). \<not> teardown k" by (simp add: p3(2))
  have wk: "work (pending s1) \<le> length [0, 0, 0, 0 :: real]" by (simp add: p3(2) work_def)
  note t1 = tool_calls_answered_once [where evs = evs and s = s0 and evs' = evw and w = w0
      and calls = "[a, b, c]" and fc = c and fcs = "[a]" and bad = d and pre = "[a]" and rest = "[c]"
      and message = "\<lparr>toolCall = Some [d, a], audioData = NoAudio\<rparr>" and now = 0]
  note t2 = tool_calls_answered_once [where s = s1 and ts = "[0, 0, 0, 0]" and w = w1
      and ts' = "[0, 0]"]
  define all where "all = evs @ map (EvRun 0) [0, 0, 0, 0]"
  from t2 p3(1) nt wk have k2: "pending (run (map (EvRun 0) [0, 0, 0, 0]) s1) = []"
    "stays (map (EvRun 0) [0, 0, 0, 0]) s1"
    by blast+
  have sta: "stays all s0"
    unfolding all_def stays_append using st k2(2) by (simp add: s1_def)
  have pa: "pending (run all s0) = []"
    unfolding all_def run_append using k2(1) by (simp add: s1_def)
  have rc: "received all = mset (answers resolve [a, b, c])"
    by (simp add: all_def evs_def m_def)
  from tool_calls_answered_once [where evs = all and s = s0] sta pa
  have "mset (toolResponses (run all s0)) = mset (toolResponses s0) + owed (pending s0) + received all"
    by blast
  then have r1: "mset (toolResponses (run all s0)) =
      mset [response a MOCK_FINANCIAL_PROFILE, response b (SearchText found), response c EmptyObject]"
    unfolding rc ans by (simp add: f0 owed_def)
  \<comment> \<open>the worklet variant\<close>
  have g0: "w0 = (new_LiveService_wl [])\<lparr>isConnected := True, inputAudioContext := True,
        outputAudioContext := True, mediaStream := True, source := True,
        connectionState := CONNECTED,
        logs := [(System, ''Initializing audio context...''),
                 (System, ''Connecting to Gemini Live API...'')],
        workletNode := True, currentSession := True\<rparr>"
    unfolding w0_def by (rule connected_example_wl)
  have h0: "serving_wl w0" "toolResponses w0 = []" "pending_wl w0 = []"
    unfolding g0 by (simp_all add: serving_wl_def new_LiveService_wl_def)
  define v1 where "v1 = step_wl (EvMessage_wl m 0) w0"
  have q1: "serving_wl v1" "pending_wl v1 = [AwaitSearch_wl b (Str ''Rate'') [c] NoAudio]"
    unfolding v1_def g0 m_def
    by (simp_all add: serving_wl_def step_wl_def handleMessage_wl_def names respond_wl_def
        next_outcome_def sendToolResponse_def suspend_wl_def onLog_def new_LiveService_wl_def Let_def)
  have g1: "w1 = step_wl EvOpen_wl v1"
    unfolding w1_def evw_def v1_def by simp
  have q2: "serving_wl w1" "pending_wl w1 = [AwaitSearch_wl b (Str ''Rate'') [c] NoAudio]"
    unfolding g1 using q1 by (simp_all add: serving_wl_def step_wl_def handleOpen_wl_def onLog_def)
  have stw: "stays_wl evw w0"
    unfolding evw_def stays_wl.simps v1_def [symmetric] g1 [symmetric]
    using h0(1) q1(1) q2(1) by blast
  have wkw: "work_wl (pending_wl w1) \<le> length [0, 0 :: real]" by (simp add: q2(2) work_wl_def)
  define allw where "allw = evw @ map (EvRun_wl 0) [0, 0]"
  from t2 q2(1) wkw have j2: "pending_wl (run_wl (map (EvRun_wl 0) [0, 0]) w1) = []"
    "stays_wl (map (EvRun_wl 0) [0, 0]) w1"
    by blast+
  have staw: "stays_wl allw w0"
    unfolding allw_def stays_wl_append using stw j2(2) by (simp add: w1_def)
  have paw: "pending_wl (run_wl allw w0) = []"
    unfolding allw_def run_wl_append using j2(1) by (simp add: w1_def)
  have rcw: "received_wl allw = mset (answers resolve_wl [a, b, c])"
    by (simp add: allw_def evw_def m_def)
  from tool_calls_answered_once [where evs' = allw and w = w0] staw paw
  have "mset (toolResponses (run_wl allw w0)) =
      mset (toolResponses w0) + owed_wl (pending_wl w0) + received_wl allw"
    by blast
  then have r2: "mset (toolResponses (run_wl allw w0)) =
      mset [response a MOCK_FINANCIAL_PROFILE, response b (SearchText (mockGoogleSearch_wl (Str ''Rate''))),
            response c EmptyObject]"
    unfolding rcw answ by (simp add: h0 owed_wl_def)
  \<comment> \<open>what a batch is answered with\<close>
  have cq: "\<forall>fc \<in> set [a, b, c]. fc_name fc = ''google_search'' \<longrightarrow> carries_query fc"
    by (simp add: names carries_query_def)
  from t1 cq have i1: "map resp_id (answers resolve [a, b, c]) = map fc_id [a, b, c]" by blast
  have un: "fc_name c \<noteq> ''get_financial_profile'' \<and> fc_name c \<noteq> ''google_search''"
    by (simp add: names)
  from t1 un have i2: "answers resolve (c # [a]) = response c EmptyObject # answers resolve [a]"
    by blast
  have na: "fc_name d = ''google_search'' \<and> fc_args d = NoArgs" by (simp add: names)
  from t1 na have i3: "answers resolve_wl ([a] @ d # [c]) = answers resolve_wl [a]" by blast
  have aa: "answers resolve [a] = [response a MOCK_FINANCIAL_PROFILE]"
    "answers resolve_wl [a] = [response a MOCK_FINANCIAL_PROFILE]"
    by (simp_all add: resolve_def resolve_wl_def names)
  from t1 f0(1) have i4: "serving (step (EvMessage \<lparr>toolCall = Some [d, a], audioData = NoAudio\<rparr> 0) s0)"
    by blast
  from t1 h0(1) have i5: "serving_wl (step_wl (EvMessage_wl \<lparr>toolCall = Some [d, a], audioData = NoAudio\<rparr> 0) w0)"
    by blast
  have ids: "map fc_id [a, b, c] = [''a'', ''b'', ''c'']" by (simp add: a_def b_def c_def)
  have texts: "mockGoogleSearch_wl (Str ''Rate'') =
      ''Search results for '' @ dq @ ''Rate'' @ dq @ '': Recent financial data indicates stability.''"
    by (simp add: mockGoogleSearch_wl_def display_def)
  have r1': "mset (toolResponses (run all s0)) =
     mset [\<lparr>resp_id = ''a'', resp_name = ''get_financial_profile'', resp_result = MOCK_FINANCIAL_PROFILE\<rparr>,
      \<lparr>resp_id = ''b'', resp_name = ''google_search'', resp_result = SearchText found\<rparr>,
      \<lparr>resp_id = ''c'', resp_name = ''get_weather'', resp_result = EmptyObject\<rparr>]"
    using r1 by (simp add: a_def b_def c_def)
  have r2': "mset (toolResponses (run_wl allw w0)) =
     mset [\<lparr>resp_id = ''a'', resp_name = ''get_financial_profile'', resp_result = MOCK_FINANCIAL_PROFILE\<rparr>,
      \<lparr>resp_id = ''b'', resp_name = ''google_search'', resp_result =
         SearchText (''Search results for '' @ dq @ ''Rate'' @ dq @ '': Recent financial data indicates stability.'')\<rparr>,
      \<lparr>resp_id = ''c'', resp_name = ''get_weather'', resp_result = EmptyObject\<rparr>]"
    using r2 [unfolded texts] by (simp add: a_def b_def c_def)
  have i2': "answers resolve [c, a] =
     [\<lparr>resp_id = ''c'', resp_name = ''get_weather'', resp_result = EmptyObject\<rparr>,
      \<lparr>resp_id = ''a'', resp_name = ''get_financial_profile'', resp_result = MOCK_FINANCIAL_PROFILE\<rparr>]"
    using i2 [unfolded aa] by (simp add: a_def c_def)
  have i3': "answers resolve_wl [a, d, c] =
     [\<lparr>resp_id = ''a'', resp_name = ''get_financial_profile'', resp_result = MOCK_FINANCIAL_PROFILE\<rparr>]"
    using i3 [unfolded aa] by (simp add: a_def)
  from sta r1' pa staw r2' i1 [unfolded ids] i2' i3' i4 i5
  show ?thesis
    unfolding all_def allw_def evs_def evw_def s0_def w0_def m_def a_def b_def c_def d_def found_def
    by (simp only: simp_thms)
qed

end
